(* ===== verification/Hooq_Prelude.thy ===== *)
theory Hooq_Prelude
  imports Main "HOL-Library.Sublist" "HOL-Library.Word" "HOL-Library.List_Lexorder" "HOL-Library.Char_ord"
begin

text \<open>
  The vocabulary the component theories share.

  Hooq is written against Qt. Qt's value classes (\<open>QString\<close>, \<open>QList\<close>, \<open>QPoint\<close>, \<open>QMap\<close>)
  are represented by HOL's strings, lists, pairs and sorted association lists; the few
  string operations the sources use (\<open>replace\<close>, \<open>split\<close>, \<open>join\<close>, \<open>arg\<close>) are written out
  below as the Qt 4 documentation describes them. What Qt computes from its own tables or
  from the platform (numbers as text, character classes, the names of enumeration values)
  is a value of the record \<open>qt\<close>, a parameter of every definition that uses it.
\<close>

section \<open>Collections of facts\<close>

named_theorems qt_text \<open>evaluation of the text operations\<close>
named_theorems script_defs \<open>definitions unfolded when a script item is printed\<close>
named_theorems step_defs \<open>definitions of state transitions\<close>

section \<open>Results that may be errors\<close>

lemma map_sum_Inr_iff: "map_sum id f x = Inr y \<longleftrightarrow> (\<exists>z. x = Inr z \<and> y = f z)"
  by (cases x) auto

section \<open>Strings\<close>

type_synonym qchar = char
type_synonym qtext = string

text \<open>
  \<open>QString\<close> distinguishes the null string from the empty one; \<open>None\<close> is the null string.
\<close>

type_synonym qstring = "string option"

definition qs_text :: "qstring \<Rightarrow> qtext" where
  "qs_text s = (case s of None \<Rightarrow> [] | Some t \<Rightarrow> t)"

lemma qs_text_simps [simp]: "qs_text None = []" "qs_text (Some t) = t"
  by (simp_all add: qs_text_def)

definition qs_isEmpty :: "qstring \<Rightarrow> bool" where
  "qs_isEmpty s \<longleftrightarrow> qs_text s = []"

lemma qs_isEmpty_simps [simp]: "qs_isEmpty None" "qs_isEmpty (Some t) \<longleftrightarrow> t = []"
  by (simp_all add: qs_isEmpty_def)

text \<open>Comparison of two \<open>QString\<close>s: the null string equals the empty one.\<close>

definition qs_eq :: "qstring \<Rightarrow> qstring \<Rightarrow> bool" where
  "qs_eq a b \<longleftrightarrow> qs_text a = qs_text b"

lemma qs_eq_simps [simp]:
  "qs_eq (Some a) (Some b) \<longleftrightarrow> a = b"
  "qs_eq None (Some b) \<longleftrightarrow> b = []"
  "qs_eq (Some a) None \<longleftrightarrow> a = []"
  "qs_eq None None"
  by (auto simp: qs_eq_def)

text \<open>Characters that cannot be written plainly in a literal.\<close>

abbreviation dquote :: char where "dquote \<equiv> CHR 0x22"
abbreviation backslash :: char where "backslash \<equiv> CHR 0x5C"
abbreviation newline :: char where "newline \<equiv> CHR 0x0A"
abbreviation carriage :: char where "carriage \<equiv> CHR 0x0D"
abbreviation percent :: char where "percent \<equiv> CHR 0x25"
abbreviation colon :: char where "colon \<equiv> CHR 0x3A"

subsection \<open>replace\<close>

text \<open>
  \<open>QString::replace(before, after)\<close>: every occurrence of \<open>before\<close>, found from the left and
  without overlap, becomes \<open>after\<close>.
\<close>

function qreplace :: "qtext \<Rightarrow> qtext \<Rightarrow> qtext \<Rightarrow> qtext" where
  "qreplace before after [] = []"
| "qreplace before after (c # cs) =
     (if before \<noteq> [] \<and> prefix before (c # cs)
      then after @ qreplace before after (drop (length before - 1) cs)
      else c # qreplace before after cs)"
  by pat_completeness auto
termination by (relation "measure (\<lambda>(b, a, s). length s)") auto

subsection \<open>split and join\<close>

text \<open>
  \<open>QString::split(separator)\<close> with empty parts kept, and \<open>QStringList::join(separator)\<close>.
\<close>

function qsplit :: "qtext \<Rightarrow> qtext \<Rightarrow> qtext list" where
  "qsplit sep [] = [[]]"
| "qsplit sep (c # cs) =
     (if sep \<noteq> [] \<and> prefix sep (c # cs)
      then [] # qsplit sep (drop (length sep - 1) cs)
      else (case qsplit sep cs of p # ps \<Rightarrow> (c # p) # ps | [] \<Rightarrow> [[c]]))"
  by pat_completeness auto
termination by (relation "measure (\<lambda>(sep, s). length s)") auto

fun qjoin :: "qtext \<Rightarrow> qtext list \<Rightarrow> qtext" where
  "qjoin sep [] = []"
| "qjoin sep [p] = p"
| "qjoin sep (p # q # ps) = p @ sep @ qjoin sep (q # ps)"

lemma qsplit_nonempty [simp]: "qsplit sep s \<noteq> []"
  by (induction sep s rule: qsplit.induct) (auto split: list.splits)

lemma qjoin_Cons: "ps \<noteq> [] \<Longrightarrow> qjoin sep (p # ps) = p @ sep @ qjoin sep ps"
  by (cases ps) simp_all

lemma qjoin_append:
  "xs \<noteq> [] \<Longrightarrow> ys \<noteq> [] \<Longrightarrow> qjoin sep (xs @ ys) = qjoin sep xs @ sep @ qjoin sep ys"
proof (induction xs)
  case Nil
  then show ?case by simp
next
  case (Cons x xs)
  show ?case
  proof (cases "xs = []")
    case True
    with Cons.prems show ?thesis by (simp add: qjoin_Cons)
  next
    case False
    with Cons show ?thesis by (simp add: qjoin_Cons)
  qed
qed

lemma qsplit_sep: "sep \<noteq> [] \<Longrightarrow> qsplit sep (sep @ zs) = [] # qsplit sep zs"
  by (cases sep) simp_all

lemma qsplit_Cons:
  "\<not> prefix sep (c # cs) \<Longrightarrow>
   qsplit sep (c # cs) = (c # hd (qsplit sep cs)) # tl (qsplit sep cs)"
  by (cases "qsplit sep cs") auto

text \<open>Splitting at a separator loses nothing.\<close>

lemma qjoin_qsplit: "sep \<noteq> [] \<Longrightarrow> qjoin sep (qsplit sep s) = s"
proof (induction sep s rule: qsplit.induct)
  case (1 sep)
  then show ?case by simp
next
  case (2 sep c cs)
  show ?case
  proof (cases "prefix sep (c # cs)")
    case True
    then obtain zs where zs: "c # cs = sep @ zs" by (auto simp: prefix_def)
    with "2.prems" have d: "drop (length sep - 1) cs = zs"
      by (cases sep) auto
    have "qjoin sep (qsplit sep zs) = zs"
      using "2.IH"(1) "2.prems" True d by simp
    then show ?thesis
      unfolding zs using "2.prems" by (simp add: qsplit_sep qjoin_Cons)
  next
    case False
    obtain p ps where s: "qsplit sep cs = p # ps"
      by (metis qsplit_nonempty neq_Nil_conv)
    have "qjoin sep (qsplit sep cs) = cs"
      using "2.IH"(2) "2.prems" False by simp
    with False s show ?thesis by (cases ps) (simp_all add: qsplit_Cons)
  qed
qed


lemma length_qjoin_butlast:
  assumes "sep \<noteq> []" and "butlast ps \<noteq> []"
  shows "length (qjoin sep (butlast ps)) < length (qjoin sep ps)"
proof -
  from assms(2) have ps: "ps = butlast ps @ [last ps]"
    by (metis append_butlast_last_id butlast.simps(1))
  have "qjoin sep ps = qjoin sep (butlast ps) @ sep @ last ps"
    by (subst ps, subst qjoin_append) (use assms in simp_all)
  with assms(1) show ?thesis by (cases sep) simp_all
qed

subsection \<open>arg\<close>

text \<open>
  \<open>QString::arg(a)\<close>: all occurrences of the lowest numbered place marker (\<open>%1\<close> to \<open>%99\<close>,
  possibly with an \<open>L\<close> after the percent sign) are replaced by \<open>a\<close>. The text a previous
  \<open>arg\<close> inserted is scanned again by the next one.
\<close>

definition digit_value :: "char \<Rightarrow> nat option" where
  "digit_value c = (let n = of_char c :: nat in if 48 \<le> n \<and> n \<le> 57 then Some (n - 48) else None)"

fun marker_number :: "qtext \<Rightarrow> (nat \<times> nat) option" where
  "marker_number (d # e # s) = (case digit_value d of
     None \<Rightarrow> None
   | Some m \<Rightarrow> (case digit_value e of None \<Rightarrow> Some (m, 1) | Some n \<Rightarrow> Some (10 * m + n, 2)))"
| "marker_number [d] = (case digit_value d of None \<Rightarrow> None | Some m \<Rightarrow> Some (m, 1))"
| "marker_number [] = None"

text \<open>The place marker at the start of a text: its number and its length after the percent sign.\<close>

fun place_marker :: "qtext \<Rightarrow> (nat \<times> nat) option" where
  "place_marker (c # s) =
     (if c \<noteq> percent then None
      else case s of
        CHR ''L'' # s' \<Rightarrow> (case marker_number s' of
            None \<Rightarrow> None | Some (n, k) \<Rightarrow> if n = 0 then None else Some (n, Suc k))
      | _ \<Rightarrow> (case marker_number s of
            None \<Rightarrow> None | Some (n, k) \<Rightarrow> if n = 0 then None else Some (n, k)))"
| "place_marker [] = None"

fun lowest_marker :: "qtext \<Rightarrow> nat option" where
  "lowest_marker [] = None"
| "lowest_marker (c # s) = (case place_marker (c # s) of
     None \<Rightarrow> lowest_marker s
   | Some (n, k) \<Rightarrow> (case lowest_marker s of None \<Rightarrow> Some n | Some m \<Rightarrow> Some (min n m)))"

function fill_marker :: "nat \<Rightarrow> qtext \<Rightarrow> qtext \<Rightarrow> qtext" where
  "fill_marker n a [] = []"
| "fill_marker n a (c # s) = (case place_marker (c # s) of
     None \<Rightarrow> c # fill_marker n a s
   | Some (m, k) \<Rightarrow> if m = n then a @ fill_marker n a (drop k s) else c # fill_marker n a s)"
  by pat_completeness auto
termination by (relation "measure (\<lambda>(n, a, s). length s)") auto

definition qarg :: "qtext \<Rightarrow> qtext \<Rightarrow> qtext" where
  "qarg s a = (case lowest_marker s of None \<Rightarrow> s | Some n \<Rightarrow> fill_marker n a s)"

lemma place_marker_no_percent: "c \<noteq> percent \<Longrightarrow> place_marker (c # s) = None"
  by simp

lemma lowest_marker_append:
  "percent \<notin> set m \<Longrightarrow> lowest_marker (m @ s) = lowest_marker s"
  by (induction m) auto

lemma fill_marker_append:
  "percent \<notin> set m \<Longrightarrow> fill_marker n a (m @ s) = m @ fill_marker n a s"
  by (induction m) auto

text \<open>Text without a percent sign in front of the first marker stays as it is.\<close>

lemma qarg_append:
  "percent \<notin> set m \<Longrightarrow> qarg (m @ s) a = m @ qarg s a"
  by (simp add: qarg_def lowest_marker_append fill_marker_append split: option.splits)

lemma qarg_no_percent: "percent \<notin> set m \<Longrightarrow> qarg m a = m"
  using qarg_append [of m "[]" a] by (simp add: qarg_def)

text \<open>A text whose first place marker is the lowest one, each marker a single digit.\<close>

lemma fill_marker_absent: "(\<And>m. lowest_marker s = Some m \<Longrightarrow> n < m) \<Longrightarrow> fill_marker n a s = s"
proof (induction s)
  case (Cons c s)
  show ?case
  proof (cases "place_marker (c # s)")
    case None
    with Cons show ?thesis by simp
  next
    case (Some mk)
    obtain m k where mk: "mk = (m, k)" by fastforce
    have "n < m" using Cons.prems Some mk by (cases "lowest_marker s") (auto simp: min_def split: if_splits)
    moreover have "fill_marker n a s = s"
      using Cons.prems Some mk by (intro Cons.IH) (auto simp: min_def split: if_splits)
    ultimately show ?thesis using Some mk by simp
  qed
qed simp

lemma lowest_marker_plain: "percent \<notin> set s \<Longrightarrow> lowest_marker s = None"
  using lowest_marker_append [of s "[]"] by simp

lemma marker_digits [simp]:
  "digit_value CHR ''1'' = Some 1" "digit_value CHR ''2'' = Some 2" "digit_value CHR ''3'' = Some 3"
  by (simp_all add: digit_value_def)

lemma place_marker_digit:
  assumes "(d, n) \<in> {(CHR ''1'', 1), (CHR ''2'', 2), (CHR ''3'', 3)}" and "s \<noteq> []" and "digit_value (hd s) = None"
  shows "place_marker (percent # d # s) = Some (n, 1)" and "place_marker (d # s) = None"
  using assms by (cases s; auto)+

lemma lowest_marker_digit:
  assumes "(d, n) \<in> {(CHR ''1'', 1), (CHR ''2'', 2), (CHR ''3'', 3)}" and "s \<noteq> []" and "digit_value (hd s) = None"
    and "\<And>m. lowest_marker s = Some m \<Longrightarrow> n < m"
  shows "lowest_marker (percent # d # s) = Some n"
  using place_marker_digit [OF assms(1-3)] assms(4) by (cases "lowest_marker s") (auto simp: min_def)

lemma qarg_first_marker:
  assumes "(d, n) \<in> {(CHR ''1'', 1), (CHR ''2'', 2), (CHR ''3'', 3)}" and "s \<noteq> []" and "digit_value (hd s) = None"
    and "\<And>m. lowest_marker s = Some m \<Longrightarrow> n < m"
  shows "qarg (percent # d # s) a = a @ s"
  using lowest_marker_digit [OF assms] place_marker_digit [OF assms(1-3)] fill_marker_absent [OF assms(4)]
  by (simp add: qarg_def)

lemmas qarg_eval [qt_text] = qarg_def digit_value_def Let_def lowest_marker_append fill_marker_append

section \<open>What Qt computes from its own tables\<close>

text \<open>
  \<^item> \<open>qt_number\<close> and \<open>qt_toInt\<close>: \<open>QString::number(int)\<close> and \<open>QString::toInt()\<close> (0 for a text
    that is no number);
  \<^item> \<open>qt_isPrint\<close>, \<open>qt_isLetterOrNumber\<close>, \<open>qt_isUpper\<close>: the tests of \<open>QChar\<close>;
  \<^item> \<open>qt_toLower\<close>: \<open>QChar::toLower\<close>; \<open>qt_toLatin1\<close>: \<open>QChar::toLatin1\<close>, the code of the
    character;
  \<^item> \<open>qt_valueToKey\<close>: \<open>QMetaEnum::valueToKey\<close> for the enumeration \<open>Qt::Key\<close>;
  \<^item> \<open>qt_insertAt\<close>: the position at which \<open>QList::insert(i, x)\<close> puts \<open>x\<close> into a list of \<open>n\<close>
    elements.
\<close>

record qt =
  qt_number :: "int \<Rightarrow> qtext"
  qt_toInt :: "qtext \<Rightarrow> int"
  qt_isPrint :: "qchar \<Rightarrow> bool"
  qt_isLetterOrNumber :: "qchar \<Rightarrow> bool"
  qt_isUpper :: "qchar \<Rightarrow> bool"
  qt_toLower :: "qchar \<Rightarrow> qchar"
  qt_toLatin1 :: "qchar \<Rightarrow> int"
  qt_valueToKey :: "int \<Rightarrow> qtext"
  qt_insertAt :: "int \<Rightarrow> nat \<Rightarrow> nat"

text \<open>
  The documented behaviour of the conversions that the sources rely on: a 32-bit integer
  reads back from its decimal text, different numbers have different texts, and a number's
  text holds digits and a sign only.
\<close>

definition is_int :: "int \<Rightarrow> bool" where
  "is_int n \<longleftrightarrow> - (2 ^ 31) \<le> n \<and> n < 2 ^ 31"

definition number_reads_back :: "qt \<Rightarrow> bool" where
  "number_reads_back q \<longleftrightarrow> (\<forall>n. is_int n \<longrightarrow> qt_toInt q (qt_number q n) = n)"

definition number_distinct :: "qt \<Rightarrow> bool" where
  "number_distinct q \<longleftrightarrow> inj (qt_number q)"

definition number_is_plain :: "qt \<Rightarrow> bool" where
  "number_is_plain q \<longleftrightarrow>
     (\<forall>n. percent \<notin> set (qt_number q n) \<and> colon \<notin> set (qt_number q n) \<and>
        CHR '' '' \<notin> set (qt_number q n) \<and> qt_number q n \<noteq> [])"

lemma number_reads_backD [simp]:
  "number_reads_back q \<Longrightarrow> is_int n \<Longrightarrow> qt_toInt q (qt_number q n) = n"
  by (simp add: number_reads_back_def)

lemma number_distinctD [simp]:
  "number_distinct q \<Longrightarrow> qt_number q m = qt_number q n \<longleftrightarrow> m = n"
  by (auto simp: number_distinct_def dest: injD)

lemma number_is_plainD [simp]:
  assumes "number_is_plain q"
  shows "percent \<notin> set (qt_number q n)" "colon \<notin> set (qt_number q n)"
    "CHR '' '' \<notin> set (qt_number q n)" "qt_number q n \<noteq> []"
  using assms by (simp_all add: number_is_plain_def)

text \<open>
  \<open>QList::insert\<close>: within \<open>0 .. size()\<close> as documented; outside, Qt 4 prepends for a negative
  index and appends for one beyond the end.
\<close>

definition insert_clamps :: "qt \<Rightarrow> bool" where
  "insert_clamps q \<longleftrightarrow> (\<forall>i n. qt_insertAt q i n = min n (nat i))"

lemma insert_clampsD [simp]: "insert_clamps q \<Longrightarrow> qt_insertAt q i n = min n (nat i)"
  by (simp add: insert_clamps_def)

definition qlist_insert :: "qt \<Rightarrow> int \<Rightarrow> 'a \<Rightarrow> 'a list \<Rightarrow> 'a list" where
  "qlist_insert q i x xs =
     (let k = qt_insertAt q i (length xs) in take k xs @ x # drop k xs)"

lemma length_qlist_insert [simp]: "length (qlist_insert q i x xs) = Suc (length xs)"
  by (simp add: qlist_insert_def Let_def min_def)

lemma set_qlist_insert [simp]: "set (qlist_insert q i x xs) = insert x (set xs)"
  unfolding qlist_insert_def Let_def by (metis Un_insert_right append_take_drop_id list.simps(15) set_append)

lemma qlist_insert_end:
  "insert_clamps q \<Longrightarrow> int (length xs) \<le> i \<Longrightarrow> qlist_insert q i x xs = xs @ [x]"
  by (simp add: qlist_insert_def Let_def le_nat_iff min_def)

text \<open>A character that is neither a letter nor a number of any script.\<close>

definition signs_not_letters :: "qt \<Rightarrow> bool" where
  "signs_not_letters q \<longleftrightarrow>
     \<not> qt_isLetterOrNumber q percent \<and> \<not> qt_isLetterOrNumber q CHR '' '' \<and>
     \<not> qt_isLetterOrNumber q CHR ''_'' \<and> \<not> qt_isLetterOrNumber q dquote"

end
