(* ===== verification/Qt_Decimal.thy ===== *)
theory Qt_Decimal
  imports Hooq_Prelude
begin

text \<open>
  A concrete value of the parameter \<open>qt\<close> (decimal numbers, ASCII character classes, a key
  table that prints the number), which shows that the documented behaviour the properties
  assume can hold and at which their witnesses evaluate.
\<close>

definition digit_char :: "nat \<Rightarrow> char" where
  "digit_char n = char_of (48 + n)"

fun show_nat :: "nat \<Rightarrow> qtext" where
  "show_nat n = (if n < 10 then [digit_char n] else show_nat (n div 10) @ [digit_char (n mod 10)])"

declare show_nat.simps [simp del]

definition show_int :: "int \<Rightarrow> qtext" where
  "show_int n = (if n < 0 then CHR ''-'' # show_nat (nat (- n)) else show_nat (nat n))"

definition read_nat :: "qtext \<Rightarrow> nat" where
  "read_nat s = foldl (\<lambda>acc c. 10 * acc + (of_char c - 48)) 0 s"

definition read_int :: "qtext \<Rightarrow> int" where
  "read_int s = (case s of
     [] \<Rightarrow> 0
   | c # cs \<Rightarrow> if c = CHR ''-'' then - int (read_nat cs) else int (read_nat s))"

definition decimal_toInt :: "qtext \<Rightarrow> int" where
  "decimal_toInt s = (let n = read_int s in if is_int n then n else 0)"

definition ascii_letter_or_number :: "char \<Rightarrow> bool" where
  "ascii_letter_or_number c \<longleftrightarrow>
     (let n = of_char c :: nat in (48 \<le> n \<and> n \<le> 57) \<or> (65 \<le> n \<and> n \<le> 90) \<or> (97 \<le> n \<and> n \<le> 122))"

definition ascii_print :: "char \<Rightarrow> bool" where
  "ascii_print c \<longleftrightarrow> (let n = of_char c :: nat in 32 \<le> n \<and> n < 127)"

definition latin1_code :: "char \<Rightarrow> int" where
  "latin1_code c = int (of_char c)"

definition key_name :: "int \<Rightarrow> qtext" where
  "key_name n = ''Key_'' @ show_int n"

definition ascii_upper :: "char \<Rightarrow> bool" where
  "ascii_upper c \<longleftrightarrow> (let n = of_char c :: nat in 65 \<le> n \<and> n \<le> 90)"

definition ascii_lower :: "char \<Rightarrow> char" where
  "ascii_lower c = (if ascii_upper c then char_of ((of_char c :: nat) + 32) else c)"

definition clamped :: "int \<Rightarrow> nat \<Rightarrow> nat" where
  "clamped i n = min n (nat i)"

definition qt_decimal :: qt where
  "qt_decimal = \<lparr>
     qt_number = show_int,
     qt_toInt = decimal_toInt,
     qt_isPrint = ascii_print,
     qt_isLetterOrNumber = ascii_letter_or_number,
     qt_isUpper = ascii_upper,
     qt_toLower = ascii_lower,
     qt_toLatin1 = latin1_code,
     qt_valueToKey = key_name,
     qt_insertAt = clamped\<rparr>"

lemma of_char_digit_char: "n < 10 \<Longrightarrow> of_char (digit_char n) = 48 + n"
  by (simp add: digit_char_def)

lemma digit_char_plain [simp]:
  assumes "n < 10"
  shows "digit_char n \<noteq> percent" "digit_char n \<noteq> colon" "digit_char n \<noteq> CHR ''-''"
    "digit_char n \<noteq> CHR '' ''"
proof -
  have "of_char (digit_char n) = 48 + n" using assms by (rule of_char_digit_char)
  then show "digit_char n \<noteq> percent" "digit_char n \<noteq> colon" "digit_char n \<noteq> CHR ''-''"
    "digit_char n \<noteq> CHR '' ''"
    using assms by auto
qed

lemma read_nat_snoc: "read_nat (s @ [c]) = 10 * read_nat s + (of_char c - 48)"
  by (simp add: read_nat_def)

lemma read_show_nat: "read_nat (show_nat n) = n"
proof (induction n rule: show_nat.induct)
  case (1 n)
  show ?case
  proof (cases "n < 10")
    case True
    then show ?thesis
      by (subst show_nat.simps) (simp add: read_nat_def of_char_digit_char)
  next
    case False
    with 1 show ?thesis
      by (subst show_nat.simps) (simp add: read_nat_snoc of_char_digit_char)
  qed
qed

lemma show_nat_chars: "c \<in> set (show_nat n) \<Longrightarrow> \<exists>k < 10. c = digit_char k"
proof (induction n rule: show_nat.induct)
  case (1 n)
  show ?case
  proof (cases "n < 10")
    case True
    with 1 show ?thesis by (subst (asm) show_nat.simps) auto
  next
    case False
    with "1.prems" have "c \<in> set (show_nat (n div 10)) \<or> c = digit_char (n mod 10)"
      by (subst (asm) show_nat.simps) auto
    then show ?thesis
    proof
      assume "c \<in> set (show_nat (n div 10))"
      with 1 False show ?thesis by blast
    next
      assume "c = digit_char (n mod 10)"
      then show ?thesis by (intro exI [of _ "n mod 10"]) simp
    qed
  qed
qed

lemma show_nat_plain [simp]:
  "percent \<notin> set (show_nat n)" "colon \<notin> set (show_nat n)" "CHR '' '' \<notin> set (show_nat n)"
  using show_nat_chars [of percent n] show_nat_chars [of colon n] show_nat_chars [of "CHR '' ''" n]
    digit_char_plain by metis+

lemma show_nat_nonempty [simp]: "show_nat n \<noteq> []"
  by (subst show_nat.simps) simp

lemma read_show_int: "read_int (show_int n) = n"
proof (cases "n < 0")
  case True
  then show ?thesis by (simp add: show_int_def read_int_def read_show_nat)
next
  case False
  obtain c cs where s: "show_nat (nat n) = c # cs"
    using show_nat_nonempty by (meson neq_Nil_conv)
  then have "c \<noteq> CHR ''-''" using show_nat_chars [of c "nat n"] by auto
  with s False read_show_nat [of "nat n"] show ?thesis
    by (simp add: show_int_def read_int_def)
qed

lemma qt_decimal_reads_back [simp]: "number_reads_back qt_decimal"
  by (simp add: number_reads_back_def qt_decimal_def decimal_toInt_def read_show_int)

lemma qt_decimal_distinct [simp]: "number_distinct qt_decimal"
  unfolding number_distinct_def
  by (rule inj_on_inverseI [where g = read_int]) (simp add: qt_decimal_def read_show_int)

lemma qt_decimal_plain [simp]: "number_is_plain qt_decimal"
  unfolding number_is_plain_def qt_decimal_def
  by (auto simp: show_int_def)

lemma qt_decimal_clamps [simp]: "insert_clamps qt_decimal"
  by (simp add: insert_clamps_def qt_decimal_def clamped_def)

lemma qt_decimal_signs [simp]: "signs_not_letters qt_decimal"
  by (simp add: signs_not_letters_def qt_decimal_def ascii_letter_or_number_def)

end
