(* ===== verification/Object_Paths.thy ===== *)
theory Object_Paths
  imports Hooq_Prelude Qt_Decimal
begin

text \<open>
  The addressing scheme of Hooq: how a recorded event names its receiver
  (\<open>common/ObjectHookName.cpp\<close>) and how playback finds the receiver again
  (\<open>Player::findObject\<close> in \<open>injectedHooq/Player.cpp\<close>).

  Qt's object tree is a store of objects, each with its name, meta-object, class name, parent
  and children, and the list of top-level widgets.
\<close>

section \<open>The object tree\<close>

type_synonym objid = nat

record qobject =
  obj_objectName :: qtext
  obj_metaObject :: nat
  obj_className :: qtext
  obj_parent :: "objid option"
  obj_children :: "objid list"
  obj_isWidget :: bool

record qtree =
  tree_object :: "objid \<Rightarrow> qobject"
  tree_topLevelWidgets :: "objid list"

abbreviation parent_of :: "qtree \<Rightarrow> objid \<Rightarrow> objid option" where
  "parent_of t x \<equiv> obj_parent (tree_object t x)"

abbreviation children_of :: "qtree \<Rightarrow> objid \<Rightarrow> objid list" where
  "children_of t x \<equiv> obj_children (tree_object t x)"

abbreviation separator :: qtext where
  "separator \<equiv> ''::''"

section \<open>ObjectHookName\<close>

text \<open>The loop over the siblings: counts those of the same class before the object.\<close>

fun sibling_index :: "qtree \<Rightarrow> objid \<Rightarrow> int \<Rightarrow> objid list \<Rightarrow> int" where
  "sibling_index t x index [] = index"
| "sibling_index t x index (sibling # siblings) =
     (if sibling = x then index
      else sibling_index t x
        (if obj_metaObject (tree_object t sibling) = obj_metaObject (tree_object t x)
         then index + 1 else index) siblings)"

definition rawObjectName :: "qt \<Rightarrow> qtree \<Rightarrow> objid \<Rightarrow> qtext" where
  "rawObjectName q t x =
     (let ob = tree_object t x in
      if obj_objectName ob \<noteq> [] then obj_objectName ob
      else case obj_parent ob of
        None \<Rightarrow> qarg ''%1-0'' (obj_className ob)
      | Some p \<Rightarrow>
          qarg (qarg ''%1-%2'' (obj_className ob))
            (qt_number q (sibling_index t x 1 (children_of t p))))"

definition objectName :: "qt \<Rightarrow> qtree \<Rightarrow> objid \<Rightarrow> qtext" where
  "objectName q t x = qreplace ''::'' '':_:'' (rawObjectName q t x)"

text \<open>The loop of \<open>objectPath\<close> from the object to the root of its tree.\<close>

partial_function (option) path_components ::
  "qt \<Rightarrow> qtree \<Rightarrow> objid option \<Rightarrow> qtext list \<Rightarrow> qtext list option" where
  "path_components q t current components =
     (case current of
        None \<Rightarrow> Some components
      | Some x \<Rightarrow> path_components q t (parent_of t x) (objectName q t x # components))"

declare path_components.simps [code]

definition objectPath :: "qt \<Rightarrow> qtree \<Rightarrow> objid \<Rightarrow> qtext option" where
  "objectPath q t x = map_option (qjoin separator) (path_components q t (Some x) [])"

section \<open>Player::findObject\<close>

function findObject :: "qt \<Rightarrow> qtree \<Rightarrow> qtext \<Rightarrow> objid option" where
  "findObject q t path =
     (let parts = qsplit separator path; name = last parts; parts' = butlast parts in
      if parts' = []
      then find (\<lambda>widget. objectName q t widget = name) (tree_topLevelWidgets t)
      else case findObject q t (qjoin separator parts') of
        None \<Rightarrow> None
      | Some parent \<Rightarrow> find (\<lambda>child. objectName q t child = name) (children_of t parent))"
  by pat_completeness auto
termination
proof (relation "measure (\<lambda>(q, t, path). length path)")
  fix q :: qt and t :: qtree and path :: qtext and x xa xb
  assume "x = qsplit separator path" "xb = butlast x" "xb \<noteq> []"
  then have "length (qjoin separator xb) < length (qjoin separator (qsplit separator path))"
    by (simp add: length_qjoin_butlast)
  then show "((q, t, qjoin separator xb), (q, t, path)) \<in> measure (\<lambda>(q, t, path). length path)"
    by (simp add: qjoin_qsplit)
qed simp

declare findObject.simps [simp del]


section \<open>Separators in names\<close>

fun has_separator :: "qtext \<Rightarrow> bool" where
  "has_separator (a # b # s) \<longleftrightarrow> (a = colon \<and> b = colon) \<or> has_separator (b # s)"
| "has_separator s \<longleftrightarrow> False"

fun has_triple :: "qtext \<Rightarrow> bool" where
  "has_triple (a # b # c # s) \<longleftrightarrow> (a = colon \<and> b = colon \<and> c = colon) \<or> has_triple (b # c # s)"
| "has_triple s \<longleftrightarrow> False"

text \<open>A path component that a separator can follow.\<close>

definition path_safe :: "qtext \<Rightarrow> bool" where
  "path_safe p \<longleftrightarrow> \<not> has_separator p \<and> (p = [] \<or> last p \<noteq> colon)"

lemma has_separator_Cons:
  "has_separator (a # s) \<longleftrightarrow> (a = colon \<and> s \<noteq> [] \<and> hd s = colon) \<or> has_separator s"
  by (cases s) simp_all

lemma prefix_colon [simp]: "prefix [colon] s \<longleftrightarrow> s \<noteq> [] \<and> hd s = colon"
  by (cases s) auto

lemma qsplit_no_separator: "\<not> has_separator p \<Longrightarrow> qsplit separator p = [p]"
  by (induction p) (auto simp: has_separator_Cons qsplit_Cons)

lemma qsplit_safe_append:
  "path_safe p \<Longrightarrow> qsplit separator (p @ separator @ r) = p # qsplit separator r"
proof (induction p)
  case Nil
  show ?case using qsplit_sep [of separator r] by simp
next
  case (Cons a p)
  have "\<not> prefix separator (a # p @ separator @ r)"
    using Cons.prems by (cases p) (auto simp: path_safe_def)
  moreover have "path_safe p"
    using Cons.prems by (auto simp: path_safe_def has_separator_Cons split: if_splits)
  ultimately show ?case using Cons.IH qsplit_Cons [of separator a "p @ separator @ r"] by simp
qed

lemma qsplit_qjoin_safe:
  "\<forall>p \<in> set ps. path_safe p \<Longrightarrow> \<not> has_separator x \<Longrightarrow>
   qsplit separator (qjoin separator (ps @ [x])) = ps @ [x]"
proof (induction ps)
  case Nil
  then show ?case by (simp add: qsplit_no_separator)
next
  case (Cons p ps)
  have "qjoin separator ((p # ps) @ [x]) = p @ separator @ qjoin separator (ps @ [x])"
    by (simp add: qjoin_Cons)
  then show ?case using Cons qsplit_safe_append by simp
qed

text \<open>All parts of a split but the last can stand before a separator.\<close>

lemma qsplit_hd_Nil: "hd (qsplit separator s) = [] \<Longrightarrow> s \<noteq> [] \<Longrightarrow> hd s = colon"
  by (cases s) (auto simp: qsplit_Cons split: if_splits list.splits)

lemma qsplit_hd_Cons: "hd (qsplit separator s) = c # p \<Longrightarrow> s \<noteq> [] \<and> hd s = c"
  by (cases s) (auto simp: qsplit_Cons split: if_splits list.splits)

lemma qsplit_Cons_part:
  assumes "\<not> prefix separator (c # cs)" and "qsplit separator cs = p # ps"
    and "\<not> has_separator p"
  shows "\<not> has_separator (c # p)"
proof
  assume "has_separator (c # p)"
  with assms(3) have "c = colon" "p \<noteq> []" "hd p = colon" by (auto simp: has_separator_Cons)
  then obtain p' where "hd (qsplit separator cs) = colon # p'"
    using assms(2) by (metis list.collapse list.sel(1))
  with qsplit_hd_Cons have "cs \<noteq> [] \<and> hd cs = colon" by blast
  with \<open>c = colon\<close> assms(1) show False by simp
qed

lemma qsplit_Cons_safe:
  assumes "\<not> prefix separator (c # cs)" and "qsplit separator cs = p # ps" and "ps \<noteq> []"
    and "path_safe p"
  shows "path_safe (c # p)"
proof -
  have "c \<noteq> colon" if "p = []"
  proof
    assume "c = colon"
    have "cs \<noteq> []" using assms(2,3) by auto
    moreover have "hd cs = colon"
      by (rule qsplit_hd_Nil) (use assms(2) that \<open>cs \<noteq> []\<close> in simp_all)
    ultimately show False using \<open>c = colon\<close> assms(1) by simp
  qed
  moreover have "\<not> has_separator (c # p)"
    by (rule qsplit_Cons_part [OF assms(1,2)]) (use assms(4) in \<open>simp add: path_safe_def\<close>)
  ultimately show ?thesis using assms(4) by (auto simp: path_safe_def)
qed

lemma qsplit_parts_safe:
  "(\<forall>p \<in> set (qsplit separator s). \<not> has_separator p) \<and>
   (\<forall>p \<in> set (butlast (qsplit separator s)). path_safe p)"
proof (induction s rule: length_induct)
  case (1 s)
  show ?case
  proof (cases s)
    case Nil
    then show ?thesis by simp
  next
    case (Cons c cs)
    show ?thesis
    proof (cases "prefix separator s")
      case True
      then obtain zs where zs: "s = separator @ zs" by (auto simp: prefix_def)
      then have q: "qsplit separator s = [] # qsplit separator zs"
        using qsplit_sep [of separator zs] by simp
      from zs have "length zs < length s" by simp
      with 1 have "(\<forall>p \<in> set (qsplit separator zs). \<not> has_separator p) \<and>
          (\<forall>p \<in> set (butlast (qsplit separator zs)). path_safe p)" by blast
      with q show ?thesis by (simp add: path_safe_def)
    next
      case False
      obtain p ps where pps: "qsplit separator cs = p # ps"
        by (metis qsplit_nonempty neq_Nil_conv)
      from False Cons have nf: "\<not> prefix separator (c # cs)" by simp
      from nf pps have q: "qsplit separator s = (c # p) # ps"
        using qsplit_Cons [of separator c cs] Cons by simp
      have IH: "\<forall>x \<in> set (p # ps). \<not> has_separator x" "\<forall>x \<in> set (butlast (p # ps)). path_safe x"
        using 1 Cons pps by (metis length_Cons lessI)+
      have "\<not> has_separator (c # p)" using IH(1) by (simp add: qsplit_Cons_part [OF nf pps])
      moreover have "path_safe (c # p)" if "ps \<noteq> []"
        using IH(2) that by (simp add: qsplit_Cons_safe [OF nf pps])
      ultimately show ?thesis using q IH by simp
    qed
  qed
qed


text \<open>
  The contract of a path syntax: joining component names and splitting the path again are
  inverse to each other on the components the syntax can carry.
\<close>

locale path_syntax =
  fixes split :: "qtext \<Rightarrow> qtext list"
    and join :: "qtext list \<Rightarrow> qtext"
    and inner :: "qtext \<Rightarrow> bool"
    and final :: "qtext \<Rightarrow> bool"
  assumes split_nonempty: "split s \<noteq> []"
    and join_split: "join (split s) = s"
    and split_join: "list_all inner ps \<Longrightarrow> final x \<Longrightarrow> split (join (ps @ [x])) = ps @ [x]"
    and split_inner: "list_all inner (butlast (split s))"
    and split_final: "list_all final (split s)"
    and inner_final: "inner p \<Longrightarrow> final p"
begin

lemma join_inj:
  assumes "list_all inner ps" "final x" "list_all inner qs" "final y"
    and "join (ps @ [x]) = join (qs @ [y])"
  shows "ps = qs \<and> x = y"
proof -
  have "ps @ [x] = qs @ [y]"
    using split_join [OF assms(1,2)] split_join [OF assms(3,4)] unfolding assms(5) by (rule trans [OF sym])
  then show ?thesis by simp
qed

lemma split_join_butlast:
  assumes "butlast (split s) \<noteq> []"
  shows "split (join (butlast (split s))) = butlast (split s)"
proof -
  let ?ps = "butlast (split s)"
  have ps: "butlast ?ps @ [last ?ps] = ?ps" using assms by (rule append_butlast_last_id)
  have all: "list_all inner ?ps" by (rule split_inner)
  then have "list_all inner (butlast ?ps)"
    by (meson in_set_butlastD list_all_iff)
  moreover have "inner (last ?ps)"
    using all assms by (meson last_in_set list_all_iff)
  ultimately have "split (join (butlast ?ps @ [last ?ps])) = butlast ?ps @ [last ?ps]"
    by (intro split_join inner_final)
  then show ?thesis unfolding ps .
qed

end

interpretation paths: path_syntax "qsplit separator" "qjoin separator" path_safe
  "\<lambda>p. \<not> has_separator p"
proof
  show "qsplit separator s \<noteq> []" for s by simp
  show "qjoin separator (qsplit separator s) = s" for s by (simp add: qjoin_qsplit)
  show "qsplit separator (qjoin separator (ps @ [x])) = ps @ [x]"
    if "list_all path_safe ps" "\<not> has_separator x" for ps x
    using that by (intro qsplit_qjoin_safe) (simp_all add: list_all_iff)
  show "list_all path_safe (butlast (qsplit separator s))" for s
    using qsplit_parts_safe by (simp add: list_all_iff)
  show "list_all (\<lambda>p. \<not> has_separator p) (qsplit separator s)" for s
    using qsplit_parts_safe by (simp add: list_all_iff)
  show "\<not> has_separator p" if "path_safe p" for p
    using that by (simp add: path_safe_def)
qed

section \<open>findObject walks the tree along the path\<close>

definition find_child :: "qt \<Rightarrow> qtree \<Rightarrow> objid option \<Rightarrow> qtext \<Rightarrow> objid option" where
  "find_child q t p name = (case p of
     None \<Rightarrow> None
   | Some x \<Rightarrow> find (\<lambda>child. objectName q t child = name) (children_of t x))"

definition find_root :: "qt \<Rightarrow> qtree \<Rightarrow> qtext \<Rightarrow> objid option" where
  "find_root q t name = find (\<lambda>widget. objectName q t widget = name) (tree_topLevelWidgets t)"

text \<open>The abstract specification: start at a top-level widget, then one child per name.\<close>

fun walk :: "qt \<Rightarrow> qtree \<Rightarrow> qtext list \<Rightarrow> objid option" where
  "walk q t [] = None"
| "walk q t (name # names) = foldl (find_child q t) (find_root q t name) names"

lemma walk_snoc: "ps \<noteq> [] \<Longrightarrow> walk q t (ps @ [x]) = find_child q t (walk q t ps) x"
  by (cases ps) simp_all

lemma findObject_walk: "findObject q t path = walk q t (qsplit separator path)"
proof (induction q t path rule: findObject.induct)
  case (1 q t path)
  let ?ps = "qsplit separator path"
  have ps: "butlast ?ps @ [last ?ps] = ?ps" by simp
  show ?case
  proof (cases "butlast ?ps = []")
    case True
    then have "?ps = [last ?ps]" using ps by (metis append_Nil)
    then have "walk q t ?ps = find_root q t (last ?ps)" by (metis foldl_Nil walk.simps(2))
    with True show ?thesis
      by (subst findObject.simps) (simp add: Let_def find_root_def)
  next
    case False
    then have "findObject q t (qjoin separator (butlast ?ps)) = walk q t (butlast ?ps)"
      using 1 by (simp add: paths.split_join_butlast)
    moreover have "walk q t ?ps = find_child q t (walk q t (butlast ?ps)) (last ?ps)"
      using ps walk_snoc [OF False] by metis
    ultimately show ?thesis using False
      by (subst findObject.simps) (simp add: Let_def find_child_def)
  qed
qed


section \<open>Escaped names\<close>

lemma qreplace_sep:
  "qreplace separator '':_:'' (a # s) =
     (if a = colon \<and> s \<noteq> [] \<and> hd s = colon
      then '':_:'' @ qreplace separator '':_:'' (tl s)
      else a # qreplace separator '':_:'' s)"
  by (cases s) auto

declare qreplace.simps(2) [simp del]

lemma has_triple_Cons:
  "has_triple (a # s) \<longleftrightarrow>
     (a = colon \<and> (\<exists>s'. s = colon # colon # s')) \<or> has_triple s"
  by (cases s; cases "tl s") auto

lemma qreplace_hd_colon:
  "s \<noteq> [] \<Longrightarrow> hd (qreplace separator '':_:'' s) = hd s \<and> qreplace separator '':_:'' s \<noteq> []"
  by (cases s) (auto simp: qreplace_sep)

lemma qreplace_no_separator:
  "\<not> has_triple s \<Longrightarrow> \<not> has_separator (qreplace separator '':_:'' s)"
proof (induction s rule: length_induct)
  case (1 s)
  show ?case
  proof (cases s)
    case Nil
    then show ?thesis by simp
  next
    case (Cons a r)
    let ?f = "qreplace separator '':_:''"
    show ?thesis
    proof (cases "a = colon \<and> r \<noteq> [] \<and> hd r = colon")
      case True
      then obtain r' where r: "r = colon # r'" by (cases r) auto
      have nt: "\<not> has_triple r'" using "1.prems" Cons r
        by (auto simp: has_triple_Cons)
      have "length r' < length s" using Cons r by simp
      then have "\<not> has_separator (?f r')" using "1.IH" nt by blast
      moreover have "?f r' = [] \<or> hd (?f r') \<noteq> colon"
      proof (cases r')
        case Nil
        then show ?thesis by simp
      next
        case (Cons b r'')
        then have "b \<noteq> colon" using "1.prems" \<open>s = a # r\<close> r True
          by (auto simp: has_triple_Cons)
        then show ?thesis using Cons qreplace_hd_colon [of r'] by simp
      qed
      moreover have "?f s = '':_:'' @ ?f r'"
        using Cons True r by (simp add: qreplace_sep)
      ultimately show ?thesis by (simp add: has_separator_Cons)
    next
      case False
      have "\<not> has_separator (?f r)"
        using 1 Cons by (simp add: has_triple_Cons)
      moreover have "?f s = a # ?f r"
        using Cons False by (auto simp: qreplace_sep)
      ultimately show ?thesis
        using False qreplace_hd_colon [of r]
        by (cases "r = []") (auto simp: has_separator_Cons)
    qed
  qed
qed


lemma qreplace_append:
  "b = [] \<or> hd b \<noteq> colon \<Longrightarrow>
   qreplace separator '':_:'' (a @ b) = qreplace separator '':_:'' a @ qreplace separator '':_:'' b"
proof (induction a rule: length_induct)
  case (1 a)
  show ?case
  proof (cases a)
    case Nil
    then show ?thesis by simp
  next
    case (Cons c r)
    show ?thesis
    proof (cases "c = colon \<and> r \<noteq> [] \<and> hd r = colon")
      case True
      then obtain r' where r: "r = colon # r'" by (cases r) auto
      with Cons have "length r' < length a" by simp
      with 1 have "qreplace separator '':_:'' (r' @ b) =
          qreplace separator '':_:'' r' @ qreplace separator '':_:'' b" by blast
      with Cons True r show ?thesis by (simp add: qreplace_sep)
    next
      case False
      with "1.prems" have "\<not> (c = colon \<and> r @ b \<noteq> [] \<and> hd (r @ b) = colon)"
        by (cases r) auto
      moreover have "qreplace separator '':_:'' (r @ b) =
          qreplace separator '':_:'' r @ qreplace separator '':_:'' b"
        using 1 Cons by simp
      ultimately show ?thesis using Cons False
        by (auto simp: qreplace_sep)
    qed
  qed
qed

lemma qreplace_no_colon: "colon \<notin> set s \<Longrightarrow> qreplace separator '':_:'' s = s"
  by (induction s) (auto simp: qreplace_sep)

lemma qreplace_last:
  assumes "s \<noteq> []" "last s \<noteq> colon"
  shows "qreplace separator '':_:'' s \<noteq> [] \<and> last (qreplace separator '':_:'' s) \<noteq> colon"
proof -
  have s: "s = butlast s @ [last s]" using assms(1) by simp
  have "qreplace separator '':_:'' s = qreplace separator '':_:'' (butlast s) @ [last s]"
    by (subst s, subst qreplace_append)
      (use assms(2) in \<open>auto simp: qreplace_sep\<close>)
  with assms(2) show ?thesis by simp
qed

text \<open>
  The names for which the escaping of \<open>objectName\<close> is enough: no three colons in a row, and
  no colon at the end.
\<close>

definition plain_name :: "qtext \<Rightarrow> bool" where
  "plain_name s \<longleftrightarrow> s \<noteq> [] \<and> \<not> has_triple s \<and> last s \<noteq> colon"

lemma objectName_safe: "plain_name (rawObjectName q t x) \<Longrightarrow> path_safe (objectName q t x)"
  by (simp add: plain_name_def path_safe_def objectName_def qreplace_no_separator qreplace_last)

section \<open>Recorded paths lead back to the object\<close>

fun descends :: "qtree \<Rightarrow> objid \<Rightarrow> objid list \<Rightarrow> bool" where
  "descends t x [] \<longleftrightarrow> True"
| "descends t x (y # ys) \<longleftrightarrow> parent_of t y = Some x \<and> y \<in> set (children_of t x) \<and> descends t y ys"

lemma descends_append:
  "descends t x (ys @ zs) \<longleftrightarrow> descends t x ys \<and> descends t (last (x # ys)) zs"
  by (induction ys arbitrary: x) auto

lemma path_components_descends:
  "descends t x ys \<Longrightarrow>
   path_components q t (Some (last (x # ys))) acc =
   path_components q t (Some x) (map (objectName q t) ys @ acc)"
proof (induction ys arbitrary: acc rule: rev_induct)
  case Nil
  show ?case by simp
next
  case (snoc y ys)
  then have "parent_of t y = Some (last (x # ys))" and "descends t x ys"
    by (auto simp: descends_append)
  with snoc.IH [of "objectName q t y # acc"] show ?case
    by (subst path_components.simps) simp
qed

lemma objectPath_descends:
  assumes "parent_of t r = None" and "descends t r ys"
  shows "objectPath q t (last (r # ys)) =
    Some (qjoin separator (map (objectName q t) (r # ys)))"
  unfolding objectPath_def path_components_descends [OF assms(2)]
  by (subst path_components.simps, simp add: assms(1), subst path_components.simps) simp

lemma find_distinct_name:
  "distinct (map f xs) \<Longrightarrow> x \<in> set xs \<Longrightarrow> find (\<lambda>y. f y = f x) xs = Some x"
  by (induction xs) auto

lemma walk_descends:
  assumes "descends t r ys"
    and "\<forall>x \<in> set (r # ys). distinct (map (objectName q t) (children_of t x))"
  shows "foldl (find_child q t) (Some r) (map (objectName q t) ys) = Some (last (r # ys))"
  using assms
proof (induction ys arbitrary: r)
  case (Cons y ys)
  then have "find_child q t (Some r) (objectName q t y) = Some y"
    by (simp add: find_child_def find_distinct_name)
  moreover have "foldl (find_child q t) (Some y) (map (objectName q t) ys) = Some (last (y # ys))"
    using Cons by simp
  ultimately show ?case by simp
qed simp

lemma qsplit_objectPath:
  assumes "\<forall>x \<in> set (r # ys). plain_name (rawObjectName q t x)"
  shows "qsplit separator (qjoin separator (map (objectName q t) (r # ys))) =
    map (objectName q t) (r # ys)"
proof -
  let ?ns = "map (objectName q t) (r # ys)"
  have safe: "list_all path_safe ?ns"
    using assms by (auto simp: list_all_iff objectName_safe)
  have ns: "butlast ?ns @ [last ?ns] = ?ns" by simp
  have "list_all path_safe (butlast ?ns)"
    using safe by (meson in_set_butlastD list_all_iff)
  moreover have "path_safe (last ?ns)"
    using safe by (metis last_in_set list.distinct(1) list.simps(9) list_all_iff)
  ultimately have "qsplit separator (qjoin separator (butlast ?ns @ [last ?ns])) =
      butlast ?ns @ [last ?ns]"
    by (intro paths.split_join paths.inner_final)
  then show ?thesis unfolding ns .
qed


text \<open>
  C2. Recording and playback agree on how objects are addressed: in a tree whose objects on
  the way from a top-level widget have distinguishable siblings and plain names, the path
  that \<open>ObjectHookName::objectPath\<close> writes exists and \<open>Player::findObject\<close> returns the very
  object it was written for.
\<close>

theorem findObject_objectPath:
  assumes "parent_of t r = None" and "descends t r ys"
    and "r \<in> set (tree_topLevelWidgets t)"
    and "distinct (map (objectName q t) (tree_topLevelWidgets t))"
    and "\<forall>x \<in> set (r # ys). distinct (map (objectName q t) (children_of t x))"
    and "\<forall>x \<in> set (r # ys). plain_name (rawObjectName q t x)"
  shows "\<exists>path. objectPath q t (last (r # ys)) = Some path \<and>
    findObject q t path = Some (last (r # ys))"
proof -
  let ?path = "qjoin separator (map (objectName q t) (r # ys))"
  have "findObject q t ?path = walk q t (map (objectName q t) (r # ys))"
    using qsplit_objectPath [OF assms(6)] findObject_walk by simp
  also have "\<dots> = foldl (find_child q t) (find_root q t (objectName q t r)) (map (objectName q t) ys)"
    by simp
  also have "find_root q t (objectName q t r) = Some r"
    using assms(3,4) by (simp add: find_root_def find_distinct_name)
  finally have "findObject q t ?path = Some (last (r # ys))"
    using walk_descends [OF assms(2,5)] by simp
  with objectPath_descends [OF assms(1,2)] show ?thesis by blast
qed

text \<open>A main window with a tool bar, two unnamed buttons and a line edit.\<close>

definition sample_tree :: qtree where
  "sample_tree = \<lparr>
     tree_object = (\<lambda>x.
       if x = 0 then \<lparr>obj_objectName = ''Main'', obj_metaObject = 1, obj_className = ''QMainWindow'',
            obj_parent = None, obj_children = [1, 2, 3], obj_isWidget = True\<rparr>
       else if x = 3 then \<lparr>obj_objectName = ''a::b'', obj_metaObject = 3, obj_className = ''QLineEdit'',
            obj_parent = Some 0, obj_children = [], obj_isWidget = True\<rparr>
       else \<lparr>obj_objectName = [], obj_metaObject = 2, obj_className = ''QPushButton'',
            obj_parent = Some 0, obj_children = [], obj_isWidget = True\<rparr>),
     tree_topLevelWidgets = [0]\<rparr>"


theorem findObject_objectPath_witness:
  "\<exists>path. objectPath qt_decimal sample_tree 2 = Some path \<and>
     findObject qt_decimal sample_tree path = Some 2"
proof -
  have 1: "parent_of sample_tree 0 = None" "descends sample_tree 0 [2]"
    "0 \<in> set (tree_topLevelWidgets sample_tree)"
    by (simp_all add: sample_tree_def)
  have 2: "distinct (map (objectName qt_decimal sample_tree) (tree_topLevelWidgets sample_tree))"
    by (simp add: sample_tree_def)
  have 3: "\<forall>x \<in> set [0, 2]. distinct (map (objectName qt_decimal sample_tree) (children_of sample_tree x))"
    by code_simp
  have 4: "\<forall>x \<in> set [0, 2]. plain_name (rawObjectName qt_decimal sample_tree x)"
    by code_simp
  show ?thesis
    using findObject_objectPath [OF 1(1,2,3) 2 3 4] by simp
qed

text \<open>
  C3. \<open>Player::findObject\<close>, which splits the path, joins all parts but the last and calls itself on
  the joined text, finds exactly what a walk from a top-level widget down one child per path
  component finds, for every path text.
\<close>

theorem findObject_is_walk:
  "findObject q t path = walk q t (qsplit separator path)"
  by (rule findObject_walk)

section \<open>Generated names\<close>

lemma sibling_index_count:
  "sibling_index t x i xs =
   i + int (length (filter (\<lambda>s. obj_metaObject (tree_object t s) = obj_metaObject (tree_object t x))
                     (takeWhile (\<lambda>s. s \<noteq> x) xs)))"
proof (induction xs arbitrary: i)
  case (Cons s xs)
  then show ?case by (cases "s = x") simp_all
qed simp

lemma sibling_index_less:
  assumes "x \<noteq> y" "obj_metaObject (tree_object t x) = obj_metaObject (tree_object t y)"
    and "x \<notin> set as" "y \<notin> set as"
  shows "sibling_index t x i (as @ x # bs) < sibling_index t y i (as @ x # bs)"
proof -
  have "takeWhile (\<lambda>s. s \<noteq> x) (as @ x # bs) = as"
    using assms(3) by (subst takeWhile_append2) auto
  moreover have "takeWhile (\<lambda>s. s \<noteq> y) (as @ x # bs) = as @ x # takeWhile (\<lambda>s. s \<noteq> y) bs"
    using assms(1,4) by (subst takeWhile_append2) auto
  ultimately show ?thesis using assms(2) by (simp add: sibling_index_count)
qed

lemma sibling_index_distinct:
  assumes "x \<noteq> y" "obj_metaObject (tree_object t x) = obj_metaObject (tree_object t y)"
    and "x \<in> set xs" "y \<in> set xs"
  shows "sibling_index t x i xs \<noteq> sibling_index t y i xs"
proof -
  obtain as z bs where xs: "xs = as @ z # bs" and z: "z = x \<or> z = y"
    and as: "\<forall>s \<in> set as. s \<noteq> x \<and> s \<noteq> y"
    using split_list_first_prop [of xs "\<lambda>s. s = x \<or> s = y"] assms(3) by blast
  from z show ?thesis
  proof
    assume "z = x"
    with sibling_index_less [OF assms(1,2), of as i bs] as xs show ?thesis by force
  next
    assume "z = y"
    with sibling_index_less [OF assms(1) [symmetric] assms(2) [symmetric], of as i bs] as xs
    show ?thesis by force
  qed
qed

lemma objectName_generated:
  assumes "obj_objectName (tree_object t x) = []" and "parent_of t x = Some p"
    and "percent \<notin> set (obj_className (tree_object t x))" and "number_is_plain q"
  shows "objectName q t x =
    qreplace separator '':_:'' (obj_className (tree_object t x)) @ ''-'' @
    qt_number q (sibling_index t x 1 (children_of t p))"
proof -
  have "qarg ''%1-%2'' (obj_className (tree_object t x)) = obj_className (tree_object t x) @ ''-%2''"
    by (simp add: qarg_eval)
  moreover have "qarg (obj_className (tree_object t x) @ ''-%2'') n = obj_className (tree_object t x) @ ''-'' @ n"
    for n using assms(3) by (simp add: qarg_eval)
  ultimately have "rawObjectName q t x = obj_className (tree_object t x) @ ''-'' @
      qt_number q (sibling_index t x 1 (children_of t p))"
    using assms(1,2) by (simp add: rawObjectName_def)
  moreover have "qreplace separator '':_:'' (''-'' @ qt_number q n) = ''-'' @ qt_number q n" for n
    using assms(4) by (intro qreplace_no_colon) simp
  ultimately show ?thesis
    by (simp add: objectName_def qreplace_append)
qed

text \<open>
  Unnamed siblings can be told apart: two different children of one parent that have no object name
  and the same class get different generated names, so that a path component selects one of
  them.
\<close>

lemma generated_names_distinct:
  assumes "x \<in> set (children_of t p)" "y \<in> set (children_of t p)" "x \<noteq> y"
    and "parent_of t x = Some p" "parent_of t y = Some p"
    and "obj_objectName (tree_object t x) = []" "obj_objectName (tree_object t y) = []"
    and "obj_metaObject (tree_object t x) = obj_metaObject (tree_object t y)"
    and "obj_className (tree_object t x) = obj_className (tree_object t y)"
    and "percent \<notin> set (obj_className (tree_object t x))"
    and "number_is_plain q" "number_distinct q"
  shows "objectName q t x \<noteq> objectName q t y"
  using assms sibling_index_distinct [OF assms(3,8,1,2), of 1]
  by (simp add: objectName_generated)

definition colon_tree :: qtree where
  "colon_tree = \<lparr>
     tree_object = (\<lambda>x. \<lparr>obj_objectName = ''a:::b'', obj_metaObject = 1, obj_className = ''QWidget'',
            obj_parent = None, obj_children = [], obj_isWidget = True\<rparr>),
     tree_topLevelWidgets = [0]\<rparr>"


end
