(* ===== verification/Script_Items.thy ===== *)
theory Script_Items
  imports Object_Paths
begin

unbundle bit_operations_syntax

text \<open>
  The intermediate form of a recorded script and its printing: \<open>XmlToQtScript::Item\<close>,
  \<open>QVariant\<close> as far as items use it, \<open>serialize\<close>, \<open>parametersString\<close>, \<open>escapeString\<close> and the
  names of Qt's flags (\<open>hooq/XmlToQtScript.cpp\<close>, \<open>hooq/EnumConverter.cpp\<close>).
\<close>

section \<open>QVariantMap\<close>

text \<open>A \<open>QMap\<close> iterates in key order: an association list with ascending keys.\<close>

type_synonym 'v qmap = "(qtext \<times> 'v) list"

fun qm_insert :: "qtext \<Rightarrow> 'v \<Rightarrow> 'v qmap \<Rightarrow> 'v qmap" where
  "qm_insert k v [] = [(k, v)]"
| "qm_insert k v ((k', v') # m) =
     (if k = k' then (k, v) # m
      else if k < k' then (k, v) # (k', v') # m
      else (k', v') # qm_insert k v m)"

definition qm_remove :: "qtext \<Rightarrow> 'v qmap \<Rightarrow> 'v qmap" where
  "qm_remove k m = filter (\<lambda>e. fst e \<noteq> k) m"

definition qm_contains :: "'v qmap \<Rightarrow> qtext \<Rightarrow> bool" where
  "qm_contains m k \<longleftrightarrow> k \<in> set (map fst m)"

definition qm_ok :: "'v qmap \<Rightarrow> bool" where
  "qm_ok m \<longleftrightarrow> sorted_wrt (<) (map fst m)"

lemma qm_insert_keys: "set (map fst (qm_insert k v m)) = insert k (set (map fst m))"
  by (induction k v m rule: qm_insert.induct) auto

lemma qm_insert_ok: "qm_ok m \<Longrightarrow> qm_ok (qm_insert k v m)"
  unfolding qm_ok_def
proof (induction k v m rule: qm_insert.induct)
  case (2 k v k' v' m)
  then show ?case using qm_insert_keys [of k v m] by auto
qed simp

lemma qm_remove_ok: "qm_ok m \<Longrightarrow> qm_ok (qm_remove k m)"
proof -
  assume "qm_ok m"
  moreover have "map fst (qm_remove k m) = filter (\<lambda>x. x \<noteq> k) (map fst m)"
    by (simp add: qm_remove_def filter_map comp_def)
  ultimately show ?thesis unfolding qm_ok_def by (simp add: sorted_wrt_filter)
qed

lemma qm_lookup_insert: "map_of (qm_insert k v m) = (map_of m)(k \<mapsto> v)"
  by (induction k v m rule: qm_insert.induct) (auto simp: fun_upd_twist)

lemma qm_lookup_remove: "map_of (qm_remove k m) = (map_of m)(k := None)"
  by (induction m) (auto simp: qm_remove_def)

text \<open>
  The contract of a keyed store, which the parameter maps of the items and the settings
  rely on.
\<close>

locale keyed_store =
  fixes store_insert :: "qtext \<Rightarrow> 'v \<Rightarrow> 'm \<Rightarrow> 'm"
    and store_remove :: "qtext \<Rightarrow> 'm \<Rightarrow> 'm"
    and store_lookup :: "'m \<Rightarrow> qtext \<Rightarrow> 'v option"
    and store_ok :: "'m \<Rightarrow> bool"
  assumes lookup_insert: "store_lookup (store_insert k v m) = (store_lookup m)(k \<mapsto> v)"
    and lookup_remove: "store_lookup (store_remove k m) = (store_lookup m)(k := None)"
    and insert_ok: "store_ok m \<Longrightarrow> store_ok (store_insert k v m)"
    and remove_ok: "store_ok m \<Longrightarrow> store_ok (store_remove k m)"
begin

lemma insert_same: "store_lookup (store_insert k v m) k = Some v"
  by (simp add: lookup_insert)

lemma insert_other: "k' \<noteq> k \<Longrightarrow> store_lookup (store_insert k v m) k' = store_lookup m k'"
  by (simp add: lookup_insert)

lemma remove_insert:
  "store_lookup (store_remove k (store_insert k v m)) = (store_lookup m)(k := None)"
  by (simp add: lookup_insert lookup_remove)

lemma fold_insert_ok: "store_ok m \<Longrightarrow> store_ok (fold (\<lambda>(k, v). store_insert k v) kvs m)"
  by (induction kvs arbitrary: m) (auto simp: insert_ok)

end

interpretation qvmap: keyed_store qm_insert qm_remove map_of qm_ok
  by unfold_locales (simp_all add: qm_lookup_insert qm_lookup_remove qm_insert_ok qm_remove_ok)

text \<open>Inserting entries with different keys.\<close>

lemma lookup_fold_insert:
  "map_of (fold (\<lambda>(k, v). qm_insert k v) kvs m) k = (case map_of (rev kvs) k of Some v \<Rightarrow> Some v | None \<Rightarrow> map_of m k)"
proof (induction kvs arbitrary: m)
  case (Cons a kvs)
  then show ?case
    by (cases a) (auto simp: qm_lookup_insert map_add_def split: option.splits)
qed simp

lemma map_of_fold_insert:
  assumes "distinct (map fst ts)"
  shows "map_of (fold (\<lambda>(n, b). qm_insert n b) ts m) = map_of m ++ map_of ts"
proof -
  have "map_of (rev ts) = map_of ts"
    using assms by (intro map_of_eqI) (auto simp: rev_map map_of_is_SomeI distinct_map)
  then show ?thesis by (simp add: lookup_fold_insert map_add_def fun_eq_iff)
qed

section \<open>QVariant and Item\<close>

datatype orientation = Horizontal | Vertical

type_synonym flags = "32 word"

text \<open>
  The variants an item holds. \<open>VOther\<close> stands for the types that \<open>parametersString\<close> does not
  know (a double, for instance).
\<close>

datatype qvariant =
    VInvalid
  | VBool bool
  | VInt int
  | VString qstring
  | VMap "(qtext \<times> qvariant) list"
  | VFocusReason int
  | VKey int
  | VMouseButton flags
  | VMouseButtons flags
  | VOrientation orientation
  | VKeyboardModifier flags
  | VKeyboardModifiers flags
  | VVariable qtext
  | VItem item
  | VOther
and item = Item
    (item_target: qvariant) (item_targetClass: qstring) (item_method: qstring)
    (item_parameters: qvariant)

text \<open>The three constructors of \<open>Item\<close>.\<close>

definition null_item :: item where
  "null_item = Item VInvalid None None VInvalid"

definition method_item :: "qtext \<Rightarrow> qvariant \<Rightarrow> item" where
  "method_item method parameters = Item VInvalid None (Some method) parameters"

definition full_item :: "qvariant \<Rightarrow> qstring \<Rightarrow> qtext \<Rightarrow> qvariant \<Rightarrow> item" where
  "full_item target targetClass method parameters = Item target targetClass (Some method) parameters"

definition isValid :: "item \<Rightarrow> bool" where
  "isValid i \<longleftrightarrow> \<not> qs_isEmpty (item_method i)"

definition method_is :: "item \<Rightarrow> qtext \<Rightarrow> bool" where
  "method_is i m \<longleftrightarrow> qs_text (item_method i) = m"

lemma item_constructors [simp]:
  "item_target null_item = VInvalid" "item_targetClass null_item = None"
  "item_method null_item = None" "item_parameters null_item = VInvalid"
  "item_target (method_item m p) = VInvalid" "item_targetClass (method_item m p) = None"
  "item_method (method_item m p) = Some m" "item_parameters (method_item m p) = p"
  "item_target (full_item t c m p) = t" "item_targetClass (full_item t c m p) = c"
  "item_method (full_item t c m p) = Some m" "item_parameters (full_item t c m p) = p"
  by (simp_all add: null_item_def method_item_def full_item_def)

lemma isValid_simps [simp]:
  "\<not> isValid null_item" "isValid (method_item m p) \<longleftrightarrow> m \<noteq> []" "isValid (full_item t c m p) \<longleftrightarrow> m \<noteq> []"
  by (simp_all add: isValid_def)

definition v_isNull :: "qvariant \<Rightarrow> bool" where
  "v_isNull v \<longleftrightarrow> v = VInvalid \<or> v = VString None"

definition v_toString :: "qt \<Rightarrow> qvariant \<Rightarrow> qtext" where
  "v_toString q v = (case v of
     VString s \<Rightarrow> qs_text s
   | VInt n \<Rightarrow> qt_number q n
   | VBool b \<Rightarrow> (if b then ''true'' else ''false'')
   | _ \<Rightarrow> [])"

definition v_toInt :: "qt \<Rightarrow> qvariant \<Rightarrow> int" where
  "v_toInt q v = (case v of
     VInt n \<Rightarrow> n
   | VString s \<Rightarrow> qt_toInt q (qs_text s)
   | VBool b \<Rightarrow> (if b then 1 else 0)
   | _ \<Rightarrow> 0)"

definition v_toMap :: "qvariant \<Rightarrow> qvariant qmap" where
  "v_toMap v = (case v of VMap m \<Rightarrow> m | _ \<Rightarrow> [])"

text \<open>\<open>QVariantMap::value(key)\<close>: an invalid variant for a missing key.\<close>

definition qm_value :: "qvariant qmap \<Rightarrow> qtext \<Rightarrow> qvariant" where
  "qm_value m k = (case map_of m k of None \<Rightarrow> VInvalid | Some v \<Rightarrow> v)"

text \<open>
  Equality of two variants: strings are compared as \<open>QString\<close>s; two variants of a type Qt does
  not know are compared by the address of their data, and the sources never share it.
\<close>

definition v_eq :: "qvariant \<Rightarrow> qvariant \<Rightarrow> bool" where
  "v_eq a b \<longleftrightarrow> (case (a, b) of
     (VInvalid, VInvalid) \<Rightarrow> True
   | (VString s, VString t) \<Rightarrow> qs_eq s t
   | (VInt m, VInt n) \<Rightarrow> m = n
   | (VBool x, VBool y) \<Rightarrow> x = y
   | _ \<Rightarrow> False)"


section \<open>escapeString\<close>

definition escapeString :: "qtext \<Rightarrow> qtext" where
  "escapeString s =
     (let s1 = qreplace [backslash] [backslash, backslash] s;
          s2 = qreplace [dquote] [backslash, dquote] s1;
          s3 = qreplace [carriage] [backslash, CHR ''r''] s2
      in qreplace [newline] [backslash, CHR ''n''] s3)"

lemma qreplace_char: "qreplace [c] a s = concat (map (\<lambda>x. if x = c then a else [x]) s)"
  by (induction s) (auto simp: qreplace.simps)

definition escape_char :: "char \<Rightarrow> qtext" where
  "escape_char c =
     (if c = backslash then [backslash, backslash]
      else if c = dquote then [backslash, dquote]
      else if c = carriage then [backslash, CHR ''r'']
      else if c = newline then [backslash, CHR ''n'']
      else [c])"

text \<open>The four passes over the text do not disturb each other.\<close>

lemma escapeString_chars: "escapeString s = concat (map escape_char s)"
  by (induction s) (auto simp: escapeString_def qreplace_char escape_char_def)

text \<open>
  The abstract specification: how a script engine reads a double-quoted literal. \<open>scan_literal\<close>
  takes the text after the opening quote and returns the value and the text after the closing
  one.
\<close>

fun scan_literal :: "qtext \<Rightarrow> (qtext \<times> qtext) option" where
  "scan_literal [] = None"
| "scan_literal (c # s) =
     (if c = dquote then Some ([], s)
      else if c = newline \<or> c = carriage then None
      else if c = backslash then
        (case s of
           [] \<Rightarrow> None
         | e # s' \<Rightarrow> map_option (apfst ((#)
             (if e = CHR ''r'' then carriage else if e = CHR ''n'' then newline else e)))
             (scan_literal s'))
      else map_option (apfst ((#) c)) (scan_literal s))"

lemma scan_escaped_chars:
  "scan_literal (concat (map escape_char s) @ dquote # rest) = Some (s, rest)"
  by (induction s) (simp_all add: escape_char_def)

lemma scan_escapeString_rest: "scan_literal (escapeString s @ dquote # rest) = Some (s, rest)"
  by (simp add: escapeString_chars scan_escaped_chars)

section \<open>Names of flags and reasons\<close>

definition stringForMouseButton :: "flags \<Rightarrow> qtext" where
  "stringForMouseButton button =
     (if button = 1 then ''Qt.LeftButton''
      else if button = 2 then ''Qt.RightButton''
      else if button = 4 then ''Qt.MidButton''
      else if button = 8 then ''Qt.XButton1''
      else if button = 16 then ''Qt.XButton2''
      else ''Qt.NoButton'')"

definition stringForModifier :: "flags \<Rightarrow> qtext" where
  "stringForModifier modifier =
     (if modifier = 0x02000000 then ''Qt.ShiftModifier''
      else if modifier = 0x04000000 then ''Qt.ControlModifier''
      else if modifier = 0x08000000 then ''Qt.AltModifier''
      else if modifier = 0x10000000 then ''Qt.MetaModifier''
      else if modifier = 0x20000000 then ''Qt.KeypadModifier''
      else if modifier = 0x40000000 then ''Qt.GroupSwitchModifier''
      else ''Qt.NoModifier'')"

definition stringForFocusReason :: "int \<Rightarrow> qtext" where
  "stringForFocusReason focusReason =
     (if focusReason = 0 then ''Qt.MouseFocusReason''
      else if focusReason = 1 then ''Qt.TabFocusReason''
      else if focusReason = 2 then ''Qt.BacktabFocusReason''
      else if focusReason = 3 then ''Qt.ActiveWindowFocusReason''
      else if focusReason = 4 then ''Qt.PopupFocusReason''
      else if focusReason = 5 then ''Qt.ShortcutFocusReason''
      else if focusReason = 6 then ''Qt.MenuBarFocusReason''
      else ''Qt.OtherFocusReason'')"

text \<open>The loop over the 32 bits of an \<open>int\<close>, in \<open>stringForModifiers\<close> and \<open>stringForMouseButtons\<close>.\<close>

definition flag_bits :: "flags \<Rightarrow> nat list" where
  "flag_bits m = filter (\<lambda>i. m AND push_bit i 1 \<noteq> 0) [0..<32]"

definition stringForModifiers :: "flags \<Rightarrow> qtext" where
  "stringForModifiers modifiers =
     (let out = map (\<lambda>i. stringForModifier (push_bit i 1)) (flag_bits modifiers)
      in qjoin '' | '' (if out = [] then [stringForModifier 0] else out))"

definition stringForMouseButtons :: "flags \<Rightarrow> qtext" where
  "stringForMouseButtons buttons =
     (let out = map (\<lambda>i. stringForMouseButton (push_bit i 1)) (flag_bits buttons)
      in qjoin '' | '' (if out = [] then [stringForMouseButton 0] else out))"

text \<open>\<open>EnumConverter::stringFromValue\<close> for the enumeration \<open>Qt::Key\<close>.\<close>

definition stringFromValue :: "qt \<Rightarrow> int \<Rightarrow> qtext" where
  "stringFromValue q v = qt_valueToKey q v"

section \<open>parametersString and serialize\<close>

fun parametersString :: "qt \<Rightarrow> qvariant \<Rightarrow> qtext"
  and serializeItem :: "qt \<Rightarrow> qtext \<Rightarrow> item \<Rightarrow> qtext list" where
  "parametersString q (VBool b) = (if b then ''true'' else ''false'')"
| "parametersString q (VInt n) = qt_number q n"
| "parametersString q (VString s) = [dquote] @ escapeString (qs_text s) @ [dquote]"
| "parametersString q (VMap m) =
     ''{'' @ qjoin '', ''
       (map (\<lambda>(k, v). qarg (qarg ([dquote] @ ''%1'' @ [dquote] @ '': %2'') (escapeString k))
                          (parametersString q v)) m) @ ''}''"
| "parametersString q VInvalid = []"
| "parametersString q (VFocusReason r) = stringForFocusReason r"
| "parametersString q (VKey k) = ''Qt.'' @ stringFromValue q k"
| "parametersString q (VMouseButton b) = stringForMouseButton b"
| "parametersString q (VMouseButtons bs) = stringForMouseButtons bs"
| "parametersString q (VOrientation a) = (case a of Horizontal \<Rightarrow> ''Qt.Horizontal'' | Vertical \<Rightarrow> ''Qt.Vertical'')"
| "parametersString q (VKeyboardModifier m) = stringForModifier m"
| "parametersString q (VKeyboardModifiers ms) = stringForModifiers ms"
| "parametersString q (VVariable name) = name"
| "parametersString q (VItem i) = qjoin [newline] (serializeItem q [] i)"
| "parametersString q VOther = []"
| "serializeItem q ending (Item target targetClass method parameters) =
     (case method of
        None \<Rightarrow> []
      | Some m \<Rightarrow>
          if v_isNull target then
            (if v_isNull parameters then [m @ ending]
             else [qarg (qarg ''%1(%2)'' m) (parametersString q parameters) @ ending])
          else (case target of
              VVariable name \<Rightarrow>
                [qarg (qarg (qarg ''%1.%2(%3)'' name) m) (parametersString q parameters) @ ending]
            | _ \<Rightarrow>
                [qarg (qarg (qarg (''objectFromPath('' @ [dquote] @ ''%1'' @ [dquote] @ '').%2(%3)'')
                    (v_toString q target)) m) (parametersString q parameters) @ ending]))"

definition serialize :: "qt \<Rightarrow> item list \<Rightarrow> bool \<Rightarrow> qtext" where
  "serialize q items isStatement =
     qjoin [newline] (concat (map (serializeItem q (if isStatement then '';'' else [])) items))"


text \<open>
  C5. A text put into a script as a parameter cannot leave its literal: the printed text is an
  opening quote, and reading from there gives the text back and stops exactly at the closing
  quote, whatever characters the text has and whatever follows.
\<close>

theorem string_parameter_reads_back:
  "\<exists>r. parametersString q (VString s) @ rest = dquote # r \<and> scan_literal r = Some (qs_text s, rest)"
  by (simp add: scan_escapeString_rest)

section \<open>Flag expressions read back\<close>

lemma qsplit_fresh_append:
  "sep \<noteq> [] \<Longrightarrow> hd sep \<notin> set p \<Longrightarrow> qsplit sep (p @ sep @ r) = p # qsplit sep r"
proof (induction p)
  case Nil
  then show ?case by (simp add: qsplit_sep)
next
  case (Cons c p)
  then have "\<not> prefix sep (c # p @ sep @ r)" by (cases sep) auto
  with Cons show ?case by (simp add: qsplit_Cons)
qed

lemma qsplit_fresh: "sep \<noteq> [] \<Longrightarrow> hd sep \<notin> set p \<Longrightarrow> qsplit sep p = [p]"
proof (induction p)
  case (Cons c p)
  then have "\<not> prefix sep (c # p)" by (cases sep) auto
  with Cons show ?case by (simp add: qsplit_Cons)
qed simp

lemma qsplit_qjoin_fresh:
  "sep \<noteq> [] \<Longrightarrow> ps \<noteq> [] \<Longrightarrow> \<forall>p \<in> set ps. hd sep \<notin> set p \<Longrightarrow> qsplit sep (qjoin sep ps) = ps"
proof (induction sep ps rule: qjoin.induct)
  case (3 sep p r ps)
  then show ?case by (simp add: qsplit_fresh_append)
qed (simp_all add: qsplit_fresh)

text \<open>The value a script engine computes for names joined by the operator \<open>|\<close>.\<close>

definition eval_flags :: "(qtext \<Rightarrow> flags) \<Rightarrow> qtext \<Rightarrow> flags" where
  "eval_flags value s = foldr (OR) (map value (qsplit '' | '' s)) 0"

lemma bit_foldr_or: "bit (foldr (OR) ws (0 :: flags)) n \<longleftrightarrow> (\<exists>w \<in> set ws. bit w n)"
  by (induction ws) (auto simp: bit_simps)

lemma set_flag_bits: "set (flag_bits m) = {i. i < 32 \<and> bit m i}"
  unfolding flag_bits_def set_filter set_upt bit_iff_and_push_bit_not_eq_0 by auto

lemma or_flag_bits: "foldr (OR) (map (\<lambda>i. push_bit i 1) (flag_bits m)) 0 = m"
proof (rule bit_eqI)
  fix n assume "possible_bit TYPE(flags) n"
  then have "n < 32" by simp
  then show "bit (foldr (OR) (map (\<lambda>i. push_bit i (1::flags)) (flag_bits m)) 0) n = bit m n"
    by (auto simp: bit_foldr_or set_flag_bits bit_exp_iff)
qed

text \<open>
  A table of flag names: reading the name of a single known flag gives the flag, and no name
  holds a space.
\<close>

locale flag_names =
  fixes flag_name :: "flags \<Rightarrow> qtext"
    and flag_value :: "qtext \<Rightarrow> flags"
    and known :: "nat set"
  assumes value_name: "i \<in> known \<Longrightarrow> flag_value (flag_name (push_bit i 1)) = push_bit i 1"
    and value_none: "flag_value (flag_name 0) = 0"
    and no_space: "CHR '' '' \<notin> set (flag_name w)"
begin

lemma printed_flags_read_back:
  assumes "\<forall>i < 32. bit m i \<longrightarrow> i \<in> known"
  shows "eval_flags flag_value
    (let out = map (\<lambda>i. flag_name (push_bit i 1)) (flag_bits m)
     in qjoin '' | '' (if out = [] then [flag_name 0] else out)) = m"
proof (cases "flag_bits m = []")
  case True
  then have "foldr (OR) (map (\<lambda>i. push_bit i 1) (flag_bits m)) 0 = (0 :: flags)" by simp
  then have "m = 0" by (simp only: or_flag_bits)
  then show ?thesis
    using True by (simp add: eval_flags_def qsplit_fresh no_space value_none)
next
  case False
  have "map flag_value (map (\<lambda>i. flag_name (push_bit i 1)) (flag_bits m)) =
    map (\<lambda>i. push_bit i 1) (flag_bits m)"
    using assms using value_name by (auto simp: set_flag_bits)
  moreover have "qsplit '' | '' (qjoin '' | '' (map (\<lambda>i. flag_name (push_bit i 1)) (flag_bits m))) =
    map (\<lambda>i. flag_name (push_bit i 1)) (flag_bits m)"
    using False by (intro qsplit_qjoin_fresh) (auto simp: no_space)
  ultimately show ?thesis
    using False by (simp only: eval_flags_def Let_def map_is_Nil_conv if_False or_flag_bits)
qed

end

text \<open>
  The values the names have in a script: the constants of the \<open>Qt\<close> namespace that the prefix
  \<open>Qt.\<close> selects.
\<close>

definition modifierValue :: "qtext \<Rightarrow> flags" where
  "modifierValue s =
     (if s = ''Qt.ShiftModifier'' then 0x02000000
      else if s = ''Qt.ControlModifier'' then 0x04000000
      else if s = ''Qt.AltModifier'' then 0x08000000
      else if s = ''Qt.MetaModifier'' then 0x10000000
      else if s = ''Qt.KeypadModifier'' then 0x20000000
      else if s = ''Qt.GroupSwitchModifier'' then 0x40000000
      else 0)"

definition buttonValue :: "qtext \<Rightarrow> flags" where
  "buttonValue s =
     (if s = ''Qt.LeftButton'' then 1
      else if s = ''Qt.RightButton'' then 2
      else if s = ''Qt.MidButton'' then 4
      else if s = ''Qt.XButton1'' then 8
      else if s = ''Qt.XButton2'' then 16
      else 0)"

interpretation modifiers: flag_names stringForModifier modifierValue "set [25..<31]"
proof
  fix i :: nat assume "i \<in> set [25..<31]"
  then have "i = 25 \<or> i = 26 \<or> i = 27 \<or> i = 28 \<or> i = 29 \<or> i = 30" by auto
  then show "modifierValue (stringForModifier (push_bit i 1)) = push_bit i 1"
    by (elim disjE) (simp_all add: modifierValue_def stringForModifier_def)
qed (auto simp: modifierValue_def stringForModifier_def)

interpretation buttons: flag_names stringForMouseButton buttonValue "set [0..<5]"
proof
  fix i :: nat assume "i \<in> set [0..<5]"
  then have "i = 0 \<or> i = 1 \<or> i = 2 \<or> i = 3 \<or> i = 4" by auto
  then show "buttonValue (stringForMouseButton (push_bit i 1)) = push_bit i 1"
    by (elim disjE) (simp_all add: buttonValue_def stringForMouseButton_def)
qed (auto simp: buttonValue_def stringForMouseButton_def)

text \<open>
  C6. The expressions the script holds for keyboard modifiers and for mouse buttons evaluate to
  the recorded flag sets, for every combination of the six modifiers and of the five buttons.
\<close>

theorem flag_expressions_read_back:
  assumes "set (flag_bits m) \<subseteq> {25..<31}" and "set (flag_bits b) \<subseteq> {0..<5}"
  shows "eval_flags modifierValue (stringForModifiers m) = m \<and>
    eval_flags buttonValue (stringForMouseButtons b) = b"
proof
  have "\<forall>i < 32. bit m i \<longrightarrow> i \<in> set [25..<31]"
    using assms(1) by (auto simp: set_flag_bits)
  then show "eval_flags modifierValue (stringForModifiers m) = m"
    unfolding stringForModifiers_def by (rule modifiers.printed_flags_read_back)
  have "\<forall>i < 32. bit b i \<longrightarrow> i \<in> set [0..<5]"
    using assms(2) by (auto simp: set_flag_bits)
  then show "eval_flags buttonValue (stringForMouseButtons b) = b"
    unfolding stringForMouseButtons_def by (rule buttons.printed_flags_read_back)
qed

theorem flag_expressions_read_back_witness:
  "stringForModifiers 0x06000000 = ''Qt.ShiftModifier | Qt.ControlModifier'' \<and>
   eval_flags modifierValue (stringForModifiers 0x06000000) = 0x06000000 \<and>
   eval_flags buttonValue (stringForMouseButtons 5) = 5"
proof -
  have "set (flag_bits 0x06000000) \<subseteq> {25..<31}" "set (flag_bits 5) \<subseteq> {0..<5}"
    by code_simp+
  moreover have "stringForModifiers 0x06000000 = ''Qt.ShiftModifier | Qt.ControlModifier''"
    by code_simp
  ultimately show ?thesis using flag_expressions_read_back [of "0x06000000" 5] by simp
qed

end
