(* ===== verification/Xml_Parse.thy ===== *)
theory Xml_Parse
  imports Script_Items
begin

text \<open>
  The reader of recordings: \<open>XmlToQtScript::parseDocument\<close>, \<open>skipElement\<close>, the element loop of
  \<open>parseHooq\<close> and the \<open>parse...Event\<close> functions (\<open>hooq/XmlToQtScript.cpp\<close>). The class derives
  from \<open>QXmlStreamReader\<close>; its state is the list of tokens that the stream still delivers, and
  \<open>atEnd()\<close> is the empty list.
\<close>

section \<open>QXmlStreamReader\<close>

type_synonym attributes = "(qtext \<times> qtext) list"

datatype xml_token =
    StartDocument
  | EndDocument
  | StartElement qtext attributes
  | EndElement qtext
  | Characters qtext
  | Comment
  | DTD
  | EntityReference qtext
  | ProcessingInstruction
  | Invalid

type_synonym xml_stream = "xml_token list"

text \<open>
  \<open>readElementText()\<close>: concatenates characters and entity references up to the end of the
  element and skips comments and processing instructions. Any other token raises an error, and
  a reader with an error is at its end.
\<close>

fun readElementText :: "xml_stream \<Rightarrow> qtext \<times> xml_stream" where
  "readElementText [] = ([], [])"
| "readElementText (t # ts) = (case t of
     Characters s \<Rightarrow> apfst (append s) (readElementText ts)
   | EntityReference s \<Rightarrow> apfst (append s) (readElementText ts)
   | EndElement n \<Rightarrow> ([], ts)
   | Comment \<Rightarrow> readElementText ts
   | ProcessingInstruction \<Rightarrow> readElementText ts
   | _ \<Rightarrow> ([], []))"

lemma readElementText_length: "length (snd (readElementText ts)) \<le> length ts"
  by (induction ts) (auto split: xml_token.splits)

text \<open>\<open>attributes().value(name).toString()\<close>: the null string when the attribute is missing.\<close>

definition attr :: "attributes \<Rightarrow> qtext \<Rightarrow> qstring" where
  "attr atts name = map_of atts name"

definition attr_int :: "qt \<Rightarrow> attributes \<Rightarrow> qtext \<Rightarrow> int" where
  "attr_int q atts name = qt_toInt q (qs_text (attr atts name))"

definition attr_is :: "attributes \<Rightarrow> qtext \<Rightarrow> qtext \<Rightarrow> bool" where
  "attr_is atts name text \<longleftrightarrow> qs_text (attr atts name) = text"

text \<open>A parameter map filled by consecutive assignments \<open>parameters[key] = value\<close>.\<close>

definition qm_of :: "(qtext \<times> 'v) list \<Rightarrow> 'v qmap" where
  "qm_of kvs = fold (\<lambda>(k, v). qm_insert k v) kvs []"

lemma qm_of_ok [simp]: "qm_ok (qm_of kvs)"
  unfolding qm_of_def by (rule qvmap.fold_insert_ok) (simp add: qm_ok_def)

lemma map_of_qm_of: "map_of (qm_of kvs) k = map_of (rev kvs) k"
  by (simp add: qm_of_def lookup_fold_insert split: option.splits)

section \<open>skipElement\<close>

function skipElement :: "xml_stream \<Rightarrow> xml_stream" where
  "skipElement [] = []"
| "skipElement (t # ts) = (case t of
     StartElement n a \<Rightarrow> skipElement (skipElement ts)
   | EndElement n \<Rightarrow> ts
   | _ \<Rightarrow> skipElement ts)"
  by pat_completeness auto

lemma skipElement_shrinks: "skipElement_dom ts \<Longrightarrow> length (skipElement ts) \<le> length ts"
proof (induction rule: skipElement.pinduct)
  case (2 t ts)
  then show ?case
    by (cases t) (fastforce simp: skipElement.psimps)+
qed (simp add: skipElement.psimps)

termination skipElement
proof (relation "measure length")
  fix t ts n a
  assume "skipElement_dom ts"
  then show "(skipElement ts, t # ts) \<in> measure length"
    using skipElement_shrinks by (auto simp: less_Suc_eq_le)
qed auto

lemma skipElement_length: "length (skipElement ts) \<le> length ts"
  by (induction ts rule: skipElement.induct) (fastforce split: xml_token.splits)+

section \<open>The parse functions of the events\<close>

definition target_of :: "attributes \<Rightarrow> qvariant" where
  "target_of atts = VString (attr atts ''target'')"

definition msecItem :: "qt \<Rightarrow> qtext \<Rightarrow> item" where
  "msecItem q text = method_item ''msleep'' (VInt (qt_toInt q text))"

definition parseMsec :: "qt \<Rightarrow> xml_stream \<Rightarrow> item \<times> xml_stream" where
  "parseMsec q ts = apfst (msecItem q) (readElementText ts)"

definition parseFocusEvent :: "qt \<Rightarrow> attributes \<Rightarrow> xml_stream \<Rightarrow> item \<times> xml_stream" where
  "parseFocusEvent q atts ts =
     (full_item (target_of atts) (attr atts ''targetClass'') ''setFocus''
        (VMap (qm_of [(''reason'', VFocusReason (attr_int q atts ''reason''))])),
      snd (readElementText ts))"

definition parseCloseEvent :: "qt \<Rightarrow> attributes \<Rightarrow> xml_stream \<Rightarrow> item \<times> xml_stream" where
  "parseCloseEvent q atts ts =
     (full_item (target_of atts) (attr atts ''targetClass'') ''close'' VInvalid,
      snd (readElementText ts))"

definition parseKeyEvent :: "qt \<Rightarrow> qtext \<Rightarrow> attributes \<Rightarrow> xml_stream \<Rightarrow> item \<times> xml_stream" where
  "parseKeyEvent q name atts ts =
     (let call = (if name = ''keyPress'' then Some ''pressKey''
                  else if name = ''keyRelease'' then Some ''releaseKey'' else None)
      in (Item (target_of atts) (attr atts ''targetClass'') call
            (VMap (qm_of
              [(''key'', VKey (attr_int q atts ''key'')),
               (''text'', VString (attr atts ''text'')),
               (''autoRepeat'', VBool (attr_is atts ''isAutoRepeat'' ''true'')),
               (''count'', VInt (attr_int q atts ''count'')),
               (''modifiers'', VKeyboardModifiers (word_of_int (attr_int q atts ''modifiers'')))])),
          snd (readElementText ts)))"

definition parseMouseEvent :: "qt \<Rightarrow> qtext \<Rightarrow> attributes \<Rightarrow> xml_stream \<Rightarrow> item \<times> xml_stream" where
  "parseMouseEvent q name atts ts =
     (let call = (if name = ''mouseMove'' then Some ''moveMouse''
                  else if name = ''mouseButtonDoubleClick'' then Some ''doubleClickMouseButton''
                  else if name = ''mouseButtonPress'' then Some ''pressMouseButton''
                  else if name = ''mouseButtonRelease'' then Some ''releaseMouseButton'' else None)
      in (Item (target_of atts) (attr atts ''targetClass'') call
            (VMap (qm_of
              [(''x'', VInt (attr_int q atts ''x'')),
               (''y'', VInt (attr_int q atts ''y'')),
               (''button'', VMouseButton (word_of_int (attr_int q atts ''button''))),
               (''buttons'', VMouseButtons (word_of_int (attr_int q atts ''buttons''))),
               (''modifiers'', VKeyboardModifiers (word_of_int (attr_int q atts ''modifiers'')))])),
          snd (readElementText ts)))"

definition parseContextMenuEvent :: "qt \<Rightarrow> attributes \<Rightarrow> xml_stream \<Rightarrow> item \<times> xml_stream" where
  "parseContextMenuEvent q atts ts =
     (full_item (target_of atts) (attr atts ''targetClass'') ''contextMenu''
        (VMap (qm_of
          [(''x'', VInt (attr_int q atts ''x'')),
           (''y'', VInt (attr_int q atts ''y'')),
           (''globalX'', VInt (attr_int q atts ''globalX'')),
           (''globalY'', VInt (attr_int q atts ''globalY'')),
           (''modifiers'', VKeyboardModifiers (word_of_int (attr_int q atts ''modifiers'')))])),
      snd (readElementText ts))"

definition parseDragAndDropEvent :: "qt \<Rightarrow> attributes \<Rightarrow> xml_stream \<Rightarrow> item \<times> xml_stream" where
  "parseDragAndDropEvent q atts ts =
     (let dragItem = full_item (VString (attr atts ''source'')) None ''drag''
            (VMap (qm_of [(''x'', VInt (attr_int q atts ''sourceX'')),
                          (''y'', VInt (attr_int q atts ''sourceY''))]));
          dropItem = full_item (target_of atts) None ''drop''
            (VMap (qm_of [(''x'', VInt (attr_int q atts ''targetX'')),
                          (''y'', VInt (attr_int q atts ''targetY'')),
                          (''dragged'', VItem dragItem)]))
      in (dropItem, snd (readElementText ts)))"

definition parseWheelEvent :: "qt \<Rightarrow> attributes \<Rightarrow> xml_stream \<Rightarrow> item \<times> xml_stream" where
  "parseWheelEvent q atts ts =
     (full_item (target_of atts) (attr atts ''targetClass'') ''mouseWheel''
        (VMap (qm_of
          [(''x'', VInt (attr_int q atts ''x'')),
           (''y'', VInt (attr_int q atts ''y'')),
           (''buttons'', VMouseButtons (word_of_int (attr_int q atts ''buttons''))),
           (''modifiers'', VKeyboardModifiers (word_of_int (attr_int q atts ''modifiers''))),
           (''orientation'', VOrientation
              (if attr_is atts ''orientation'' ''horizontal'' then Horizontal else Vertical)),
           (''delta'', VInt (attr_int q atts ''delta''))])),
      snd (readElementText ts))"

definition parseShortcutEvent :: "qt \<Rightarrow> attributes \<Rightarrow> xml_stream \<Rightarrow> item \<times> xml_stream" where
  "parseShortcutEvent q atts ts =
     (full_item (target_of atts) (attr atts ''targetClass'') ''shortcut''
        (VMap (qm_of
          [(''string'', VString (attr atts ''string'')),
           (''id'', VInt (attr_int q atts ''id'')),
           (''ambiguous'', VBool (attr_is atts ''ambiguous'' ''true''))])),
      snd (readElementText ts))"

section \<open>The element loop of parseHooq\<close>

text \<open>The chain of tests on the element's name; \<open>None\<close> when no test applies.\<close>

definition parseElement :: "qt \<Rightarrow> qtext \<Rightarrow> attributes \<Rightarrow> xml_stream \<Rightarrow> (item \<times> xml_stream) option" where
  "parseElement q name atts ts =
     (if name = ''msec'' then Some (parseMsec q ts)
      else if name = ''windowClosed'' then Some (parseCloseEvent q atts ts)
      else if name = ''focusChanged'' then Some (parseFocusEvent q atts ts)
      else if name = ''keyPress'' \<or> name = ''keyRelease'' then Some (parseKeyEvent q name atts ts)
      else if name = ''mouseMove'' \<or> name = ''mouseButtonPress'' \<or> name = ''mouseButtonRelease''
           \<or> name = ''mouseButtonDoubleClick'' then Some (parseMouseEvent q name atts ts)
      else if name = ''mouseWheel'' then Some (parseWheelEvent q atts ts)
      else if name = ''shortcut'' then Some (parseShortcutEvent q atts ts)
      else if name = ''contextMenu'' then Some (parseContextMenuEvent q atts ts)
      else if name = ''dragAndDrop'' then Some (parseDragAndDropEvent q atts ts)
      else None)"

lemmas parse_event_defs = parseMsec_def parseCloseEvent_def parseFocusEvent_def parseKeyEvent_def
  parseMouseEvent_def parseWheelEvent_def parseShortcutEvent_def parseContextMenuEvent_def
  parseDragAndDropEvent_def

lemma parseElement_rest:
  "parseElement q name atts ts = Some (i, ts') \<Longrightarrow> ts' = snd (readElementText ts)"
  unfolding parseElement_def parse_event_defs Let_def
  by (auto split: if_splits simp: apfst_def map_prod_def case_prod_beta)

text \<open>
  The items of the element's children, whether the closing tag was met (the loop ends at the
  end of the input otherwise), and the tokens behind it.
\<close>

function hooq_items :: "qt \<Rightarrow> xml_stream \<Rightarrow> item list \<Rightarrow> item list \<times> bool \<times> xml_stream" where
  "hooq_items q [] items = (items, False, [])"
| "hooq_items q (t # ts) items = (case t of
     StartElement name atts \<Rightarrow>
       (case parseElement q name atts ts of
          Some r \<Rightarrow> hooq_items q (snd r) (items @ [fst r])
        | None \<Rightarrow> hooq_items q (skipElement ts) items)
   | EndElement n \<Rightarrow> (items, True, ts)
   | _ \<Rightarrow> hooq_items q ts items)"
  by pat_completeness auto
termination
  by (relation "measure (\<lambda>(q, ts, items). length ts)")
     (auto dest!: parseElement_rest
       intro: le_less_trans [OF readElementText_length] le_less_trans [OF skipElement_length])

section \<open>Documents as trees\<close>

text \<open>
  The abstract specification: a recording is a tree, its children are the recorded events in
  order, and reading it gives one item for every known event.
\<close>

datatype xml_node = XElement qtext attributes "xml_node list" | XText qtext | XComment

fun node_tokens :: "xml_node \<Rightarrow> xml_stream" where
  "node_tokens (XElement n a cs) = StartElement n a # concat (map node_tokens cs) @ [EndElement n]"
| "node_tokens (XText s) = [Characters s]"
| "node_tokens XComment = [Comment]"

fun is_element :: "xml_node \<Rightarrow> bool" where
  "is_element (XElement n a cs) = True"
| "is_element _ = False"

fun node_text :: "xml_node \<Rightarrow> qtext" where
  "node_text (XText s) = s"
| "node_text _ = []"

text \<open>The item of a child of the \<open>hooq\<close> element, if it is an event.\<close>

fun recorded_item :: "qt \<Rightarrow> xml_node \<Rightarrow> item option" where
  "recorded_item q (XElement n a cs) =
     map_option fst (parseElement q n a [Characters (concat (map node_text cs)), EndElement n])"
| "recorded_item q _ = None"

text \<open>The events a recording holds have no child elements.\<close>

fun flat_event :: "qt \<Rightarrow> xml_node \<Rightarrow> bool" where
  "flat_event q (XElement n a cs) \<longleftrightarrow>
     recorded_item q (XElement n a cs) \<noteq> None \<longrightarrow> \<not> list_ex is_element cs"
| "flat_event q _ \<longleftrightarrow> True"

lemma skipElement_node: "skipElement (node_tokens x @ ts) = skipElement ts"
proof (induction x arbitrary: ts)
  case (XElement n a cs)
  have "skipElement (concat (map node_tokens cs) @ ts') = skipElement ts'" for ts'
    using XElement by (induction cs) simp_all
  then show ?case by simp
qed simp_all

lemma skipElement_children:
  "skipElement (concat (map node_tokens cs) @ EndElement n # rest) = rest"
  by (induction cs) (simp_all add: skipElement_node)

lemma readElementText_children:
  "\<not> list_ex is_element cs \<Longrightarrow>
   readElementText (concat (map node_tokens cs) @ EndElement n # rest) =
     (concat (map node_text cs), rest)"
proof (induction cs)
  case (Cons x cs)
  then show ?case by (cases x) simp_all
qed simp

text \<open>What an event's item is depends on the text of the element only.\<close>

lemma parseElement_item:
  "fst (readElementText ts) = fst (readElementText ts') \<Longrightarrow>
   map_option fst (parseElement q n a ts) = map_option fst (parseElement q n a ts')"
  unfolding parseElement_def parse_event_defs Let_def by (simp add: apfst_def map_prod_def case_prod_beta)

lemma parseElement_None: "parseElement q n a ts = None \<longleftrightarrow> parseElement q n a ts' = None"
  unfolding parseElement_def by simp

lemma hooq_items_element:
  assumes "flat_event q (XElement n a cs)"
  shows "hooq_items q (node_tokens (XElement n a cs) @ ts) items =
    (case recorded_item q (XElement n a cs) of
       None \<Rightarrow> hooq_items q ts items | Some i \<Rightarrow> hooq_items q ts (items @ [i]))"
proof -
  let ?body = "concat (map node_tokens cs) @ EndElement n # ts"
  show ?thesis
  proof (cases "recorded_item q (XElement n a cs)")
    case None
    then have "parseElement q n a ?body = None"
      by (simp add: parseElement_None [of q n a ?body "[Characters (concat (map node_text cs)), EndElement n]"])
    with None show ?thesis by (simp add: skipElement_children)
  next
    case (Some i)
    with assms have "\<not> list_ex is_element cs" by auto
    then have body: "readElementText ?body = (concat (map node_text cs), ts)"
      by (rule readElementText_children)
    with Some body have "map_option fst (parseElement q n a ?body) = Some i"
      using parseElement_item [of ?body "[Characters (concat (map node_text cs)), EndElement n]"]
      by simp
    then obtain ts' where "parseElement q n a ?body = Some (i, ts')" by auto
    with parseElement_rest [OF this] Some body show ?thesis by auto
  qed
qed

lemma hooq_items_node:
  assumes "flat_event q x"
  shows "hooq_items q (node_tokens x @ ts) items =
    hooq_items q ts (items @ List.map_filter (recorded_item q) [x])"
proof (cases x)
  case (XElement n a cs)
  with assms show ?thesis
    by (simp only: hooq_items_element) (simp add: map_filter_def split: option.splits)
qed (simp_all add: map_filter_def)

lemma hooq_items_nodes:
  "list_all (flat_event q) nodes \<Longrightarrow>
    hooq_items q (concat (map node_tokens nodes) @ ts) items =
      hooq_items q ts (items @ List.map_filter (recorded_item q) nodes)"
proof (induction nodes arbitrary: items)
  case (Cons x nodes)
  then show ?case
    by (simp only: list.map concat.simps append_assoc hooq_items_node list.pred_inject)
       (simp add: map_filter_def)
qed (simp add: map_filter_def)

text \<open>
  C7. Reading a recording gives one item per recorded event, in the order of the recording:
  elements that are no events are skipped with everything inside them, and reading stops behind
  the closing tag.
\<close>

theorem hooq_items_of_recording:
  assumes "list_all (flat_event q) nodes"
  shows "hooq_items q (concat (map node_tokens nodes) @ EndElement n # rest) items =
    (items @ List.map_filter (recorded_item q) nodes, True, rest)"
  using hooq_items_nodes [OF assms] by simp

definition sample_recording :: "xml_node list" where
  "sample_recording =
     [XElement ''msec'' [] [XText ''250''],
      XElement ''comment'' [] [XElement ''msec'' [] []],
      XElement ''windowClosed'' [(''target'', ''Main''), (''targetClass'', ''QWidget'')] []]"

theorem hooq_items_of_recording_witness:
  "list_all (flat_event qt_decimal) sample_recording \<and>
   hooq_items qt_decimal (concat (map node_tokens sample_recording) @ [EndElement ''hooq'']) [] =
     ([method_item ''msleep'' (VInt 250),
       full_item (VString (Some ''Main'')) (Some ''QWidget'') ''close'' VInvalid], True, [])"
proof -
  have flat: "list_all (flat_event qt_decimal) sample_recording" by code_simp
  have items: "List.map_filter (recorded_item qt_decimal) sample_recording =
    [method_item ''msleep'' (VInt 250),
     full_item (VString (Some ''Main'')) (Some ''QWidget'') ''close'' VInvalid]" by code_simp
  from flat items show ?thesis
    using hooq_items_of_recording [OF flat, of "''hooq''" "[]" "[]"] by simp
qed

end
