(* ===== verification/Script_Processors.thy ===== *)
theory Script_Processors
  imports Xml_Parse
begin

text \<open>
  The simplification of recorded scripts: \<open>Item::Inserter\<close>, the six post-processors and the
  loop of \<open>XmlToQtScript::itemString\<close> that runs them (\<open>hooq/XmlToQtScript*.cpp\<close>). Operations
  that Qt leaves undefined (\<open>first\<close>, \<open>takeFirst\<close> of an empty list) are error values.
\<close>

section \<open>Item::Inserter\<close>

text \<open>
  The inserter holds a pointer to the output list; the list it points to is the field
  \<open>m_rootList\<close>, so that the record is the whole state of the output side.
\<close>

record inserter =
  m_rootList :: "item list"
  m_originalStart :: int
  m_itemIndex :: int
  m_appendedItems :: int

datatype position = Beginning | BeforeCurrentItem

definition Inserter_reset :: "inserter \<Rightarrow> inserter" where
  "Inserter_reset I = I\<lparr>m_originalStart := 0,
     m_itemIndex := int (length (m_rootList I)) - 1, m_appendedItems := 0\<rparr>"

definition new_Inserter :: "item list \<Rightarrow> inserter" where
  "new_Inserter rootList = Inserter_reset
     \<lparr>m_rootList = rootList, m_originalStart = 0, m_itemIndex = 0, m_appendedItems = 0\<rparr>"

definition Inserter_insert :: "qt \<Rightarrow> item \<Rightarrow> position \<Rightarrow> inserter \<Rightarrow> inserter" where
  "Inserter_insert q i pos I = (case pos of
     Beginning \<Rightarrow> I\<lparr>m_rootList := qlist_insert q (m_originalStart I) i (m_rootList I),
                   m_originalStart := m_originalStart I + 1, m_itemIndex := m_itemIndex I + 1\<rparr>
   | BeforeCurrentItem \<Rightarrow> I\<lparr>m_rootList := qlist_insert q (m_itemIndex I) i (m_rootList I),
                   m_itemIndex := m_itemIndex I + 1\<rparr>)"

definition Inserter_next :: "inserter \<Rightarrow> inserter" where
  "Inserter_next I = I\<lparr>m_itemIndex := m_itemIndex I + m_appendedItems I + 1, m_appendedItems := 0\<rparr>"

definition out_append :: "item \<Rightarrow> inserter \<Rightarrow> inserter" where
  "out_append i I = I\<lparr>m_rootList := m_rootList I @ [i]\<rparr>"

definition out_clear :: "inserter \<Rightarrow> inserter" where
  "out_clear I = I\<lparr>m_rootList := []\<rparr>"

lemmas inserter_defs = Inserter_reset_def new_Inserter_def Inserter_insert_def Inserter_next_def
  out_append_def out_clear_def

section \<open>The post-processors\<close>

datatype script_error =
    FirstOfEmptyList
  | TakeFirstOfEmptyList
  | DoesNotReturn

text \<open>A post-processor object with its members.\<close>

datatype post_processor =
    FilterQtInternals "qtext list"
  | StripMouseMovements
  | SimplifyMouseMovements
  | SimplifyStrings
  | ObjectVariables "(qtext \<times> qtext) list"
  | StringVariables "qtext list"

subsection \<open>FilterQtInternals\<close>

definition internalClasses :: "qtext list" where
  "internalClasses = [''QShapedPixmapWidget'']"

definition process_FilterQtInternals ::
    "qtext list \<Rightarrow> item \<Rightarrow> item list \<Rightarrow> script_error + item \<times> item list" where
  "process_FilterQtInternals classes it inp =
     (if qs_text (item_targetClass it) \<in> set classes then
        (case inp of
           [] \<Rightarrow> Inl FirstOfEmptyList
         | x # rest \<Rightarrow> Inr (null_item, if method_is x ''msec'' then rest else x # rest))
      else Inr (it, inp))"

subsection \<open>StripMouseMovements\<close>

fun process_StripMouseMovements :: "item \<Rightarrow> item list \<Rightarrow> script_error + item \<times> item list" where
  "process_StripMouseMovements it [] =
     (if method_is it ''moveMouse'' then Inr (null_item, []) else Inr (it, []))"
| "process_StripMouseMovements it [x] =
     (if method_is it ''moveMouse'' then Inl TakeFirstOfEmptyList else Inr (it, [x]))"
| "process_StripMouseMovements it (x # y # rest) =
     (if method_is it ''moveMouse'' then process_StripMouseMovements y rest
      else Inr (it, x # y # rest))"

subsection \<open>SimplifyMouseMovements\<close>

text \<open>The \<open>while\<close> loop: the current item, its parameters, the duration and the input.\<close>

fun moves_loop :: "qt \<Rightarrow> qvariant \<Rightarrow> item \<Rightarrow> qvariant qmap \<Rightarrow> int \<Rightarrow> item list \<Rightarrow>
    item \<times> qvariant qmap \<times> int \<times> item list" where
  "moves_loop q target it parameters duration [] = (it, parameters, duration, [])"
| "moves_loop q target it parameters duration [msec] =
     (msec, parameters, duration + v_toInt q (item_parameters msec), [])"
| "moves_loop q target it parameters duration (msec # x # rest) =
     (let duration' = duration + v_toInt q (item_parameters msec)
      in if \<not> method_is x ''moveMouse'' \<or> \<not> v_eq (item_target x) target
         then (msec, parameters, duration', x # rest)
         else moves_loop q target x (v_toMap (item_parameters x)) duration' rest)"

definition simplified_move :: "qt \<Rightarrow> qvariant qmap \<Rightarrow> qvariant qmap \<Rightarrow> int \<Rightarrow> qvariant qmap" where
  "simplified_move q origin parameters duration =
     qm_insert ''duration'' (VInt duration)
      (qm_insert ''destinationY'' (VInt (v_toInt q (qm_value parameters ''y'')))
       (qm_insert ''destinationX'' (VInt (v_toInt q (qm_value parameters ''x'')))
        (qm_insert ''originY'' (VInt (v_toInt q (qm_value origin ''y'')))
         (qm_insert ''originX'' (VInt (v_toInt q (qm_value origin ''x'')))
          (qm_remove ''y'' (qm_remove ''x'' parameters))))))"

definition process_SimplifyMouseMovements ::
    "qt \<Rightarrow> item \<Rightarrow> item list \<Rightarrow> inserter \<Rightarrow> item \<times> item list \<times> inserter" where
  "process_SimplifyMouseMovements q it inp I =
     (if method_is it ''moveMouse'' then
        let origin = v_toMap (item_parameters it);
            (it', parameters, duration, inp') = moves_loop q (item_target it) it origin 0 inp
        in (it', inp', Inserter_insert q
              (full_item (item_target it) (item_targetClass it) ''moveMouse''
                 (VMap (simplified_move q origin parameters duration)))
              BeforeCurrentItem I)
      else (it, inp, I))"

subsection \<open>SimplifyStrings\<close>

abbreviation Key_Backspace :: int where "Key_Backspace \<equiv> 0x01000003"
abbreviation Key_Return :: int where "Key_Return \<equiv> 0x01000004"
abbreviation Key_Enter :: int where "Key_Enter \<equiv> 0x01000005"
abbreviation Key_Shift :: int where "Key_Shift \<equiv> 0x01000020"
abbreviation ShiftModifier :: flags where "ShiftModifier \<equiv> 0x02000000"

definition v_modifiers :: "qvariant \<Rightarrow> flags" where
  "v_modifiers v = (case v of VKeyboardModifiers m \<Rightarrow> m | _ \<Rightarrow> 0)"

definition v_key :: "qvariant \<Rightarrow> int" where
  "v_key v = (case v of VKey k \<Rightarrow> k | _ \<Rightarrow> 0)"

definition is_key_item :: "item \<Rightarrow> bool" where
  "is_key_item i \<longleftrightarrow> method_is i ''pressKey'' \<or> method_is i ''releaseKey''"

text \<open>What a key press adds to the text typed so far.\<close>

definition type_key :: "qt \<Rightarrow> qvariant qmap \<Rightarrow> qtext \<Rightarrow> qtext" where
  "type_key q parameters s =
     (let key = v_key (qm_value parameters ''key'')
      in if key = Key_Backspace then butlast s
         else if key = Key_Shift then s
         else if key = Key_Return \<or> key = Key_Enter then s @ [newline]
         else s @ v_toString q (qm_value parameters ''text''))"

text \<open>
  The \<open>while\<close> loop: the current item, its parameters, the text, the last sleep and the input.
\<close>

fun keys_loop :: "qt \<Rightarrow> qvariant \<Rightarrow> item \<Rightarrow> qvariant qmap \<Rightarrow> qtext \<Rightarrow> item \<Rightarrow> item list \<Rightarrow>
    script_error + item \<times> qtext \<times> item \<times> item list" where
  "keys_loop q target it parameters s msec [] = Inr (it, s, msec, [])"
| "keys_loop q target it parameters s msec [x] =
     (if v_modifiers (qm_value parameters ''modifiers'') AND NOT ShiftModifier \<noteq> 0
         \<or> method_is it ''pressKey''
      then Inr (it, s, msec, [x])
      else Inl TakeFirstOfEmptyList)"
| "keys_loop q target it parameters s msec (x # y # rest) =
     (if v_modifiers (qm_value parameters ''modifiers'') AND NOT ShiftModifier \<noteq> 0
      then Inr (it, s, msec, x # y # rest)
      else if method_is it ''pressKey'' \<and> \<not> (is_key_item y \<and> v_eq (item_target y) target)
      then Inr (it, s, msec, x # y # rest)
      else let s' = (if method_is it ''pressKey'' then type_key q parameters s else s)
        in if \<not> is_key_item y then Inr (y, s', x, rest)
           else keys_loop q target y (v_toMap (item_parameters y)) s' x rest)"

definition process_SimplifyStrings ::
    "qt \<Rightarrow> item \<Rightarrow> item list \<Rightarrow> inserter \<Rightarrow> script_error + item \<times> item list \<times> inserter" where
  "process_SimplifyStrings q it inp I =
     (if method_is it ''pressKey'' then
        (case keys_loop q (item_target it) it (v_toMap (item_parameters it)) [] null_item inp of
           Inl e \<Rightarrow> Inl e
         | Inr (it', s, msec, inp') \<Rightarrow>
             Inr (it', inp',
               if s = [] then I
               else Inserter_insert q msec BeforeCurrentItem
                 (Inserter_insert q
                   (full_item (item_target it) (item_targetClass it) ''sendText'' (VString (Some s)))
                   BeforeCurrentItem I)))
      else Inr (it, inp, I))"

subsection \<open>ObjectVariables\<close>

definition toKeyword :: "qt \<Rightarrow> qtext \<Rightarrow> qtext" where
  "toKeyword q s = map (\<lambda>c. if qt_isLetterOrNumber q c then c else CHR ''_'') s"

text \<open>
  The search for a free number. The loop of the source runs until a number is free; it is
  given one more round than there are names in use.
\<close>

fun free_count :: "qt \<Rightarrow> qtext \<Rightarrow> qtext set \<Rightarrow> int \<Rightarrow> nat \<Rightarrow> int option" where
  "free_count q pattern vals count 0 = None"
| "free_count q pattern vals count (Suc fuel) =
     (if qarg pattern (qt_number q count) \<in> vals then free_count q pattern vals (count + 1) fuel
      else Some count)"

definition variable_name :: "qt \<Rightarrow> qtext list \<Rightarrow> qtext \<Rightarrow> qtext option" where
  "variable_name q vals target =
     (let parts = qsplit ''::'' target;
          name = toKeyword q (last parts);
          parts' = butlast parts
      in if name \<notin> set vals then Some name
         else let name' = (if parts' \<noteq> [] then toKeyword q (last parts') @ ''__'' @ name else name)
           in if name' \<notin> set vals then Some name'
              else let pattern = name' @ ''_%1''
                in map_option (\<lambda>c. qarg pattern (qt_number q c))
                     (free_count q pattern (set vals) 2 (Suc (length vals))))"

definition canConvert_Variable :: "qvariant \<Rightarrow> bool" where
  "canConvert_Variable v \<longleftrightarrow> (case v of VVariable n \<Rightarrow> True | _ \<Rightarrow> False)"

definition process_ObjectVariables ::
    "qt \<Rightarrow> (qtext \<times> qtext) list \<Rightarrow> item \<Rightarrow> inserter \<Rightarrow>
     script_error + (qtext \<times> qtext) list \<times> item \<times> inserter" where
  "process_ObjectVariables q vars it I =
     (if v_isNull (item_target it) then Inr (vars, it, I)
      else if canConvert_Variable (item_target it) then Inr (vars, it, I)
      else
        let target = v_toString q (item_target it);
            with_variable = (\<lambda>name.
              Item (VVariable name) (item_targetClass it) (item_method it) (item_parameters it))
        in case map_of vars target of
          Some name \<Rightarrow> Inr (vars, with_variable name, I)
        | None \<Rightarrow>
            (case variable_name q (map snd vars) target of
               None \<Rightarrow> Inl DoesNotReturn
             | Some name \<Rightarrow> Inr ((target, name) # vars, with_variable name,
                 Inserter_insert q
                   (method_item (qarg ''var %1 = objectFromPath'' name) (VString (Some target)))
                   BeforeCurrentItem I)))"

subsection \<open>StringVariables\<close>

fun indexOf :: "'a list \<Rightarrow> 'a \<Rightarrow> int" where
  "indexOf [] v = -1"
| "indexOf (x # xs) v = (if x = v then 0 else let i = indexOf xs v in if i = -1 then -1 else i + 1)"

definition process_StringVariables ::
    "qt \<Rightarrow> qtext list \<Rightarrow> item \<Rightarrow> inserter \<Rightarrow> qtext list \<times> item \<times> inserter" where
  "process_StringVariables q vars it I =
     (if \<not> method_is it ''sendText'' then (vars, it, I)
      else case it of Item tgt tclass method parameters \<Rightarrow>
        let val = v_toString q parameters;
            (vars', I') =
              (if val \<notin> set vars then
                 (vars @ [val],
                  Inserter_insert q
                    (method_item (qarg (qarg (''var string%1 = '' @ [dquote] @ ''%2'' @ [dquote])
                        (qt_number q (int (length vars)))) (escapeString val)) VInvalid)
                    Beginning I)
               else (vars, I))
        in (vars', Item tgt tclass method
             (VVariable (qarg ''string%1'' (qt_number q (indexOf vars' val)))), I'))"

section \<open>process and the pass\<close>

text \<open>The virtual call \<open>postProcessor->process(&item, &in)\<close>.\<close>

definition process :: "qt \<Rightarrow> post_processor \<Rightarrow> item \<Rightarrow> item list \<Rightarrow> inserter \<Rightarrow>
    script_error + post_processor \<times> item \<times> item list \<times> inserter" where
  "process q p it inp I = (case p of
     FilterQtInternals classes \<Rightarrow>
       map_sum id (\<lambda>(it', inp'). (p, it', inp', I)) (process_FilterQtInternals classes it inp)
   | StripMouseMovements \<Rightarrow>
       map_sum id (\<lambda>(it', inp'). (p, it', inp', I)) (process_StripMouseMovements it inp)
   | SimplifyMouseMovements \<Rightarrow>
       (case process_SimplifyMouseMovements q it inp I of (it', inp', I') \<Rightarrow> Inr (p, it', inp', I'))
   | SimplifyStrings \<Rightarrow>
       map_sum id (\<lambda>(it', inp', I'). (p, it', inp', I')) (process_SimplifyStrings q it inp I)
   | ObjectVariables vars \<Rightarrow>
       map_sum id (\<lambda>(vars', it', I'). (ObjectVariables vars', it', inp, I'))
         (process_ObjectVariables q vars it I)
   | StringVariables vars \<Rightarrow>
       (case process_StringVariables q vars it I of (vars', it', I') \<Rightarrow>
          Inr (StringVariables vars', it', inp, I')))"

lemma strip_length: "process_StripMouseMovements it inp = Inr (it', inp') \<Longrightarrow> length inp' \<le> length inp"
  by (induction it inp rule: process_StripMouseMovements.induct) (auto split: if_splits)

lemma moves_loop_length:
  "moves_loop q t it ps d inp = (it', ps', d', inp') \<Longrightarrow> length inp' \<le> length inp"
  by (induction q t it ps d inp rule: moves_loop.induct) (auto simp: Let_def split: if_splits)

lemma keys_loop_length:
  "keys_loop q t it ps s m inp = Inr (it', s', m', inp') \<Longrightarrow> length inp' \<le> length inp"
  by (induction q t it ps s m inp rule: keys_loop.induct) (auto simp: Let_def split: if_splits)

text \<open>No post-processor lengthens the input: the pass over it ends.\<close>

lemma process_length:
  assumes "process q p it inp I = Inr (p', it', inp', I')"
  shows "length inp' \<le> length inp"
proof (cases p)
  case (FilterQtInternals classes)
  with assms show ?thesis
    by (auto simp: process_def process_FilterQtInternals_def map_sum_def split: if_splits list.splits)
next
  case StripMouseMovements
  with assms obtain r where "process_StripMouseMovements it inp = Inr r" "snd r = inp'"
    by (auto simp: process_def split: sum.splits)
       (cases "process_StripMouseMovements it inp"; auto)
  then show ?thesis by (cases r) (auto dest: strip_length)
next
  case SimplifyMouseMovements
  with assms show ?thesis
    by (auto simp: process_def process_SimplifyMouseMovements_def Let_def
        split: if_splits prod.splits dest: moves_loop_length)
next
  case SimplifyStrings
  with assms show ?thesis
    by (auto simp: process_def process_SimplifyStrings_def split: if_splits sum.splits
        dest: keys_loop_length)
next
  case (ObjectVariables vars)
  with assms show ?thesis
    by (cases "process_ObjectVariables q vars it I") (auto simp: process_def)
next
  case (StringVariables vars)
  with assms show ?thesis by (auto simp: process_def split: prod.splits)
qed

text \<open>The inner loop of \<open>itemString\<close>: one pass of a post-processor over the input.\<close>

function pass :: "qt \<Rightarrow> post_processor \<Rightarrow> item list \<Rightarrow> inserter \<Rightarrow> script_error + inserter" where
  "pass q p [] I = Inr I"
| "pass q p (x # inp) I =
     (case process q p x inp I of
        Inl e \<Rightarrow> Inl e
      | Inr (p', it, inp', I') \<Rightarrow>
          pass q p' inp' (Inserter_next (if isValid it then out_append it I' else I')))"
  by pat_completeness auto
termination
  by (relation "measure (\<lambda>(q, p, inp, I). length inp)")
     (auto dest: process_length simp: less_Suc_eq_le)

text \<open>The outer loop: \<open>out.clear()\<close>, the pass, \<open>in = out\<close>, \<open>inserter.reset()\<close>.\<close>

fun run_processors :: "qt \<Rightarrow> post_processor list \<Rightarrow> item list \<Rightarrow> inserter \<Rightarrow> script_error + item list" where
  "run_processors q [] inp I = Inr inp"
| "run_processors q (p # ps) inp I =
     (case pass q p inp (out_clear I) of
        Inl e \<Rightarrow> Inl e
      | Inr I' \<Rightarrow> run_processors q ps (m_rootList I') (Inserter_reset I'))"

section \<open>itemString and parse\<close>

abbreviation opt_SkipMouseMovements :: flags where "opt_SkipMouseMovements \<equiv> push_bit 0 1"
abbreviation opt_SimplifyStrings :: flags where "opt_SimplifyStrings \<equiv> push_bit 1 1"
abbreviation opt_ObjectVariables :: flags where "opt_ObjectVariables \<equiv> push_bit 2 1"
abbreviation opt_StringVariables :: flags where "opt_StringVariables \<equiv> push_bit 3 1"
abbreviation opt_SimplifyMouseMovements :: flags where "opt_SimplifyMouseMovements \<equiv> push_bit 4 1"
abbreviation opt_FilterQtInternals :: flags where "opt_FilterQtInternals \<equiv> push_bit 5 1"

definition postProcessors :: "flags \<Rightarrow> post_processor list" where
  "postProcessors options =
     (if options AND opt_FilterQtInternals \<noteq> 0 then [FilterQtInternals internalClasses] else []) @
     (if options AND opt_SkipMouseMovements \<noteq> 0 then [StripMouseMovements] else []) @
     (if options AND opt_SimplifyMouseMovements \<noteq> 0 then [SimplifyMouseMovements] else []) @
     (if options AND opt_SimplifyStrings \<noteq> 0 then [SimplifyStrings] else []) @
     (if options AND opt_ObjectVariables \<noteq> 0 then [ObjectVariables []] else []) @
     (if options AND opt_StringVariables \<noteq> 0 then [StringVariables []] else [])"

definition processed_items :: "qt \<Rightarrow> flags \<Rightarrow> item list \<Rightarrow> script_error + item list" where
  "processed_items q options items = run_processors q (postProcessors options) items (new_Inserter [])"

definition itemString :: "qt \<Rightarrow> flags \<Rightarrow> item list \<Rightarrow> script_error + qtext" where
  "itemString q options items =
     map_sum id (\<lambda>out. serialize q out True) (processed_items q options items)"

definition parseHooq :: "qt \<Rightarrow> flags \<Rightarrow> xml_stream \<Rightarrow> script_error + qtext" where
  "parseHooq q options ts =
     (case hooq_items q ts [] of (items, closed, rest) \<Rightarrow>
        map_sum id (append (if closed then [] else ''/* Unexpected EOF in XML */'' @ [newline]))
          (itemString q options items))"

function parseDocument :: "qt \<Rightarrow> flags \<Rightarrow> xml_stream \<Rightarrow> script_error + qtext" where
  "parseDocument q options [] = Inr []"
| "parseDocument q options (t # ts) = (case t of
     StartElement name atts \<Rightarrow>
       (if name = ''hooq'' then parseHooq q options ts
        else parseDocument q options (skipElement ts))
   | _ \<Rightarrow> parseDocument q options ts)"
  by pat_completeness auto
termination
  by (relation "measure (\<lambda>(q, opts, ts). length ts)")
     (auto intro: le_less_trans [OF skipElement_length])

definition scriptVersion :: int where
  "scriptVersion = 2"

definition parse :: "qt \<Rightarrow> flags \<Rightarrow> xml_stream \<Rightarrow> script_error + qtext" where
  "parse q options ts =
     map_sum id (append (qarg (''requireHooqScriptVersion(%1);'' @ [newline]) (qt_number q scriptVersion)))
       (parseDocument q options ts)"

end
