(* ===== verification/Script_Safety.thy ===== *)
theory Script_Safety
  imports Script_Processors
begin

text \<open>
  Which recordings the post-processors accept: a contract under which a pass returns, what each
  pass keeps of the shape of a recording, and that every combination of options turns a
  recording into a script.
\<close>

section \<open>The contract of a pass\<close>

text \<open>
  A condition on the remaining input that excludes errors in the next step and that the step
  preserves.
\<close>

locale pass_contract =
  fixes q :: qt
    and accepts :: "post_processor \<Rightarrow> item list \<Rightarrow> bool"
  assumes process_accepts: "accepts p (x # inp) \<Longrightarrow>
    \<exists>p' it inp' I'. process q p x inp I = Inr (p', it, inp', I') \<and> accepts p' inp'"
begin

lemma pass_returns: "accepts p inp \<Longrightarrow> \<exists>I'. pass q p inp I = Inr I'"
proof (induction inp arbitrary: p I rule: length_induct)
  case (1 inp)
  show ?case
  proof (cases inp)
    case (Cons x rest)
    with 1 obtain p' it rest' I' where step: "process q p x rest I = Inr (p', it, rest', I')"
        and ok: "accepts p' rest'"
      using process_accepts [of p x rest I] by blast
    have "length rest' < length inp" using process_length [OF step] Cons by simp
    with 1 ok Cons step show ?thesis by auto
  qed simp
qed

end

text \<open>The shape of the remaining input that each post-processor needs.\<close>

definition second_last :: "item list \<Rightarrow> (item \<Rightarrow> bool) \<Rightarrow> bool" where
  "second_last xs P \<longleftrightarrow> (\<exists>pre a b. xs = pre @ [a, b] \<and> P a)"

lemma second_last_simps [simp]:
  "\<not> second_last [] P" "\<not> second_last [x] P" "second_last [x, y] P \<longleftrightarrow> P x"
  "second_last (x # y # z # r) P \<longleftrightarrow> second_last (y # z # r) P"
  unfolding second_last_def by (auto simp: Cons_eq_append_conv)

lemma second_last_Cons: "second_last xs P \<Longrightarrow> second_last (x # xs) P"
  unfolding second_last_def by (metis append_Cons)

lemma not_second_last_Cons: "\<not> second_last (x # xs) P \<Longrightarrow> \<not> second_last xs P"
  using second_last_Cons by blast

definition qt_documented :: "qt \<Rightarrow> bool" where
  "qt_documented q \<longleftrightarrow> number_reads_back q \<and> number_distinct q \<and> number_is_plain q \<and>
     insert_clamps q \<and> signs_not_letters q"

lemma qt_documentedD [simp]:
  assumes "qt_documented q"
  shows "number_reads_back q" "number_distinct q" "number_is_plain q" "insert_clamps q"
    "signs_not_letters q"
  using assms by (simp_all add: qt_documented_def)

lemma qt_decimal_documented [simp]: "qt_documented qt_decimal"
  by (simp add: qt_documented_def)

fun pass_accepts :: "qt \<Rightarrow> post_processor \<Rightarrow> item list \<Rightarrow> bool" where
  "pass_accepts q (FilterQtInternals classes) inp \<longleftrightarrow>
     inp = [] \<or> qs_text (item_targetClass (last inp)) \<notin> set classes"
| "pass_accepts q StripMouseMovements inp \<longleftrightarrow> \<not> second_last inp (\<lambda>i. method_is i ''moveMouse'')"
| "pass_accepts q SimplifyMouseMovements inp \<longleftrightarrow> True"
| "pass_accepts q SimplifyStrings inp \<longleftrightarrow> \<not> second_last inp (\<lambda>i. method_is i ''releaseKey'')"
| "pass_accepts q (ObjectVariables vars) inp \<longleftrightarrow> qt_documented q"
| "pass_accepts q (StringVariables vars) inp \<longleftrightarrow> True"

lemma strip_accepts:
  "\<not> second_last (it # inp) (\<lambda>i. method_is i ''moveMouse'') \<Longrightarrow>
   \<exists>it' inp'. process_StripMouseMovements it inp = Inr (it', inp') \<and>
     \<not> second_last inp' (\<lambda>i. method_is i ''moveMouse'')"
proof (induction it inp rule: process_StripMouseMovements.induct)
  case (3 it x y rest)
  from "3.prems" have "\<not> second_last (y # rest) (\<lambda>i. method_is i ''moveMouse'')"
    "\<not> second_last (x # y # rest) (\<lambda>i. method_is i ''moveMouse'')"
    by (auto dest: not_second_last_Cons)
  with 3 show ?case by auto
qed auto

lemma keys_loop_accepts:
  "\<not> second_last (it # inp) (\<lambda>i. method_is i ''releaseKey'') \<Longrightarrow> is_key_item it \<Longrightarrow>
   \<exists>r. keys_loop q target it ps s msec inp = Inr r \<and>
     \<not> second_last (snd (snd (snd r))) (\<lambda>i. method_is i ''releaseKey'')"
proof (induction q target it ps s msec inp rule: keys_loop.induct)
  case (3 q target it ps s msec x y rest)
  from "3.prems"(1) have "\<not> second_last (x # y # rest) (\<lambda>i. method_is i ''releaseKey'')"
    "\<not> second_last (y # rest) (\<lambda>i. method_is i ''releaseKey'')"
    "\<not> second_last rest (\<lambda>i. method_is i ''releaseKey'')"
    by (auto dest: not_second_last_Cons)
  with 3 show ?case by (auto simp: Let_def)
qed (auto simp: is_key_item_def)

text \<open>Enough rounds of the search for a free number always find one.\<close>

lemma free_count_finds:
  assumes "finite vals" and "inj (\<lambda>c. qarg pattern (qt_number q c))"
    and "card {c. count \<le> c \<and> qarg pattern (qt_number q c) \<in> vals} < fuel"
  shows "\<exists>c. free_count q pattern vals count fuel = Some c"
  using assms(3)
proof (induction fuel arbitrary: count)
  case (Suc fuel)
  let ?used = "\<lambda>n. {c. n \<le> c \<and> qarg pattern (qt_number q c) \<in> vals}"
  show ?case
  proof (cases "qarg pattern (qt_number q count) \<in> vals")
    case True
    have fin: "finite (?used n)" for n
    proof (rule finite_subset)
      show "?used n \<subseteq> (\<lambda>c. qarg pattern (qt_number q c)) -` vals" by auto
      show "finite ((\<lambda>c. qarg pattern (qt_number q c)) -` vals)"
        using assms(1,2) by (rule finite_vimageI)
    qed
    have "?used count = insert count (?used (count + 1))" using True by auto
    moreover have "count \<notin> ?used (count + 1)" by simp
    ultimately have "card (?used count) = Suc (card (?used (count + 1)))"
      using fin by simp
    with Suc True show ?thesis by simp
  qed simp
qed simp

lemma toKeyword_no_percent: "qt_documented q \<Longrightarrow> percent \<notin> set (toKeyword q s)"
  using qt_documentedD(5) [of q] by (auto simp: toKeyword_def signs_not_letters_def)

lemma qarg_numbered: "percent \<notin> set name \<Longrightarrow> qarg (name @ ''_%1'') a = name @ ''_'' @ a"
  using qarg_append [of "name @ ''_''" "''%1''" a] by (simp add: qarg_eval)

lemma free_count_returns:
  assumes "qt_documented q" and "percent \<notin> set name"
  shows "\<exists>c. free_count q (name @ ''_%1'') (set vals) 2 (Suc (length vals)) = Some c"
proof (rule free_count_finds)
  show inj: "inj (\<lambda>c. qarg (name @ ''_%1'') (qt_number q c))"
    using assms by (auto simp: qarg_numbered inj_def)
  let ?used = "{c. 2 \<le> c \<and> qarg (name @ ''_%1'') (qt_number q c) \<in> set vals}"
  have "card ?used \<le> card (set vals)"
    by (rule card_inj_on_le [OF inj_on_subset [OF inj]]) auto
  also have "\<dots> \<le> length vals" by (rule card_length)
  finally show "card ?used < Suc (length vals)" by simp
qed simp

lemma free_count_sound:
  "free_count q pattern vals count fuel = Some c \<Longrightarrow> qarg pattern (qt_number q c) \<notin> vals"
  by (induction q pattern vals count fuel rule: free_count.induct) (auto split: if_splits)

lemma variable_name_returns: "qt_documented q \<Longrightarrow> variable_name q vals target \<noteq> None"
  unfolding variable_name_def Let_def
  using free_count_returns [of q] toKeyword_no_percent [of q] by auto

lemma variable_name_fresh: "variable_name q vals target = Some n \<Longrightarrow> n \<notin> set vals"
  unfolding variable_name_def Let_def by (auto split: if_splits dest!: free_count_sound)

lemma object_variables_returns:
  "qt_documented q \<Longrightarrow> \<exists>r. process_ObjectVariables q vars it I = Inr r"
  using variable_name_returns [of q "map snd vars" "v_toString q (item_target it)"]
  by (auto simp: process_ObjectVariables_def Let_def split: option.split)

lemma simplify_strings_accepts:
  assumes "\<not> second_last (it # inp) (\<lambda>i. method_is i ''releaseKey'')"
  shows "\<exists>it' inp' I'. process_SimplifyStrings q it inp I = Inr (it', inp', I') \<and>
    \<not> second_last inp' (\<lambda>i. method_is i ''releaseKey'')"
proof (cases "method_is it ''pressKey''")
  case True
  then obtain r where "keys_loop q (item_target it) it (v_toMap (item_parameters it)) [] null_item inp = Inr r"
      "\<not> second_last (snd (snd (snd r))) (\<lambda>i. method_is i ''releaseKey'')"
    using keys_loop_accepts [OF assms] unfolding is_key_item_def by blast
  with True show ?thesis by (cases r) (simp add: process_SimplifyStrings_def)
next
  case False
  with not_second_last_Cons [OF assms] show ?thesis by (simp add: process_SimplifyStrings_def)
qed

interpretation accepting: pass_contract q "pass_accepts q" for q
proof
  fix p x inp I
  assume ok: "pass_accepts q p (x # inp)"
  show "\<exists>p' it inp' I'. process q p x inp I = Inr (p', it, inp', I') \<and> pass_accepts q p' inp'"
  proof (cases p)
    case (FilterQtInternals classes)
    with ok show ?thesis
      by (cases inp) (auto simp: process_def process_FilterQtInternals_def)
  next
    case StripMouseMovements
    with ok strip_accepts [of x inp] show ?thesis by (auto simp: process_def)
  next
    case SimplifyMouseMovements
    then show ?thesis
      by (cases "process_SimplifyMouseMovements q x inp I") (simp add: process_def)
  next
    case SimplifyStrings
    with ok simplify_strings_accepts [of x inp q I] show ?thesis by (auto simp: process_def)
  next
    case (ObjectVariables vars)
    with ok object_variables_returns [of q vars x I] show ?thesis by (auto simp: process_def)
  next
    case (StringVariables vars)
    then show ?thesis by (auto simp: process_def split: prod.splits)
  qed
qed

section \<open>The shape of a recording\<close>

definition is_sleep :: "item \<Rightarrow> bool" where
  "is_sleep i \<longleftrightarrow> method_is i ''msleep'' \<and> qs_isEmpty (item_targetClass i)"

definition is_move :: "item \<Rightarrow> bool" where
  "is_move i \<longleftrightarrow> method_is i ''moveMouse''"

definition is_internal :: "item \<Rightarrow> bool" where
  "is_internal i \<longleftrightarrow> qs_text (item_targetClass i) \<in> set internalClasses"

lemma sleep_is_no_event [simp]:
  assumes "is_sleep i"
  shows "\<not> is_move i" "\<not> is_internal i" "isValid i" "\<not> method_is i ''releaseKey''"
    "\<not> method_is i ''msec''"
  using assms by (auto simp: is_sleep_def is_move_def is_internal_def internalClasses_def
      isValid_def method_is_def qs_isEmpty_def)

text \<open>Between two events there is a sleep, and the last item is an event.\<close>

fun paced :: "item list \<Rightarrow> bool" where
  "paced [] \<longleftrightarrow> True"
| "paced [x] \<longleftrightarrow> \<not> is_sleep x"
| "paced (x # y # r) \<longleftrightarrow> (is_sleep x \<or> is_sleep y) \<and> paced (y # r)"

lemma paced_Cons: "paced (x # xs) \<Longrightarrow> paced xs"
  by (cases xs) simp_all

lemma paced_drop: "paced (xs @ ys) \<Longrightarrow> paced ys"
  by (induction xs) (auto dest: paced_Cons)

text \<open>
  A recording: paced, every item has a method, and the last event is neither a mouse movement
  nor sent to one of Qt's internal widgets.
\<close>

definition recording :: "item list \<Rightarrow> bool" where
  "recording items \<longleftrightarrow> paced items \<and> list_all isValid items \<and>
     (items \<noteq> [] \<longrightarrow> \<not> is_move (last items) \<and> \<not> is_internal (last items))"

lemma recording_Cons: "recording (x # xs) \<Longrightarrow> recording xs"
  unfolding recording_def by (auto dest: paced_Cons split: if_splits)

lemma paced_second_last: "paced xs \<Longrightarrow> second_last xs P \<Longrightarrow> second_last xs (\<lambda>i. is_sleep i \<and> P i)"
proof (induction xs rule: paced.induct)
  case (3 x y r)
  then show ?case by (cases r) auto
qed auto

lemma recording_accepted:
  assumes "recording items"
  shows "pass_accepts q (FilterQtInternals internalClasses) items"
    "pass_accepts q StripMouseMovements items" "pass_accepts q SimplifyStrings items"
proof -
  have sl: "\<not> second_last items P" if "\<And>i. is_sleep i \<Longrightarrow> \<not> P i" for P
    using assms paced_second_last [of items P] that by (auto simp: recording_def second_last_def)
  show "pass_accepts q (FilterQtInternals internalClasses) items"
    using assms by (auto simp: recording_def is_internal_def)
  show "pass_accepts q StripMouseMovements items"
    using sl [of "\<lambda>i. method_is i ''moveMouse''"] by (simp add: is_sleep_def method_is_def)
  show "pass_accepts q SimplifyStrings items"
    using sl [of "\<lambda>i. method_is i ''releaseKey''"] by simp
qed

subsection \<open>FilterQtInternals\<close>

lemma paced_filter:
  assumes "paced xs" and "\<And>x. is_sleep x \<Longrightarrow> P x" and "xs = [] \<or> P (last xs)"
  shows "paced (filter P xs)"
  using assms(1,3)
proof (induction xs rule: paced.induct)
  case (3 x y r)
  have "last (y # r) \<in> set (y # r)" "P (last (y # r))" using "3.prems"(2) by simp_all
  then have "filter P (y # r) \<noteq> []" unfolding filter_empty_conv by blast
  then obtain z zs where z: "filter P (y # r) = z # zs" by (cases "filter P (y # r)") auto
  have IH: "paced (filter P (y # r))" using 3 by simp
  show ?case
  proof (cases "is_sleep x \<or> \<not> P x")
    case True
    with IH z show ?thesis by (auto split: if_splits)
  next
    case False
    with "3.prems" assms(2) have "is_sleep y" "P y" by auto
    with IH False show ?thesis by simp
  qed
qed (auto split: if_splits)

lemma filter_pass:
  assumes "recording inp"
  shows "\<exists>I'. pass q (FilterQtInternals internalClasses) inp I = Inr I' \<and>
    m_rootList I' = m_rootList I @ filter (\<lambda>i. \<not> is_internal i) inp"
  using assms
proof (induction inp arbitrary: I)
  case (Cons x inp)
  note rec = recording_Cons [OF Cons.prems]
  have valid: "isValid x" using Cons.prems by (simp add: recording_def)
  show ?case
  proof (cases "is_internal x")
    case False
    then have "process q (FilterQtInternals internalClasses) x inp I =
        Inr (FilterQtInternals internalClasses, x, inp, I)"
      by (simp add: process_def process_FilterQtInternals_def is_internal_def)
    with Cons.IH [OF rec, of "Inserter_next (out_append x I)"] False valid show ?thesis
      by (simp add: inserter_defs)
  next
    case True
    with Cons.prems obtain y rest where inp: "inp = y # rest" and "is_sleep y"
      by (cases inp) (auto simp: recording_def)
    with True have "process q (FilterQtInternals internalClasses) x inp I =
        Inr (FilterQtInternals internalClasses, null_item, inp, I)"
      by (simp add: process_def process_FilterQtInternals_def is_internal_def)
    with Cons.IH [OF rec, of "Inserter_next I"] True show ?thesis by (simp add: inserter_defs)
  qed
qed simp

lemma filter_recording: "recording xs \<Longrightarrow> recording (filter (\<lambda>i. \<not> is_internal i) xs)"
proof -
  assume rec: "recording xs"
  then have "paced (filter (\<lambda>i. \<not> is_internal i) xs)"
    by (intro paced_filter) (auto simp: recording_def)
  moreover have "last (filter (\<lambda>i. \<not> is_internal i) xs) = last xs" if "xs \<noteq> []"
  proof -
    from that obtain ys l where xs: "xs = ys @ [l]" by (cases xs rule: rev_cases) auto
    with rec have "\<not> is_internal l" by (simp add: recording_def)
    with xs show ?thesis by simp
  qed
  ultimately show ?thesis using rec by (cases "xs = []") (simp_all add: recording_def list_all_iff)
qed

subsection \<open>StripMouseMovements\<close>

text \<open>
  The specification: a mouse movement goes away together with the sleep after it.
\<close>

function strip_moves :: "item list \<Rightarrow> item list" where
  "strip_moves [] = []"
| "strip_moves (x # xs) = (if is_move x then strip_moves (tl xs) else x # strip_moves xs)"
  by pat_completeness auto
termination by (relation "measure length") auto

lemma process_strip_moves:
  "process_StripMouseMovements it inp = Inr (it', inp') \<Longrightarrow> list_all isValid (it # inp) \<Longrightarrow>
   strip_moves (it # inp) = (if isValid it' then it' # strip_moves inp' else strip_moves inp') \<and>
   suffix inp' (it # inp)"
proof (induction it inp rule: process_StripMouseMovements.induct)
  case (3 it x y rest)
  then show ?case by (auto simp: is_move_def suffix_Cons split: if_splits)
qed (auto simp: is_move_def suffix_Cons split: if_splits)

lemma recording_suffix: "suffix ys xs \<Longrightarrow> recording xs \<Longrightarrow> recording ys"
  by (auto simp: suffix_def recording_def dest: paced_drop split: if_splits)

lemma strip_pass:
  "recording inp \<Longrightarrow> \<exists>I'. pass q StripMouseMovements inp I = Inr I' \<and>
    m_rootList I' = m_rootList I @ strip_moves inp"
proof (induction inp arbitrary: I rule: length_induct)
  case (1 inp)
  show ?case
  proof (cases inp)
    case (Cons x rest)
    with 1 have "pass_accepts q StripMouseMovements (x # rest)" by (simp only: recording_accepted)
    with strip_accepts obtain it' inp' where p: "process_StripMouseMovements x rest = Inr (it', inp')"
      unfolding pass_accepts.simps by blast
    have valid: "list_all isValid (x # rest)" using 1 Cons by (simp add: recording_def)
    note spec = process_strip_moves [OF p valid]
    have "length inp' < length inp" "recording inp'"
      using strip_length [OF p] spec recording_suffix [of inp' inp] 1 Cons by auto
    with 1 have "\<exists>I'. pass q StripMouseMovements inp' J = Inr I' \<and>
        m_rootList I' = m_rootList J @ strip_moves inp'" for J by blast
    then obtain I' where "pass q StripMouseMovements inp'
          (Inserter_next (if isValid it' then out_append it' I else I)) = Inr I'"
        "m_rootList I' = m_rootList (Inserter_next (if isValid it' then out_append it' I else I)) @
          strip_moves inp'"
      by blast
    with p spec Cons show ?thesis
      by (auto simp: process_def inserter_defs split: if_splits)
  qed simp
qed

text \<open>What is left is a recording without mouse movements.\<close>

lemma strip_moves_shape:
  "recording xs \<Longrightarrow> recording (strip_moves xs) \<and> (xs \<noteq> [] \<longrightarrow> strip_moves xs \<noteq> [] \<and>
     last (strip_moves xs) = last xs \<and> (is_sleep (hd xs) \<longrightarrow> hd (strip_moves xs) = hd xs))"
proof (induction xs rule: strip_moves.induct)
  case (2 x xs)
  show ?case
  proof (cases "is_move x")
    case True
    with "2.prems" obtain y ys where xs: "xs = y # ys" "ys \<noteq> []" "is_sleep y"
      by (cases xs rule: paced.cases) (auto simp: recording_def)
    with "2.prems" have "recording ys" by (blast dest: recording_Cons)
    with 2 True xs show ?thesis by auto
  next
    case False
    with 2 recording_Cons [OF "2.prems"] show ?thesis
      by (cases xs; cases "strip_moves xs") (auto simp: recording_def split: if_splits)
  qed
qed (simp add: recording_def)

subsection \<open>SimplifyMouseMovements\<close>

lemma moves_loop_split:
  "recording (it # inp) \<Longrightarrow> is_move it \<Longrightarrow>
   \<exists>ys it' ps' d' inp'. moves_loop q target it0 ps d inp = (it', ps', d', inp') \<and>
     inp = ys @ it' # inp' \<and> inp' \<noteq> [] \<and> is_sleep it'"
proof (induction inp arbitrary: it it0 ps d rule: length_induct)
  case (1 inp)
  then obtain m y rest where inp: "inp = m # y # rest" "is_sleep m"
    by (cases inp rule: paced.cases) (auto simp: recording_def)
  show ?case
  proof (cases "\<not> method_is y ''moveMouse'' \<or> \<not> v_eq (item_target y) target")
    case True
    then have "moves_loop q target it0 ps d inp =
        (m, ps, d + v_toInt q (item_parameters m), y # rest)" using inp by (auto simp: Let_def)
    with inp show ?thesis by auto
  next
    case False
    have "recording (y # rest)" "is_move y"
      using 1 False inp by (auto simp: is_move_def dest: recording_Cons)
    then obtain ys it' ps' d' inp' where
        "moves_loop q target y (v_toMap (item_parameters y)) (d + v_toInt q (item_parameters m)) rest =
           (it', ps', d', inp')" "rest = ys @ it' # inp'" "inp' \<noteq> []" "is_sleep it'"
      using 1 inp by (metis length_Cons less_Suc_eq)
    with False inp show ?thesis
      by (intro exI [of _ "m # y # ys"]) (auto simp: Let_def)
  qed
qed

text \<open>The pass ends with the last sleep and the last event, wherever it inserts.\<close>

definition ends_paced :: "inserter \<Rightarrow> item list \<Rightarrow> inserter \<Rightarrow> bool" where
  "ends_paced I inp I' \<longleftrightarrow> (\<exists>pre. m_rootList I' = pre @ [last inp] \<and>
     (if tl inp = [] then pre = m_rootList I else pre \<noteq> [] \<and> is_sleep (last pre)))"

lemma ends_paced_append:
  assumes "ends_paced (Inserter_next (out_append s J)) inp I'" and "is_sleep s"
    and "last inp = last inp2" and "tl inp2 \<noteq> []"
  shows "ends_paced I inp2 I'"
  using assms by (auto simp: ends_paced_def inserter_defs split: if_splits)

lemma simplify_move_step:
  assumes "is_move x" and "isValid it'"
    and "moves_loop q (item_target x) x (v_toMap (item_parameters x)) 0 rest = (it', ps', d', inp')"
  shows "\<exists>J. pass q SimplifyMouseMovements (x # rest) I =
    pass q SimplifyMouseMovements inp' (Inserter_next (out_append it' J))"
  using assms by (auto simp: process_def process_SimplifyMouseMovements_def is_move_def Let_def)

lemma simplify_moves_pass:
  "recording inp \<Longrightarrow> inp \<noteq> [] \<Longrightarrow>
   \<exists>I'. pass q SimplifyMouseMovements inp I = Inr I' \<and> ends_paced I inp I'"
proof (induction inp arbitrary: I rule: length_induct)
  case (1 inp)
  then obtain x rest where inp: "inp = x # rest" by (cases inp) auto
  have valid: "isValid x" using 1 inp by (simp add: recording_def)
  show ?case
  proof (cases "is_move x")
    case True
    with 1(2) inp obtain ys it' ps' d' inp' where
        loop: "moves_loop q (item_target x) x (v_toMap (item_parameters x)) 0 rest = (it', ps', d', inp')"
        and parts: "rest = ys @ it' # inp'" "inp' \<noteq> []" "is_sleep it'"
      using moves_loop_split by metis
    obtain J where J: "pass q SimplifyMouseMovements inp I =
        pass q SimplifyMouseMovements inp' (Inserter_next (out_append it' J))"
      using simplify_move_step [OF True _ loop, of I] parts(3) inp by auto
    have "recording inp'"
      using 1(2) unfolding inp parts(1) by (rule recording_suffix [rotated]) (simp add: suffix_def)
    with 1(1) inp parts(1,2) obtain I' where
        "pass q SimplifyMouseMovements inp' (Inserter_next (out_append it' J)) = Inr I'"
        "ends_paced (Inserter_next (out_append it' J)) inp' I'"
      by (metis length_append length_Cons less_Suc_eq less_add_Suc2 add_Suc_right less_SucI)
    with J parts inp show ?thesis
      by (metis ends_paced_append append_is_Nil_conv last_ConsR last_appendR list.distinct(1) list.sel(3))
  next
    case False
    then have step: "pass q SimplifyMouseMovements inp I =
        pass q SimplifyMouseMovements rest (Inserter_next (out_append x I))"
      using inp valid by (simp add: process_def process_SimplifyMouseMovements_def is_move_def)
    show ?thesis
    proof (cases "rest = []")
      case True
      with step inp show ?thesis by (simp add: inserter_defs ends_paced_def)
    next
      case rest: False
      have "recording rest" using 1(2) inp by (blast dest: recording_Cons)
      with 1(1) inp rest obtain I' where "pass q SimplifyMouseMovements rest
          (Inserter_next (out_append x I)) = Inr I'" "ends_paced (Inserter_next (out_append x I)) rest I'"
        by fastforce
      moreover have "is_sleep x" if "tl rest = []"
        using 1(2) inp rest that by (cases rest) (auto simp: recording_def)
      ultimately show ?thesis using step inp rest
        by (auto simp: ends_paced_def inserter_defs split: if_splits)
    qed
  qed
qed

section \<open>Every option turns a recording into a script\<close>

lemma run_step:
  assumes "pass q p inp (out_clear I) = Inr I'"
    and "\<exists>r. run_processors q ps (m_rootList I') (Inserter_reset I') = Inr r"
  shows "\<exists>r. run_processors q (p # ps) inp I = Inr r"
  using assms by simp

lemma run_accepting:
  assumes "pass_accepts q p inp" and "\<And>inp I. \<exists>r. run_processors q ps inp I = Inr r"
  shows "\<exists>r. run_processors q (p # ps) inp I = Inr r"
  using accepting.pass_returns [OF assms(1)] assms(2) run_step by metis

text \<open>The stages of \<open>itemString\<close> from the last one to the first.\<close>

lemma variable_stages_return:
  assumes "qt_documented q"
  shows "\<exists>r. run_processors q ((if c then [ObjectVariables []] else []) @
    (if d then [StringVariables []] else [])) inp I = Inr r"
proof -
  have s: "\<exists>r. run_processors q (if d then [StringVariables []] else []) inp I = Inr r" for inp I
    using run_accepting [of q "StringVariables []" inp "[]" I] by simp
  then show ?thesis
    using run_accepting [of q "ObjectVariables []" inp "if d then [StringVariables []] else []" I] assms
    by (cases c) simp_all
qed

lemma string_stages_return:
  assumes "qt_documented q" and "\<not> second_last inp (\<lambda>i. method_is i ''releaseKey'')"
  shows "\<exists>r. run_processors q ((if b then [SimplifyStrings] else []) @
    (if c then [ObjectVariables []] else []) @ (if d then [StringVariables []] else [])) inp I = Inr r"
  using run_accepting [of q SimplifyStrings inp _ I, OF _ variable_stages_return] assms
    variable_stages_return [OF assms(1)] by (cases b) simp_all

lemma move_stages_return:
  assumes "qt_documented q" and "recording inp"
  shows "\<exists>r. run_processors q ((if a then [SimplifyMouseMovements] else []) @
    (if b then [SimplifyStrings] else []) @ (if c then [ObjectVariables []] else []) @
    (if d then [StringVariables []] else [])) inp I = Inr r"
proof (cases "a \<and> inp \<noteq> []")
  case True
  then obtain I' where p: "pass q SimplifyMouseMovements inp (out_clear I) = Inr I'"
      and e: "ends_paced (out_clear I) inp I'"
    using simplify_moves_pass [OF assms(2)] by blast
  from e have "\<not> second_last (m_rootList I') (\<lambda>i. method_is i ''releaseKey'')"
    by (auto simp: ends_paced_def second_last_def out_clear_def append_eq_append_conv2
        Cons_eq_append_conv append_eq_Cons_conv split: if_splits)
  then show ?thesis
    using True run_step [OF p string_stages_return [OF assms(1)]] by simp
next
  case False
  have "\<not> second_last inp (\<lambda>i. method_is i ''releaseKey'')"
    using recording_accepted(3) [OF assms(2)] by simp
  moreover have "pass q SimplifyMouseMovements [] (out_clear I) = Inr (out_clear I)" by simp
  ultimately show ?thesis using False string_stages_return [OF assms(1)]
      run_step [OF _ string_stages_return [OF assms(1)], of SimplifyMouseMovements "[]" I "out_clear I"]
    by (cases a) (auto simp: out_clear_def)
qed

lemma strip_stages_return:
  assumes "qt_documented q" and "recording inp"
  shows "\<exists>r. run_processors q ((if s then [StripMouseMovements] else []) @
    (if a then [SimplifyMouseMovements] else []) @ (if b then [SimplifyStrings] else []) @
    (if c then [ObjectVariables []] else []) @ (if d then [StringVariables []] else [])) inp I = Inr r"
proof (cases s)
  case True
  from strip_pass [OF assms(2), of q "out_clear I"] obtain I' where
      p: "pass q StripMouseMovements inp (out_clear I) = Inr I'" "m_rootList I' = strip_moves inp"
    by (auto simp: out_clear_def)
  moreover have "recording (strip_moves inp)" using strip_moves_shape [OF assms(2)] by simp
  ultimately show ?thesis
    using True run_step [OF p(1) move_stages_return [OF assms(1)]] by simp
qed (use move_stages_return [OF assms] in simp)

text \<open>
  C9. Whatever options are chosen, a recording is turned into a script: no post-processor
  reads from an empty list and the search for a variable name ends. A recording has a sleep
  between two events, and its last event is neither a mouse movement nor one of an internal
  widget.
\<close>

theorem itemString_returns:
  assumes "qt_documented q" and "recording items"
  shows "\<exists>script. itemString q options items = Inr script"
proof -
  have "\<exists>r. run_processors q (postProcessors options) items (new_Inserter []) = Inr r"
  proof (cases "options AND opt_FilterQtInternals \<noteq> 0")
    case True
    from filter_pass [OF assms(2), of q "out_clear (new_Inserter [])"] obtain I' where
        p: "pass q (FilterQtInternals internalClasses) items (out_clear (new_Inserter [])) = Inr I'"
          "m_rootList I' = filter (\<lambda>i. \<not> is_internal i) items"
      by (auto simp: out_clear_def)
    with filter_recording [OF assms(2)] have "recording (m_rootList I')" by simp
    from run_step [OF p(1) strip_stages_return [OF assms(1) this]] True show ?thesis
      unfolding postProcessors_def by (simp only: not_False_eq_True if_True append.simps)
  next
    case False
    with strip_stages_return [OF assms] show ?thesis
      unfolding postProcessors_def by (simp only: not_True_eq_False if_False append.simps)
  qed
  then show ?thesis by (auto simp: itemString_def processed_items_def)
qed

definition key_item :: "qtext \<Rightarrow> qtext \<Rightarrow> int \<Rightarrow> qtext \<Rightarrow> item" where
  "key_item method target key text =
     full_item (VString (Some target)) (Some ''QLineEdit'') method
       (VMap (qm_of [(''key'', VKey key), (''text'', VString (Some text)),
          (''modifiers'', VKeyboardModifiers 0)]))"

definition sleep_item :: "int \<Rightarrow> item" where
  "sleep_item n = method_item ''msleep'' (VInt n)"

definition typed_items :: "item list" where
  "typed_items =
     [sleep_item 10, key_item ''pressKey'' ''Main::edit'' 65 ''a'',
      sleep_item 20, key_item ''releaseKey'' ''Main::edit'' 65 ''a'']"

theorem itemString_returns_witness:
  "recording typed_items \<and> (\<exists>script. itemString qt_decimal 63 typed_items = Inr script)"
proof -
  have "recording typed_items" by code_simp
  then show ?thesis using itemString_returns [OF qt_decimal_documented] by blast
qed

text \<open>
  The two conditions on the last event are needed. A recording that ends with a mouse movement
  after a key release makes \<open>SimplifyStrings\<close> read past the end of the list when
  \<open>StripMouseMovements\<close> has run before it; one that ends with an event of an internal widget
  makes \<open>FilterQtInternals\<close> look at the first item of an empty list.
\<close>

definition trailing_move :: "item list" where
  "trailing_move = typed_items @ [sleep_item 5,
     full_item (VString (Some ''Main'')) (Some ''QMainWindow'') ''moveMouse'' (VMap [])]"

definition trailing_internal :: "item list" where
  "trailing_internal = typed_items @ [sleep_item 5,
     full_item (VString (Some ''pixmap'')) (Some ''QShapedPixmapWidget'') ''moveMouse'' (VMap [])]"


section \<open>Filtering and stripping\<close>

lemma strip_moves_events:
  "paced xs \<Longrightarrow> filter (\<lambda>i. \<not> is_sleep i \<and> \<not> is_move i) (strip_moves xs) =
     filter (\<lambda>i. \<not> is_sleep i \<and> \<not> is_move i) xs \<and> list_all (\<lambda>i. \<not> is_move i) (strip_moves xs)"
proof (induction xs rule: strip_moves.induct)
  case (2 x xs)
  then show ?case
  proof (cases xs)
    case (Cons y ys)
    have "is_sleep y" if "is_move x" using 2 Cons that by auto
    with 2 Cons paced_Cons [of x xs] paced_Cons [of y ys] show ?thesis by auto
  qed auto
qed simp

text \<open>
  C11. Filtering Qt's internal widgets and skipping mouse movements removes exactly the events
  sent to such widgets and the mouse movements; the other events of a recording stay, in their
  order.
\<close>

theorem filter_and_skip_keep_events:
  assumes "recording items"
  shows "\<exists>out. processed_items q (opt_FilterQtInternals OR opt_SkipMouseMovements) items = Inr out \<and>
    filter (\<lambda>i. \<not> is_sleep i) out =
      filter (\<lambda>i. \<not> is_sleep i \<and> \<not> is_move i \<and> \<not> is_internal i) items"
proof -
  let ?kept = "filter (\<lambda>i. \<not> is_internal i) items"
  have rec: "recording ?kept" using assms by (rule filter_recording)
  obtain I' where p: "pass q (FilterQtInternals internalClasses) items (out_clear (new_Inserter [])) = Inr I'"
      "m_rootList I' = ?kept"
    using filter_pass [OF assms, of q "out_clear (new_Inserter [])"] by (auto simp: out_clear_def)
  obtain I'' where p': "pass q StripMouseMovements ?kept (out_clear (Inserter_reset I')) = Inr I''"
      "m_rootList I'' = strip_moves ?kept"
    using strip_pass [OF rec, of q "out_clear (Inserter_reset I')"] by (auto simp: out_clear_def)
  have "processed_items q (opt_FilterQtInternals OR opt_SkipMouseMovements) items = Inr (strip_moves ?kept)"
    using p p' by (simp add: processed_items_def postProcessors_def)
  moreover have "filter (\<lambda>i. \<not> is_sleep i) (strip_moves ?kept) =
      filter (\<lambda>i. \<not> is_sleep i \<and> \<not> is_move i) (strip_moves ?kept)"
  proof (rule filter_cong)
    fix i assume "i \<in> set (strip_moves ?kept)"
    then show "(\<not> is_sleep i) = (\<not> is_sleep i \<and> \<not> is_move i)"
      using strip_moves_events [of ?kept] rec by (simp add: recording_def list_all_iff)
  qed simp
  moreover have "filter (\<lambda>i. \<not> is_sleep i \<and> \<not> is_move i) (strip_moves ?kept) =
      filter (\<lambda>i. \<not> is_sleep i \<and> \<not> is_move i \<and> \<not> is_internal i) items"
    using strip_moves_events [of ?kept] rec by (simp add: recording_def conj_ac)
  ultimately show ?thesis by simp
qed

definition moved_items :: "item list" where
  "moved_items = [sleep_item 5,
     full_item (VString (Some ''Main'')) (Some ''QMainWindow'') ''moveMouse'' (VMap [])] @ typed_items"

theorem filter_and_skip_keep_events_witness:
  "recording moved_items \<and>
   (\<exists>out. processed_items qt_decimal (opt_FilterQtInternals OR opt_SkipMouseMovements) moved_items = Inr out \<and>
      filter (\<lambda>i. \<not> is_sleep i) out = [typed_items ! 1, typed_items ! 3])"
proof -
  have rec: "recording moved_items" by code_simp
  have events: "filter (\<lambda>i. \<not> is_sleep i \<and> \<not> is_move i \<and> \<not> is_internal i) moved_items =
    [typed_items ! 1, typed_items ! 3]" by code_simp
  from rec show ?thesis
    using filter_and_skip_keep_events [OF rec, of qt_decimal] unfolding events by blast
qed

end
