(* ===== verification/Script_Variables.thy ===== *)
theory Script_Variables
  imports Script_Safety
begin

text \<open>
  What the variables of a script stand for. The abstract specification executes the
  declarations of a script and replaces every variable by its value; a script whose object
  paths and strings were moved into variables must mean what it meant before.
\<close>

section \<open>Object variables\<close>

text \<open>A declaration \<open>var name = objectFromPath("path")\<close>: the name and the path.\<close>

definition object_declaration :: "item \<Rightarrow> (qtext \<times> qtext) option" where
  "object_declaration i = (case (item_target i, item_method i, item_parameters i) of
     (VInvalid, Some m, VString (Some t)) \<Rightarrow>
       if prefix ''var '' m \<and> suffix '' = objectFromPath'' m
       then Some (drop 4 (take (length m - 17) m), t) else None
   | _ \<Rightarrow> None)"

definition variable_target :: "item \<Rightarrow> qtext option" where
  "variable_target i = (case item_target i of VVariable n \<Rightarrow> Some n | _ \<Rightarrow> None)"

definition resolve_target :: "(qtext \<rightharpoonup> qtext) \<Rightarrow> item \<Rightarrow> item" where
  "resolve_target env i = (case variable_target i of
     None \<Rightarrow> i
   | Some n \<Rightarrow> (case env n of
       None \<Rightarrow> i
     | Some t \<Rightarrow> Item (VString (Some t)) (item_targetClass i) (item_method i) (item_parameters i)))"

text \<open>Running the declarations and replacing variables; a variable with no value stays.\<close>

fun resolve_objects :: "(qtext \<rightharpoonup> qtext) \<Rightarrow> item list \<Rightarrow> item list" where
  "resolve_objects env [] = []"
| "resolve_objects env (i # rest) = (case object_declaration i of
     Some (n, t) \<Rightarrow> resolve_objects (env(n \<mapsto> t)) rest
   | None \<Rightarrow> resolve_target env i # resolve_objects env rest)"

fun declared :: "(qtext \<rightharpoonup> qtext) \<Rightarrow> item list \<Rightarrow> (qtext \<rightharpoonup> qtext)" where
  "declared env [] = env"
| "declared env (i # rest) = (case object_declaration i of
     Some (n, t) \<Rightarrow> declared (env(n \<mapsto> t)) rest | None \<Rightarrow> declared env rest)"

definition used :: "item list \<Rightarrow> qtext set" where
  "used xs = {n. \<exists>i \<in> set xs. variable_target i = Some n}"

definition declared_names :: "item list \<Rightarrow> qtext set" where
  "declared_names xs = {n. \<exists>i \<in> set xs. \<exists>t. object_declaration i = Some (n, t)}"

lemma declaration_of [simp]:
  "object_declaration (method_item (qarg ''var %1 = objectFromPath'' n) (VString (Some t))) = Some (n, t)"
proof -
  have "qarg ''var %1 = objectFromPath'' n = ''var '' @ n @ '' = objectFromPath''"
    by (simp add: qarg_eval)
  then show ?thesis by (simp add: object_declaration_def suffix_def)
qed

lemma resolve_objects_append:
  "resolve_objects env (xs @ ys) = resolve_objects env xs @ resolve_objects (declared env xs) ys"
proof (induction xs arbitrary: env)
  case (Cons i xs)
  then show ?case by (cases "object_declaration i") (auto simp del: fun_upd_apply)
qed simp

lemma declared_append: "declared env (xs @ ys) = declared (declared env xs) ys"
proof (induction xs arbitrary: env)
  case (Cons i xs)
  then show ?case by (cases "object_declaration i") (auto simp del: fun_upd_apply)
qed simp

lemma resolve_target_cong:
  "(\<And>n. variable_target i = Some n \<Longrightarrow> env n = env' n) \<Longrightarrow> resolve_target env i = resolve_target env' i"
  by (auto simp: resolve_target_def split: option.splits)

lemma resolve_objects_cong:
  "(\<And>n. n \<in> used xs \<Longrightarrow> env n = env' n) \<Longrightarrow> resolve_objects env xs = resolve_objects env' xs"
proof (induction xs arbitrary: env env')
  case (Cons i xs)
  have target: "resolve_target env i = resolve_target env' i"
    using Cons.prems by (intro resolve_target_cong) (auto simp: used_def)
  have rest: "resolve_objects env xs = resolve_objects env' xs"
    using Cons.prems by (intro Cons.IH) (auto simp: used_def)
  have upd: "resolve_objects (env(n \<mapsto> t)) xs = resolve_objects (env'(n \<mapsto> t)) xs" for n t
    using Cons.prems by (intro Cons.IH) (auto simp: used_def)
  show ?case
  proof (cases "object_declaration i")
    case None
    with target rest show ?thesis by simp
  next
    case (Some r)
    with upd [of "fst r" "snd r"] show ?thesis by (cases r) (simp del: fun_upd_apply)
  qed
qed simp

lemma declared_upd:
  "n \<notin> declared_names xs \<Longrightarrow> declared (env(n \<mapsto> t)) xs = (declared env xs)(n \<mapsto> t)"
proof (induction xs arbitrary: env)
  case (Cons i xs)
  show ?case
  proof (cases "object_declaration i")
    case None
    with Cons show ?thesis by (simp add: declared_names_def)
  next
    case (Some r)
    obtain a b where r: "r = (a, b)" by (cases r)
    with Cons.prems Some have "a \<noteq> n" "n \<notin> declared_names xs" by (auto simp: declared_names_def)
    then have "declared (env(n \<mapsto> t, a \<mapsto> b)) xs = (declared (env(a \<mapsto> b)) xs)(n \<mapsto> t)"
      by (subst fun_upd_twist) (simp_all only: Cons.IH not_False_eq_True)
    with Some r show ?thesis by (simp del: fun_upd_apply)
  qed
qed simp

text \<open>A declaration of a fresh name may be put anywhere.\<close>

lemma insert_declaration:
  assumes "object_declaration d = Some (n, t)" and "variable_target d = None"
    and "n \<notin> used (xs @ ys)" and "n \<notin> declared_names (xs @ ys)"
  shows "resolve_objects env (xs @ d # ys) = resolve_objects env (xs @ ys)"
    and "declared env (xs @ d # ys) = (declared env (xs @ ys))(n \<mapsto> t)"
proof -
  have "resolve_objects ((declared env xs)(n \<mapsto> t)) ys = resolve_objects (declared env xs) ys"
    using assms(3) by (intro resolve_objects_cong) (auto simp: used_def)
  with assms(1) show "resolve_objects env (xs @ d # ys) = resolve_objects env (xs @ ys)"
    by (simp add: resolve_objects_append)
  show "declared env (xs @ d # ys) = (declared env (xs @ ys))(n \<mapsto> t)"
    using assms(1,4) declared_upd [of n ys "declared env xs" t]
    by (simp add: declared_append declared_names_def)
qed

text \<open>An item of a recording: its target is a path or nothing, and it declares nothing.\<close>

definition plain_target :: "item \<Rightarrow> bool" where
  "plain_target i \<longleftrightarrow> object_declaration i = None \<and> isValid i \<and>
     (case item_target i of VInvalid \<Rightarrow> True | VString s \<Rightarrow> True | _ \<Rightarrow> False)"

text \<open>What the pass has written so far stands for the items it has read.\<close>

definition objects_inv :: "(qtext \<times> qtext) list \<Rightarrow> item list \<Rightarrow> item list \<Rightarrow> bool" where
  "objects_inv vars out read \<longleftrightarrow>
     resolve_objects Map.empty out = read \<and>
     (\<forall>(t, n) \<in> set vars. declared Map.empty out n = Some t) \<and>
     used out \<subseteq> snd ` set vars \<and> declared_names out \<subseteq> snd ` set vars"

lemma objects_inv_insert:
  assumes "objects_inv vars out read" and "n \<notin> snd ` set vars"
  shows "objects_inv ((t, n) # vars)
    (qlist_insert q k (method_item (qarg ''var %1 = objectFromPath'' n) (VString (Some t))) out) read"
proof -
  let ?d = "method_item (qarg ''var %1 = objectFromPath'' n) (VString (Some t))"
  obtain xs ys where out: "out = xs @ ys" and ins: "qlist_insert q k ?d out = xs @ ?d # ys"
    unfolding qlist_insert_def Let_def using append_take_drop_id by metis
  have d: "object_declaration ?d = Some (n, t)" "variable_target ?d = None"
    by (simp_all add: variable_target_def)
  have fresh: "n \<notin> used (xs @ ys)" "n \<notin> declared_names (xs @ ys)"
    using assms out by (auto simp: objects_inv_def)
  have "used (xs @ ?d # ys) = used out"
    using d out by (auto simp: used_def)
  moreover have "declared_names (xs @ ?d # ys) = insert n (declared_names out)"
    using d out by (auto simp: declared_names_def)
  moreover have "resolve_objects Map.empty (xs @ ?d # ys) = read"
    using assms(1) insert_declaration(1) [OF d fresh] out by (simp add: objects_inv_def)
  moreover have "declared Map.empty (xs @ ?d # ys) m = (if m = n then Some t else declared Map.empty out m)" for m
    using insert_declaration(2) [OF d fresh, of Map.empty] out by simp
  ultimately show ?thesis
    using assms unfolding objects_inv_def ins by (auto simp: image_iff)
qed

lemma objects_inv_append:
  assumes "objects_inv vars out read" and "object_declaration i = None"
    and "\<And>n. variable_target i = Some n \<Longrightarrow> n \<in> snd ` set vars"
  shows "objects_inv vars (out @ [i]) (read @ [resolve_target (declared Map.empty out) i])"
  using assms unfolding objects_inv_def
  by (auto simp: resolve_objects_append declared_append used_def declared_names_def)

lemma resolve_known:
  assumes "objects_inv vars out read" and "(t, n) \<in> set vars"
    and "item_target x = VString (Some t)" and "x' = Item (VVariable n) (item_targetClass x) (item_method x) (item_parameters x)"
    and "object_declaration x = None"
  shows "objects_inv vars (out @ [x']) (read @ [x])"
proof -
  have "declared Map.empty out n = Some t" using assms(1,2) by (auto simp: objects_inv_def)
  with assms(3,4) have "resolve_target (declared Map.empty out) x' = x"
    by (cases x) (simp add: resolve_target_def variable_target_def)
  moreover have "objects_inv vars (out @ [x']) (read @ [resolve_target (declared Map.empty out) x'])"
    using assms by (intro objects_inv_append)
      (auto simp: object_declaration_def variable_target_def image_iff intro!: bexI [of _ "(t, n)"])
  ultimately show ?thesis by simp
qed

lemma process_objects_inv:
  assumes "qt_documented q" and inv: "objects_inv vars (m_rootList I) read" and x: "plain_target x"
  shows "\<exists>vars' it I'. process q (ObjectVariables vars) x inp I = Inr (ObjectVariables vars', it, inp, I') \<and>
    isValid it \<and> objects_inv vars' (m_rootList I' @ [it]) (read @ [x])"
proof (cases "item_target x = VString None \<or> item_target x = VInvalid")
  case True
  then have null: "v_isNull (item_target x)" by (auto simp: v_isNull_def)
  have "resolve_target (declared Map.empty (m_rootList I)) x = x"
    using True by (auto simp: resolve_target_def variable_target_def)
  moreover have "objects_inv vars (m_rootList I @ [x])
      (read @ [resolve_target (declared Map.empty (m_rootList I)) x])"
    using inv True x by (intro objects_inv_append) (auto simp: plain_target_def variable_target_def)
  ultimately show ?thesis
    using null x by (auto simp: process_def process_ObjectVariables_def plain_target_def)
next
  case False
  with x obtain t where t: "item_target x = VString (Some t)"
    by (auto simp: plain_target_def split: qvariant.splits option.splits)
  let ?x = "\<lambda>n. Item (VVariable n) (item_targetClass x) (item_method x) (item_parameters x)"
  have valid: "isValid (?x n)" for n using x by (simp add: plain_target_def isValid_def)
  have nodecl: "object_declaration x = None" using x by (simp add: plain_target_def)
  show ?thesis
  proof (cases "map_of vars t")
    case (Some n)
    then have "objects_inv vars (m_rootList I @ [?x n]) (read @ [x])"
      using resolve_known [OF inv map_of_SomeD t refl nodecl] by blast
    with Some t valid show ?thesis
      by (simp add: process_def process_ObjectVariables_def v_isNull_def canConvert_Variable_def v_toString_def)
  next
    case None
    obtain n where n: "variable_name q (map snd vars) t = Some n"
      using variable_name_returns [OF assms(1)] by blast
    let ?I = "Inserter_insert q (method_item (qarg ''var %1 = objectFromPath'' n) (VString (Some t)))
        BeforeCurrentItem I"
    have "n \<notin> snd ` set vars" using variable_name_fresh [OF n] by simp
    from objects_inv_insert [OF inv this] have "objects_inv ((t, n) # vars) (m_rootList ?I) read"
      by (simp add: Inserter_insert_def)
    from resolve_known [OF this _ t refl nodecl]
    have "objects_inv ((t, n) # vars) (m_rootList ?I @ [?x n]) (read @ [x])" by simp
    with None n t valid show ?thesis
      by (simp add: process_def process_ObjectVariables_def v_isNull_def canConvert_Variable_def v_toString_def)
  qed
qed

lemma pass_objects_inv:
  assumes "qt_documented q"
  shows "objects_inv vars (m_rootList I) read \<Longrightarrow> list_all plain_target inp \<Longrightarrow>
    \<exists>I' vars'. pass q (ObjectVariables vars) inp I = Inr I' \<and> objects_inv vars' (m_rootList I') (read @ inp)"
proof (induction inp arbitrary: vars I read)
  case (Cons x inp)
  then obtain vars' it I' where
      "process q (ObjectVariables vars) x inp I = Inr (ObjectVariables vars', it, inp, I')"
      "isValid it" "objects_inv vars' (m_rootList I' @ [it]) (read @ [x])"
    using process_objects_inv [OF assms, of vars I read x inp] by auto
  with Cons.IH [of vars' "Inserter_next (out_append it I')" "read @ [x]"] Cons.prems show ?case
    by (simp add: inserter_defs)
qed auto

text \<open>
  C12. Moving object paths into variables keeps the meaning of a script: running the
  declarations of the result and replacing the variables gives back the items, in whatever pass
  the post-processor runs, and however often a path occurs or two paths end alike.
\<close>

theorem object_variables_keep_meaning:
  assumes "qt_documented q" and "list_all plain_target items" and "m_rootList I = []"
  shows "\<exists>I'. pass q (ObjectVariables []) items I = Inr I' \<and>
    resolve_objects Map.empty (m_rootList I') = items"
proof -
  have "objects_inv [] (m_rootList I) []"
    using assms(3) by (simp add: objects_inv_def used_def declared_names_def)
  from pass_objects_inv [OF assms(1) this assms(2)] show ?thesis by (auto simp: objects_inv_def)
qed

definition two_edits :: "item list" where
  "two_edits =
     [key_item ''pressKey'' ''Main::edit'' 65 ''a'', sleep_item 3,
      key_item ''pressKey'' ''Other::edit'' 66 ''b'', key_item ''pressKey'' ''Main::edit'' 67 ''c'']"

theorem object_variables_keep_meaning_witness:
  "list_all plain_target two_edits \<and>
   (\<exists>I'. pass qt_decimal (ObjectVariables []) two_edits (new_Inserter []) = Inr I' \<and>
      resolve_objects Map.empty (m_rootList I') = two_edits)"
proof -
  have "list_all plain_target two_edits" by code_simp
  moreover have "m_rootList (new_Inserter []) = []" by (simp add: inserter_defs)
  ultimately show ?thesis
    using object_variables_keep_meaning [OF qt_decimal_documented] by blast
qed

section \<open>String variables\<close>

text \<open>A declaration \<open>var name = "literal"\<close>: the name and the value of the literal.\<close>

definition string_declaration :: "item \<Rightarrow> (qtext \<times> qtext) option" where
  "string_declaration i = (case item_method i of
     None \<Rightarrow> None
   | Some m \<Rightarrow>
       if prefix ''var '' m then
         let n = takeWhile (\<lambda>c. c \<noteq> CHR '' '') (drop 4 m);
             r = dropWhile (\<lambda>c. c \<noteq> CHR '' '') (drop 4 m)
         in if prefix ('' = '' @ [dquote]) r then
              (case scan_literal (drop 4 r) of Some (v, []) \<Rightarrow> Some (n, v) | _ \<Rightarrow> None)
            else None
       else None)"

definition variable_text :: "item \<Rightarrow> qtext option" where
  "variable_text i = (case item_parameters i of
     VVariable n \<Rightarrow> if method_is i ''sendText'' then Some n else None | _ \<Rightarrow> None)"

definition resolve_text :: "(qtext \<rightharpoonup> qtext) \<Rightarrow> item \<Rightarrow> item" where
  "resolve_text env i = (case variable_text i of
     None \<Rightarrow> i
   | Some n \<Rightarrow> (case env n of
       None \<Rightarrow> i
     | Some v \<Rightarrow> Item (item_target i) (item_targetClass i) (item_method i) (VString (Some v))))"

fun resolve_strings :: "(qtext \<rightharpoonup> qtext) \<Rightarrow> item list \<Rightarrow> item list" where
  "resolve_strings env [] = []"
| "resolve_strings env (i # rest) = (case string_declaration i of
     Some (n, v) \<Rightarrow> resolve_strings (env(n \<mapsto> v)) rest
   | None \<Rightarrow> resolve_text env i # resolve_strings env rest)"

text \<open>The declaration of the \<open>k\<close>-th string and the declarations of a list of strings.\<close>

definition string_name :: "qt \<Rightarrow> nat \<Rightarrow> qtext" where
  "string_name q k = ''string'' @ qt_number q (int k)"

definition string_decl :: "qt \<Rightarrow> nat \<Rightarrow> qtext \<Rightarrow> item" where
  "string_decl q k v =
     method_item (qarg (qarg (''var string%1 = '' @ [dquote] @ ''%2'' @ [dquote])
       (qt_number q (int k))) (escapeString v)) VInvalid"

definition string_decls :: "qt \<Rightarrow> qtext list \<Rightarrow> item list" where
  "string_decls q vars = map (\<lambda>k. string_decl q k (vars ! k)) [0..<length vars]"

definition string_env :: "qt \<Rightarrow> qtext list \<Rightarrow> (qtext \<rightharpoonup> qtext)" where
  "string_env q vars = map_of (map (\<lambda>k. (string_name q k, vars ! k)) [0..<length vars])"

lemma string_decls_simps [simp]:
  "string_decls q [] = []" "length (string_decls q vars) = length vars"
  "string_decls q (vars @ [v]) = string_decls q vars @ [string_decl q (length vars) v]"
  by (simp_all add: string_decls_def nth_append)

lemma string_name_inj: "number_distinct q \<Longrightarrow> string_name q j = string_name q k \<longleftrightarrow> j = k"
  by (simp add: string_name_def)

lemma string_env_snoc:
  assumes "number_distinct q"
  shows "string_env q (vars @ [v]) = (string_env q vars)(string_name q (length vars) \<mapsto> v)"
proof -
  have "string_env q vars (string_name q (length vars)) = None"
    using assms by (auto simp: string_env_def map_of_eq_None_iff string_name_inj)
  moreover have "map (\<lambda>k. (string_name q k, (vars @ [v]) ! k)) [0..<Suc (length vars)] =
      map (\<lambda>k. (string_name q k, vars ! k)) [0..<length vars] @ [(string_name q (length vars), v)]"
    by (simp add: nth_append)
  then have "string_env q (vars @ [v]) = [string_name q (length vars) \<mapsto> v] ++ string_env q vars"
    by (simp only: string_env_def length_append_singleton map_of_append map_of.simps fst_conv snd_conv)
  ultimately show ?thesis by (auto simp: fun_eq_iff map_add_def split: option.splits)
qed

lemma string_env_nth:
  "number_distinct q \<Longrightarrow> k < length vars \<Longrightarrow> string_env q vars (string_name q k) = Some (vars ! k)"
proof (induction vars rule: rev_induct)
  case (snoc v vars)
  then show ?case by (auto simp: string_env_snoc string_name_inj nth_append less_Suc_eq)
qed simp

lemma string_declaration_text:
  assumes "CHR '' '' \<notin> set n" and "scan_literal lit = Some (v, [])"
  shows "string_declaration (method_item (''var '' @ n @ '' = '' @ [dquote] @ lit) p) = Some (n, v)"
proof -
  have "takeWhile (\<lambda>c. c \<noteq> CHR '' '') (n @ '' = '' @ r) = n"
    "dropWhile (\<lambda>c. c \<noteq> CHR '' '') (n @ '' = '' @ r) = '' = '' @ r" for r
    using assms(1) by (auto simp: takeWhile_append dropWhile_append)
  with assms(2) show ?thesis by (simp add: string_declaration_def)
qed

lemma string_decl_method:
  assumes "number_is_plain q"
  shows "string_decl q k v =
    method_item (''var '' @ string_name q k @ '' = '' @ [dquote] @ escapeString v @ [dquote]) VInvalid"
proof -
  let ?n = "qt_number q (int k)"
  have "qarg (''var string%1 = '' @ [dquote] @ ''%2'' @ [dquote]) ?n =
      (''var string'' @ ?n @ '' = '' @ [dquote]) @ ''%2'' @ [dquote]"
    by (simp add: qarg_eval)
  moreover have "percent \<notin> set (''var string'' @ ?n @ '' = '' @ [dquote])" using assms by simp
  moreover have "qarg (''%2'' @ [dquote]) a = a @ [dquote]" for a by (simp add: qarg_eval)
  ultimately have "qarg (qarg (''var string%1 = '' @ [dquote] @ ''%2'' @ [dquote]) ?n) (escapeString v) =
      (''var string'' @ ?n @ '' = '' @ [dquote]) @ escapeString v @ [dquote]"
    by (simp only: qarg_append not_False_eq_True)
  then show ?thesis unfolding string_decl_def by (simp add: string_name_def)
qed

lemma string_declaration_decl [simp]:
  assumes "number_is_plain q"
  shows "string_declaration (string_decl q k v) = Some (string_name q k, v)"
  unfolding string_decl_method [OF assms]
  by (rule string_declaration_text)
     (use assms scan_escapeString_rest [of v "[]"] in \<open>simp_all add: string_name_def\<close>)

lemma resolve_strings_decls:
  assumes "number_is_plain q" and "number_distinct q"
  shows "resolve_strings Map.empty (string_decls q vars @ body) = resolve_strings (string_env q vars) body"
proof (induction vars arbitrary: body rule: rev_induct)
  case Nil
  then show ?case by (simp add: string_env_def)
next
  case (snoc v vars)
  then show ?case using assms by (simp add: string_env_snoc del: fun_upd_apply)
qed

lemma resolve_strings_map:
  "list_all (\<lambda>i. string_declaration i = None) body \<Longrightarrow> resolve_strings env body = map (resolve_text env) body"
  by (induction body) auto

lemma indexOf_found:
  "v \<in> set xs \<Longrightarrow> 0 \<le> indexOf xs v \<and> nat (indexOf xs v) < length xs \<and> xs ! nat (indexOf xs v) = v"
  by (induction xs) (auto simp: Let_def nth_Cons' nat_add_distrib)

text \<open>An item of a recording: it declares no string, and a text to type is a string.\<close>

definition plain_text :: "item \<Rightarrow> bool" where
  "plain_text i \<longleftrightarrow> string_declaration i = None \<and> isValid i \<and>
     (method_is i ''sendText'' \<longrightarrow> (\<exists>s. item_parameters i = VString (Some s)))"

text \<open>What the pass has written so far: the declarations, and the items it has read.\<close>

definition strings_inv :: "qt \<Rightarrow> qtext list \<Rightarrow> inserter \<Rightarrow> item list \<Rightarrow> bool" where
  "strings_inv q vars I read \<longleftrightarrow> m_originalStart I = int (length vars) \<and>
     (\<exists>body. m_rootList I = string_decls q vars @ body \<and>
        map (resolve_text (string_env q vars)) body = read \<and>
        list_all (\<lambda>i. string_declaration i = None) body \<and>
        (\<forall>i \<in> set body. \<forall>n. variable_text i = Some n \<longrightarrow> (\<exists>k < length vars. n = string_name q k)))"

lemma resolve_text_snoc:
  assumes "number_distinct q" and "\<And>n. variable_text i = Some n \<Longrightarrow> \<exists>k < length vars. n = string_name q k"
  shows "resolve_text (string_env q (vars @ [v])) i = resolve_text (string_env q vars) i"
  using assms(2)
  by (auto simp: resolve_text_def string_env_snoc [OF assms(1)] string_name_inj [OF assms(1)]
      split: option.splits)

lemma strings_inv_declare:
  assumes "qt_documented q" and "strings_inv q vars I read"
  shows "strings_inv q (vars @ [v]) (Inserter_insert q (string_decl q (length vars) v) Beginning I) read"
proof -
  from assms(2) obtain body where body: "m_originalStart I = int (length vars)"
      "m_rootList I = string_decls q vars @ body" "map (resolve_text (string_env q vars)) body = read"
      "list_all (\<lambda>i. string_declaration i = None) body"
      "\<forall>i \<in> set body. \<forall>n. variable_text i = Some n \<longrightarrow> (\<exists>k < length vars. n = string_name q k)"
    by (auto simp: strings_inv_def)
  have "map (resolve_text (string_env q (vars @ [v]))) body = read"
    unfolding body(3) [symmetric] using body(5) assms(1) by (auto intro!: resolve_text_snoc)
  moreover have "qlist_insert q (int (length vars)) (string_decl q (length vars) v) (string_decls q vars @ body) =
      string_decls q (vars @ [v]) @ body"
    using assms(1) by (simp add: qlist_insert_def Let_def)
  ultimately show ?thesis
    using body unfolding strings_inv_def
    by (intro conjI exI [of _ body]) (auto simp: Inserter_insert_def less_Suc_eq)
qed

lemma strings_inv_append:
  assumes "strings_inv q vars I read" and "string_declaration i = None"
    and "\<And>n. variable_text i = Some n \<Longrightarrow> \<exists>k < length vars. n = string_name q k"
  shows "strings_inv q vars (Inserter_next (out_append i I)) (read @ [resolve_text (string_env q vars) i])"
  using assms unfolding strings_inv_def by (fastforce simp: out_append_def Inserter_next_def)

lemma process_strings_inv:
  assumes doc: "qt_documented q" and inv: "strings_inv q vars I read" and x: "plain_text x"
  shows "\<exists>vars' it I'. process q (StringVariables vars) x inp I = Inr (StringVariables vars', it, inp, I') \<and>
    isValid it \<and> strings_inv q vars' (Inserter_next (out_append it I')) (read @ [x])"
proof (cases "method_is x ''sendText''")
  case False
  then have "variable_text x = None" by (auto simp: variable_text_def split: qvariant.splits)
  with strings_inv_append [OF inv, of x] x False show ?thesis
    by (auto simp: process_def process_StringVariables_def plain_text_def resolve_text_def)
next
  case True
  with x obtain s where s: "item_parameters x = VString (Some s)" by (auto simp: plain_text_def)
  define vars' where "vars' = (if s \<in> set vars then vars else vars @ [s])"
  define I' where "I' = (if s \<in> set vars then I
    else Inserter_insert q (string_decl q (length vars) s) Beginning I)"
  define it where "it = Item (item_target x) (item_targetClass x) (item_method x)
    (VVariable (string_name q (nat (indexOf vars' s))))"
  have "s \<in> set vars'" by (simp add: vars'_def)
  note found = indexOf_found [OF this]
  have "qarg ''string%1'' (qt_number q (indexOf vars' s)) = string_name q (nat (indexOf vars' s))"
    using found by (simp add: qarg_eval string_name_def)
  then have step: "process q (StringVariables vars) x inp I = Inr (StringVariables vars', it, inp, I')"
    using True s by (cases x) (auto simp: process_def process_StringVariables_def vars'_def I'_def it_def
        v_toString_def string_decl_def Let_def)
  have "strings_inv q vars' I' read"
    using inv strings_inv_declare [OF doc inv] by (simp add: vars'_def I'_def)
  moreover have "string_declaration it = None"
    using x by (simp add: it_def string_declaration_def plain_text_def)
  moreover have "variable_text it = Some (string_name q (nat (indexOf vars' s)))"
    using True by (simp add: variable_text_def it_def method_is_def)
  ultimately have "strings_inv q vars' (Inserter_next (out_append it I')) (read @ [resolve_text (string_env q vars') it])"
    using found by (intro strings_inv_append) auto
  moreover have "resolve_text (string_env q vars') it = x"
    using \<open>variable_text it = _\<close> found doc s
    by (cases x) (simp add: resolve_text_def string_env_nth it_def)
  ultimately show ?thesis using step x by (auto simp: it_def isValid_def plain_text_def)
qed

lemma pass_strings_inv:
  assumes "qt_documented q"
  shows "strings_inv q vars I read \<Longrightarrow> list_all plain_text inp \<Longrightarrow>
    \<exists>I' vars'. pass q (StringVariables vars) inp I = Inr I' \<and> strings_inv q vars' I' (read @ inp)"
proof (induction inp arbitrary: vars I read)
  case (Cons x inp)
  then obtain vars' it I' where
      "process q (StringVariables vars) x inp I = Inr (StringVariables vars', it, inp, I')"
      "isValid it" "strings_inv q vars' (Inserter_next (out_append it I')) (read @ [x])"
    using process_strings_inv [OF assms, of vars I read x inp] by auto
  with Cons.IH [of vars' "Inserter_next (out_append it I')" "read @ [x]"] Cons.prems show ?case
    by simp
qed auto

text \<open>
  C13. Moving typed texts into variables keeps the meaning of a script: the declarations come
  first, each text is declared once, and running them and replacing the variables gives back the
  items.
\<close>

theorem string_variables_keep_meaning:
  assumes "qt_documented q" and "list_all plain_text items"
    and "m_rootList I = []" and "m_originalStart I = 0"
  shows "\<exists>I' vars body. pass q (StringVariables []) items I = Inr I' \<and>
    m_rootList I' = string_decls q vars @ body \<and> length body = length items \<and>
    resolve_strings Map.empty (m_rootList I') = items"
proof -
  have "strings_inv q [] I []"
    using assms(3,4) by (simp add: strings_inv_def)
  from pass_strings_inv [OF assms(1) this assms(2)] obtain I' vars body where
      r: "pass q (StringVariables []) items I = Inr I'" "m_rootList I' = string_decls q vars @ body"
        "map (resolve_text (string_env q vars)) body = items"
        "list_all (\<lambda>i. string_declaration i = None) body"
    unfolding strings_inv_def by auto
  have "resolve_strings Map.empty (m_rootList I') = items"
    unfolding r(2) using assms(1) r(3,4) by (simp add: resolve_strings_decls resolve_strings_map)
  moreover have "length body = length items" using r(3) by (metis length_map)
  ultimately show ?thesis using r(1,2) by blast
qed

definition two_texts :: "item list" where
  "two_texts =
     [full_item (VString (Some ''Main'')) None ''sendText'' (VString (Some ''hi'')), sleep_item 3,
      full_item (VString (Some ''Main'')) None ''sendText'' (VString (Some [dquote])),
      full_item (VString (Some ''Main'')) None ''sendText'' (VString (Some ''hi''))]"

theorem string_variables_keep_meaning_witness:
  "\<exists>I' vars body. pass qt_decimal (StringVariables []) two_texts (new_Inserter []) = Inr I' \<and>
     m_rootList I' = string_decls qt_decimal vars @ body \<and> length body = length two_texts \<and>
     resolve_strings Map.empty (m_rootList I') = two_texts"
proof -
  have "list_all plain_text two_texts"
    by (simp add: two_texts_def plain_text_def string_declaration_def sleep_item_def method_is_def)
  then show ?thesis
    by (rule string_variables_keep_meaning [OF qt_decimal_documented]) (simp_all add: inserter_defs)
qed

end
