(* ===== verification/Script_Inserts.thy ===== *)
theory Script_Inserts
  imports Script_Variables
begin

text \<open>
  Where the post-processors insert and what they insert: the bookkeeping of \<open>Item::Inserter\<close>
  against its contract (an item inserted before the current one), and the functional behaviour
  of \<open>SimplifyMouseMovements\<close> and \<open>SimplifyStrings\<close> on a run of movements and of keys.
\<close>

section \<open>Insertion before the current item\<close>

definition empty_out :: inserter where
  "empty_out = \<lparr>m_rootList = [], m_originalStart = 0, m_itemIndex = 0, m_appendedItems = 0\<rparr>"

text \<open>
  The specification of a pass: for every item taken from the input, what its processing inserts
  into an empty list, then the item itself.
\<close>

inductive written :: "qt \<Rightarrow> post_processor \<Rightarrow> item list \<Rightarrow> item list \<Rightarrow> bool" for q where
  written_Nil: "written q p [] []"
| written_Cons: "process q p x inp empty_out = Inr (p', it, inp', J) \<Longrightarrow> written q p' inp' out \<Longrightarrow>
    written q p (x # inp) (m_rootList J @ (if isValid it then [it] else []) @ out)"

inductive_cases written_ConsE: "written q p (x # inp) out"

text \<open>
  A post-processor that only inserts before the current item: with the index behind the end
  of the output, what it does to the output does not depend on the output.
\<close>

locale local_inserts =
  fixes q :: qt
    and inserts :: "post_processor \<Rightarrow> bool"
  assumes frame: "inserts p \<Longrightarrow> process q p x inp I = Inr (p', it, inp', I') \<Longrightarrow>
      int (length (m_rootList I)) \<le> m_itemIndex I \<Longrightarrow>
      inserts p' \<and> (\<exists>J. process q p x inp empty_out = Inr (p', it, inp', J) \<and>
        m_rootList I' = m_rootList I @ m_rootList J \<and>
        m_itemIndex I' = m_itemIndex I + int (length (m_rootList J)) \<and>
        m_appendedItems I' = m_appendedItems I)"
begin

lemma pass_written:
  "inserts p \<Longrightarrow> pass q p inp I = Inr I' \<Longrightarrow>
   int (length (m_rootList I)) \<le> m_itemIndex I \<Longrightarrow> 0 \<le> m_appendedItems I \<Longrightarrow>
   \<exists>out. written q p inp out \<and> m_rootList I' = m_rootList I @ out"
proof (induction inp arbitrary: p I rule: length_induct)
  case (1 inp)
  show ?case
  proof (cases inp)
    case Nil
    with 1 show ?thesis by (auto intro: written_Nil)
  next
    case (Cons x rest)
    with 1(3) obtain p' it rest' I1 where step: "process q p x rest I = Inr (p', it, rest', I1)"
      by (auto split: sum.splits)
    define I2 where "I2 = Inserter_next (if isValid it then out_append it I1 else I1)"
    from frame [OF 1(2) step 1(4)] obtain J where ok: "inserts p'"
        and J: "process q p x rest empty_out = Inr (p', it, rest', J)"
          "m_rootList I1 = m_rootList I @ m_rootList J"
          "m_itemIndex I1 = m_itemIndex I + int (length (m_rootList J))"
          "m_appendedItems I1 = m_appendedItems I" by blast
    have I2: "m_rootList I2 = m_rootList I @ m_rootList J @ (if isValid it then [it] else [])"
      "int (length (m_rootList I2)) \<le> m_itemIndex I2" "0 \<le> m_appendedItems I2"
      using J 1(4,5) by (auto simp: I2_def inserter_defs)
    have "pass q p' rest' I2 = Inr I'" using 1(3) Cons step by (simp add: I2_def)
    moreover have "length rest' < length inp" using process_length [OF step] Cons by simp
    ultimately obtain out where "written q p' rest' out" "m_rootList I' = m_rootList I2 @ out"
      using 1(1) ok I2 by blast
    with written_Cons [OF J(1)] I2(1) Cons show ?thesis by auto
  qed
qed

end

lemma insert_at_end:
  assumes "insert_clamps q" and "int (length (m_rootList I)) \<le> m_itemIndex I"
  shows "m_rootList (Inserter_insert q i BeforeCurrentItem I) = m_rootList I @ [i]"
    "m_itemIndex (Inserter_insert q i BeforeCurrentItem I) = m_itemIndex I + 1"
    "m_appendedItems (Inserter_insert q i BeforeCurrentItem I) = m_appendedItems I"
  using assms by (simp_all add: Inserter_insert_def qlist_insert_end)

definition inserts_locally :: "qt \<Rightarrow> post_processor \<Rightarrow> bool" where
  "inserts_locally q p \<longleftrightarrow> insert_clamps q \<and> (case p of StringVariables vars \<Rightarrow> False | _ \<Rightarrow> True)"

lemma empty_out_simps [simp]:
  "m_rootList empty_out = []" "m_itemIndex empty_out = 0" "m_appendedItems empty_out = 0"
  by (simp_all add: empty_out_def)

lemma simplify_strings_frame:
  assumes "insert_clamps q" and "int (length (m_rootList I)) \<le> m_itemIndex I"
    and "process_SimplifyStrings q x inp I = Inr (it, inp', I')"
  shows "\<exists>J. process_SimplifyStrings q x inp empty_out = Inr (it, inp', J) \<and>
    m_rootList I' = m_rootList I @ m_rootList J \<and>
    m_itemIndex I' = m_itemIndex I + int (length (m_rootList J)) \<and> m_appendedItems I' = m_appendedItems I"
  using assms unfolding process_SimplifyStrings_def
  by (auto simp: insert_at_end [OF assms(1)] split: if_splits sum.splits)

lemma object_variables_frame:
  assumes "insert_clamps q" and "int (length (m_rootList I)) \<le> m_itemIndex I"
    and "process_ObjectVariables q vars x I = Inr (vars', it, I')"
  shows "\<exists>J. process_ObjectVariables q vars x empty_out = Inr (vars', it, J) \<and>
    m_rootList I' = m_rootList I @ m_rootList J \<and>
    m_itemIndex I' = m_itemIndex I + int (length (m_rootList J)) \<and> m_appendedItems I' = m_appendedItems I"
  using assms unfolding process_ObjectVariables_def
  by (auto simp: insert_at_end [OF assms(1)] Let_def split: if_splits option.splits)

interpretation inserting: local_inserts q "inserts_locally q" for q
proof
  fix p x inp I p' it inp' I'
  assume ok: "inserts_locally q p" and step: "process q p x inp I = Inr (p', it, inp', I')"
    and idx: "int (length (m_rootList I)) \<le> m_itemIndex I"
  have clamps: "insert_clamps q" using ok by (simp add: inserts_locally_def)
  show "inserts_locally q p' \<and> (\<exists>J. process q p x inp empty_out = Inr (p', it, inp', J) \<and>
        m_rootList I' = m_rootList I @ m_rootList J \<and>
        m_itemIndex I' = m_itemIndex I + int (length (m_rootList J)) \<and>
        m_appendedItems I' = m_appendedItems I)"
  proof (cases p)
    case (FilterQtInternals classes)
    with step clamps show ?thesis
      by (cases "process_FilterQtInternals classes x inp") (auto simp: process_def inserts_locally_def)
  next
    case StripMouseMovements
    with step clamps show ?thesis
      by (cases "process_StripMouseMovements x inp") (auto simp: process_def inserts_locally_def)
  next
    case SimplifyMouseMovements
    with step clamps idx show ?thesis
      by (auto simp: process_def inserts_locally_def process_SimplifyMouseMovements_def Let_def
          insert_at_end split: if_splits prod.splits)
  next
    case SimplifyStrings
    with step clamps simplify_strings_frame [OF clamps idx, of x inp it inp' I'] show ?thesis
      by (cases "process_SimplifyStrings q x inp I") (auto simp: process_def inserts_locally_def)
  next
    case (ObjectVariables vars)
    with step obtain vars' where v: "process_ObjectVariables q vars x I = Inr (vars', it, I')"
        "p' = ObjectVariables vars'" "inp' = inp"
      by (cases "process_ObjectVariables q vars x I") (auto simp: process_def)
    with object_variables_frame [OF clamps idx v(1)] clamps ObjectVariables show ?thesis
      by (auto simp: process_def inserts_locally_def)
  next
    case (StringVariables vars)
    with ok show ?thesis by (simp add: inserts_locally_def)
  qed
qed

text \<open>
  C14. In every pass but the first one, what a post-processor inserts before the current item
  is written directly before it: the output of the pass is, for every item taken from the
  input, what its processing inserts, followed by the item. \<open>I\<close> is the inserter that the
  previous pass left, \<open>items\<close> its output.
\<close>

theorem later_pass_inserts_before_current:
  assumes "insert_clamps q" and "m_rootList I = items" and "items \<noteq> []"
    and "\<And>vars. p \<noteq> StringVariables vars"
    and "pass q p items (out_clear (Inserter_reset I)) = Inr I'"
  shows "written q p items (m_rootList I')"
proof -
  let ?I = "out_clear (Inserter_reset I)"
  have "inserts_locally q p"
    using assms(1,4) by (auto simp: inserts_locally_def split: post_processor.splits)
  moreover have "int (length (m_rootList ?I)) \<le> m_itemIndex ?I" "0 \<le> m_appendedItems ?I"
    using assms(2,3) by (auto simp: inserter_defs Suc_leI)
  ultimately obtain out where "written q p items out" "m_rootList I' = m_rootList ?I @ out"
    using inserting.pass_written assms(5) by blast
  then show ?thesis by (simp add: out_clear_def)
qed

theorem later_pass_inserts_before_current_witness:
  "\<exists>I'. pass qt_decimal SimplifyMouseMovements moved_items
      (out_clear (Inserter_reset (new_Inserter moved_items))) = Inr I' \<and>
    written qt_decimal SimplifyMouseMovements moved_items (m_rootList I')"
proof -
  obtain I' where p: "pass qt_decimal SimplifyMouseMovements moved_items
      (out_clear (Inserter_reset (new_Inserter moved_items))) = Inr I'"
    using accepting.pass_returns [of qt_decimal SimplifyMouseMovements moved_items] by auto
  have "m_rootList (new_Inserter moved_items) = moved_items" by (simp add: inserter_defs)
  moreover have "moved_items \<noteq> []" by (simp add: moved_items_def)
  ultimately have "written qt_decimal SimplifyMouseMovements moved_items (m_rootList I')"
    by (rule later_pass_inserts_before_current [OF qt_decimal_clamps _ _ _ p]) simp
  with p show ?thesis by blast
qed

section \<open>A run of mouse movements\<close>

definition coordinate :: "qt \<Rightarrow> item \<Rightarrow> qtext \<Rightarrow> int" where
  "coordinate q i key = v_toInt q (qm_value (v_toMap (item_parameters i)) key)"

text \<open>Sleeps and movements in turn.\<close>

definition run_of :: "(item \<times> item) list \<Rightarrow> item list" where
  "run_of ps = concat (map (\<lambda>(s, x). [s, x]) ps)"

definition duration_of :: "qt \<Rightarrow> item list \<Rightarrow> int" where
  "duration_of q sleeps = sum_list (map (\<lambda>s. v_toInt q (item_parameters s)) sleeps)"

lemma moves_loop_run:
  assumes "\<not> (method_is y ''moveMouse'' \<and> v_eq (item_target y) target)"
  shows "list_all (\<lambda>(s, x). method_is x ''moveMouse'' \<and> v_eq (item_target x) target) ps \<Longrightarrow>
    moves_loop q target it (v_toMap (item_parameters it)) d (run_of ps @ s # y # rest) =
      (s, v_toMap (item_parameters (last (it # map snd ps))),
       d + duration_of q (map fst ps @ [s]), y # rest)"
proof (induction ps arbitrary: it d)
  case (Cons a ps)
  then show ?case by (cases a) (simp add: run_of_def duration_of_def)
qed (use assms in \<open>simp add: run_of_def duration_of_def Let_def\<close>)

text \<open>
  C15. A run of movements over one object becomes a single movement: from the position of the
  first one to the position of the last one, over the time of all sleeps in the run; the other
  parameters are those of the last movement. The sleep behind the run is part of the duration
  and stays in the script as well.
\<close>

theorem simplified_run_of_movements:
  assumes "method_is x ''moveMouse''"
    and "list_all (\<lambda>(s, m). method_is m ''moveMouse'' \<and> v_eq (item_target m) (item_target x)) ps"
    and "\<not> (method_is y ''moveMouse'' \<and> v_eq (item_target y) (item_target x))"
  shows "\<exists>parameters. process q SimplifyMouseMovements x (run_of ps @ s # y # rest) I =
      Inr (SimplifyMouseMovements, s, y # rest,
           Inserter_insert q (full_item (item_target x) (item_targetClass x) ''moveMouse'' (VMap parameters))
             BeforeCurrentItem I) \<and>
    map_of parameters = (map_of (v_toMap (item_parameters (last (x # map snd ps)))))
      (''x'' := None, ''y'' := None,
       ''originX'' \<mapsto> VInt (coordinate q x ''x''), ''originY'' \<mapsto> VInt (coordinate q x ''y''),
       ''destinationX'' \<mapsto> VInt (coordinate q (last (x # map snd ps)) ''x''),
       ''destinationY'' \<mapsto> VInt (coordinate q (last (x # map snd ps)) ''y''),
       ''duration'' \<mapsto> VInt (duration_of q (map fst ps @ [s])))"
proof -
  let ?last = "v_toMap (item_parameters (last (x # map snd ps)))"
  let ?ps = "simplified_move q (v_toMap (item_parameters x)) ?last (duration_of q (map fst ps @ [s]))"
  have "moves_loop q (item_target x) x (v_toMap (item_parameters x)) 0 (run_of ps @ s # y # rest) =
      (s, ?last, duration_of q (map fst ps @ [s]), y # rest)"
    using moves_loop_run [OF assms(3,2)] by simp
  then have "process q SimplifyMouseMovements x (run_of ps @ s # y # rest) I =
      Inr (SimplifyMouseMovements, s, y # rest,
           Inserter_insert q (full_item (item_target x) (item_targetClass x) ''moveMouse'' (VMap ?ps))
             BeforeCurrentItem I)"
    using assms(1) by (simp only: process_def post_processor.case process_SimplifyMouseMovements_def
        if_True Let_def prod.case)
  moreover have "map_of ?ps = (map_of ?last)
      (''x'' := None, ''y'' := None,
       ''originX'' \<mapsto> VInt (coordinate q x ''x''), ''originY'' \<mapsto> VInt (coordinate q x ''y''),
       ''destinationX'' \<mapsto> VInt (coordinate q (last (x # map snd ps)) ''x''),
       ''destinationY'' \<mapsto> VInt (coordinate q (last (x # map snd ps)) ''y''),
       ''duration'' \<mapsto> VInt (duration_of q (map fst ps @ [s])))"
    by (simp only: simplified_move_def qvmap.lookup_insert qvmap.lookup_remove coordinate_def)
  ultimately show ?thesis by blast
qed

definition move_item :: "int \<Rightarrow> int \<Rightarrow> item" where
  "move_item x y = full_item (VString (Some ''Main'')) (Some ''QMainWindow'') ''moveMouse''
     (VMap (qm_of [(''x'', VInt x), (''y'', VInt y)]))"

theorem simplified_run_of_movements_witness:
  "\<exists>parameters. process qt_decimal SimplifyMouseMovements (move_item 1 2)
      [sleep_item 10, move_item 5 6, sleep_item 20, typed_items ! 1] empty_out =
      Inr (SimplifyMouseMovements, sleep_item 20, [typed_items ! 1],
        Inserter_insert qt_decimal (full_item (VString (Some ''Main'')) (Some ''QMainWindow'') ''moveMouse''
          (VMap parameters)) BeforeCurrentItem empty_out) \<and>
    map_of parameters ''originX'' = Some (VInt 1) \<and> map_of parameters ''destinationY'' = Some (VInt 6) \<and>
    map_of parameters ''duration'' = Some (VInt 30)"
proof -
  have "method_is (move_item 1 2) ''moveMouse''" by code_simp
  moreover have "list_all (\<lambda>(s, m). method_is m ''moveMouse'' \<and>
      v_eq (item_target m) (item_target (move_item 1 2))) [(sleep_item 10, move_item 5 6)]" by code_simp
  moreover have "\<not> (method_is (typed_items ! 1) ''moveMouse'' \<and>
      v_eq (item_target (typed_items ! 1)) (item_target (move_item 1 2)))" by code_simp
  moreover have "run_of [(sleep_item 10, move_item 5 6)] @ sleep_item 20 # typed_items ! 1 # [] =
      [sleep_item 10, move_item 5 6, sleep_item 20, typed_items ! 1]" by (simp add: run_of_def)
  moreover have "coordinate qt_decimal (move_item 1 2) ''x'' = 1"
    "coordinate qt_decimal (move_item 5 6) ''y'' = 6"
    "duration_of qt_decimal [sleep_item 10, sleep_item 20] = 30" by code_simp+
  ultimately show ?thesis
    using simplified_run_of_movements [of "move_item 1 2" "[(sleep_item 10, move_item 5 6)]"
        "typed_items ! 1" qt_decimal "sleep_item 20" "[]" empty_out]
    by (auto simp: move_item_def)
qed

text \<open>
  In the first pass the inserter starts with the index of the item before the current one.
\<close>

lemma first_pass_index:
  "m_itemIndex (out_clear (new_Inserter [])) = int (length (m_rootList (out_clear (new_Inserter [])))) - 1"
  by (simp add: inserter_defs)

text \<open>
  C16. When it is the first post-processor to run, SimplifyMouseMovements puts its movement one
  item too early, before the item that preceded the movement in the recording; as a later pass
  it puts it in the right place.
\<close>

theorem first_pass_inserts_too_early:
  assumes "insert_clamps q" and "isValid a" and "\<not> is_move a" and "is_move x"
    and "isValid s" and "isValid y" and "\<not> is_move y"
  shows "\<exists>m. processed_items q opt_SimplifyMouseMovements [a, x, s, y] = Inr [m, a, s, y] \<and>
    (\<forall>I. m_rootList I = [a, x, s, y] \<longrightarrow>
       run_processors q [SimplifyMouseMovements] [a, x, s, y] (Inserter_reset I) = Inr [a, m, s, y])"
proof -
  let ?d = "v_toInt q (item_parameters s)"
  let ?p = "v_toMap (item_parameters x)"
  let ?m = "full_item (item_target x) (item_targetClass x) ''moveMouse'' (VMap (simplified_move q ?p ?p ?d))"
  have loop: "moves_loop q (item_target x) x ?p 0 [s, y] = (s, ?p, ?d, [y])"
    using assms(7) by (simp add: is_move_def)
  have a: "process q SimplifyMouseMovements a inp I = Inr (SimplifyMouseMovements, a, inp, I)"
    and y: "process q SimplifyMouseMovements y inp I = Inr (SimplifyMouseMovements, y, inp, I)"
    and x: "process q SimplifyMouseMovements x [s, y] I =
      Inr (SimplifyMouseMovements, s, [y], Inserter_insert q ?m BeforeCurrentItem I)" for I inp
    using assms(3,4,7) loop
    by (simp_all add: process_def process_SimplifyMouseMovements_def is_move_def Let_def)
  have "processed_items q opt_SimplifyMouseMovements [a, x, s, y] = Inr [?m, a, s, y]"
    using assms(1,2,5,6)
    by (simp add: processed_items_def postProcessors_def a x y inserter_defs qlist_insert_def)
  moreover have "run_processors q [SimplifyMouseMovements] [a, x, s, y] (Inserter_reset I) = Inr [a, ?m, s, y]"
    if "m_rootList I = [a, x, s, y]" for I
    using assms(1,2,5,6) that by (simp add: a x y inserter_defs qlist_insert_def)
  ultimately show ?thesis by blast
qed

theorem first_pass_inserts_too_early_witness:
  "\<exists>m. processed_items qt_decimal opt_SimplifyMouseMovements
      [sleep_item 1, move_item 3 4, sleep_item 2, typed_items ! 1] =
      Inr [m, sleep_item 1, sleep_item 2, typed_items ! 1]"
proof -
  have "isValid (sleep_item 1)" "\<not> is_move (sleep_item 1)" "is_move (move_item 3 4)"
    "isValid (sleep_item 2)" "isValid (typed_items ! 1)" "\<not> is_move (typed_items ! 1)" by code_simp+
  from first_pass_inserts_too_early [OF qt_decimal_clamps this] show ?thesis by blast
qed

section \<open>A run of keys\<close>

definition key_parameters :: "item \<Rightarrow> qvariant qmap" where
  "key_parameters i = v_toMap (item_parameters i)"

text \<open>The text that a list of key events types.\<close>

fun typed :: "qt \<Rightarrow> item list \<Rightarrow> qtext \<Rightarrow> qtext" where
  "typed q [] s = s"
| "typed q (k # ks) s =
     typed q ks (if method_is k ''pressKey'' then type_key q (key_parameters k) s else s)"

definition typing_key :: "qvariant \<Rightarrow> item \<Rightarrow> bool" where
  "typing_key target k \<longleftrightarrow> is_key_item k \<and> v_eq (item_target k) target \<and>
     v_modifiers (qm_value (key_parameters k) ''modifiers'') AND NOT ShiftModifier = 0"

lemma keys_loop_run:
  assumes "\<not> is_key_item y"
  shows "typing_key target k \<Longrightarrow> list_all (typing_key target) (map snd ps) \<Longrightarrow>
    method_is (last (k # map snd ps)) ''releaseKey'' \<Longrightarrow>
    keys_loop q target k (key_parameters k) t m (run_of ps @ s # y # rest) =
      Inr (y, typed q (k # map snd ps) t, s, rest)"
proof (induction ps arbitrary: k t m)
  case Nil
  then have "\<not> method_is k ''pressKey''" by (simp add: method_is_def)
  with Nil assms show ?case by (simp add: run_of_def typing_key_def)
next
  case (Cons a ps)
  obtain s' k' where a: "a = (s', k')" by (cases a)
  with Cons.prems have k': "typing_key target k'" by simp
  with Cons a show ?case
    by (simp add: run_of_def typing_key_def key_parameters_def Let_def)
qed



end
