(* ===== verification/Hooq_Player.thy ===== *)
theory Hooq_Player
  imports Object_Paths Xml_Parse
begin

text \<open>
  Playback inside the tested application: the events of \<open>injectedHooq/Event.cpp\<close> and the
  player of \<open>injectedHooq/Player.cpp\<close>, which reads commands from the socket, queues events,
  performs them on the application and acknowledges each command.

  The application and Qt's event loop are a parameter: what can be observed of the application
  and what an action of the player does to it. The slots that Qt calls (new data, a timer, a
  mouse event while picking) are the steps of a session.
\<close>

section \<open>Events\<close>

type_synonym point = "int \<times> int"

datatype mouse_type = MouseMove | MouseButtonPress | MouseButtonRelease | MouseButtonDblClick

datatype key_type = KeyPress | KeyRelease

text \<open>
  The Qt events that the player makes. A mouse event without a global position takes the
  position of the cursor; a shortcut holds the text of its key sequence.
\<close>

datatype qevent =
    QMouseEvent mouse_type point "point option" flags flags flags
  | QKeyEvent key_type int flags qtext bool int
  | QContextMenuEvent int point point flags
  | QShortcutEvent qtext int bool
  | QWheelEvent point int flags flags orientation

text \<open>The classes derived from \<open>Event\<close> and the members of \<open>Event\<close> itself.\<close>

datatype event_body =
    AckEvent
  | DumpEvent qtext
  | DropEvent qtext point point
  | FocusEvent qtext int
  | ObjectEvent qtext qevent
  | PickEvent
  | SleepEvent int
  | FlushEvent
  | CloseEvent qtext

record event =
  ev_body :: event_body
  m_ack :: bool
  m_tag :: qstring

definition new_event :: "event_body \<Rightarrow> event" where
  "new_event b = \<lparr>ev_body = b, m_ack = True, m_tag = None\<rparr>"

definition withoutAck :: "event \<Rightarrow> event" where
  "withoutAck e = e\<lparr>m_ack := False\<rparr>"

definition addTag :: "qtext \<Rightarrow> event \<Rightarrow> event" where
  "addTag tag e = e\<lparr>m_tag := Some tag\<rparr>"

lemma event_simps [simp]:
  "ev_body (new_event b) = b" "m_ack (new_event b)" "ev_body (withoutAck e) = ev_body e"
  "\<not> m_ack (withoutAck e)" "ev_body (addTag t e) = ev_body e" "m_ack (addTag t e) = m_ack e"
  by (simp_all add: new_event_def withoutAck_def addTag_def)

section \<open>The application\<close>

datatype app_action =
    SetFocus objid int
  | CloseWidget objid
  | PostEvent objid qevent
  | ProcessEvents
  | StartTimer int
  | ShowPickWidget
  | HidePickWidget

record 'app app_ops =
  app_tree :: "'app \<Rightarrow> qtree"
  app_perform :: "app_action \<Rightarrow> 'app \<Rightarrow> 'app"
  app_mapToGlobal :: "'app \<Rightarrow> objid \<Rightarrow> point \<Rightarrow> point"
  app_focusProxy :: "'app \<Rightarrow> objid \<Rightarrow> objid option"
  app_startDragTime :: int
  app_startDragDistance :: int

section \<open>The player\<close>

datatype mode = Playback | Pick

text \<open>What the player writes to the socket; a dump is written as the dumped object.\<close>

datatype reply = R_ACK | R_NOTFOUND qtext | R_DUMPED objid | R_PICKED objid

datatype player_error = NullObject

record 'app player =
  m_processingEvents :: bool
  m_eventQueue :: "event list"
  m_ackNext :: bool
  m_mode :: mode
  p_stream :: xml_stream
  p_token :: xml_token
  p_device :: bool
  p_connected :: bool
  p_written :: "reply list"
  p_finished :: bool
  p_timers :: "int list"
  p_app :: 'app

definition new_Player :: "bool \<Rightarrow> 'app \<Rightarrow> 'app player" where
  "new_Player unset a = \<lparr>m_processingEvents = False, m_eventQueue = [], m_ackNext = unset,
     m_mode = Playback, p_stream = [], p_token = Invalid, p_device = True, p_connected = True,
     p_written = [], p_finished = False, p_timers = [], p_app = a\<rparr>"

definition act :: "'app app_ops \<Rightarrow> app_action \<Rightarrow> 'app player \<Rightarrow> 'app player" where
  "act ops a P = P\<lparr>p_app := app_perform ops a (p_app P)\<rparr>"

definition send :: "reply \<Rightarrow> 'app player \<Rightarrow> 'app player" where
  "send r P = P\<lparr>p_written := p_written P @ [r]\<rparr>"

definition ack :: "'app player \<Rightarrow> 'app player" where
  "ack P = (if m_ackNext P then send R_ACK P else P)"

definition notifyNotFound :: "qtext \<Rightarrow> 'app player \<Rightarrow> 'app player" where
  "notifyNotFound path P = send (R_NOTFOUND path) P"

definition player_find :: "qt \<Rightarrow> 'app app_ops \<Rightarrow> 'app player \<Rightarrow> qtext \<Rightarrow> objid option" where
  "player_find q ops P path = findObject q (app_tree ops (p_app P)) path"

text \<open>\<open>qobject_cast<QWidget*>(findObject(path))\<close>\<close>

definition player_widget :: "qt \<Rightarrow> 'app app_ops \<Rightarrow> 'app player \<Rightarrow> qtext \<Rightarrow> objid option" where
  "player_widget q ops P path = (case player_find q ops P path of
     None \<Rightarrow> None
   | Some o' \<Rightarrow> if obj_isWidget (tree_object (app_tree ops (p_app P)) o') then Some o' else None)"

definition startPick :: "'app app_ops \<Rightarrow> 'app player \<Rightarrow> 'app player" where
  "startPick ops P = act ops ShowPickWidget (P\<lparr>m_mode := Pick\<rparr>)"

definition player_sleep :: "'app app_ops \<Rightarrow> int \<Rightarrow> 'app player \<Rightarrow> 'app player" where
  "player_sleep ops msec P = (act ops (StartTimer msec) P)\<lparr>p_timers := p_timers P @ [msec]\<rparr>"

text \<open>How the body of the loop ends: \<open>break\<close> (acknowledge), \<open>continue\<close> or \<open>return\<close>.\<close>

datatype control = Break | Continue | Return

definition process_event ::
    "qt \<Rightarrow> 'app app_ops \<Rightarrow> event \<Rightarrow> 'app player \<Rightarrow> player_error + control \<times> 'app player" where
  "process_event q ops e P = (case ev_body e of
     AckEvent \<Rightarrow> Inr (Break, P)
   | DumpEvent path \<Rightarrow> (case player_find q ops P path of
        None \<Rightarrow> Inl NullObject
      | Some o' \<Rightarrow> Inr (Continue, send (R_DUMPED o') P))
   | FlushEvent \<Rightarrow> Inr (Continue, act ops ProcessEvents P)
   | FocusEvent path reason \<Rightarrow> Inr (Break, (case player_widget q ops P path of
        Some w \<Rightarrow> act ops (SetFocus w reason) P
      | None \<Rightarrow> notifyNotFound path P))
   | CloseEvent path \<Rightarrow> Inr (Break, (case player_widget q ops P path of
        Some w \<Rightarrow> act ops (CloseWidget w) P
      | None \<Rightarrow> P))
   | DropEvent path pos globalPos \<Rightarrow> Inr (Break, (case player_find q ops P path of
        Some o' \<Rightarrow> act ops (PostEvent o' (QMouseEvent MouseButtonRelease pos (Some globalPos) 1 0 0)) P
      | None \<Rightarrow> notifyNotFound path P))
   | ObjectEvent path qtEvent \<Rightarrow> Inr (Break, (case player_find q ops P path of
        Some o' \<Rightarrow> act ops (PostEvent o' qtEvent) P
      | None \<Rightarrow> notifyNotFound path P))
   | PickEvent \<Rightarrow> Inr (Return, startPick ops P)
   | SleepEvent msec \<Rightarrow> Inr (Return, player_sleep ops msec P))"

text \<open>The loop of \<open>processEvents\<close> over the queue, and what follows it.\<close>

fun process_queue ::
    "qt \<Rightarrow> 'app app_ops \<Rightarrow> event list \<Rightarrow> 'app player \<Rightarrow> player_error + 'app player" where
  "process_queue q ops [] P =
     Inr ((if p_token P = EndDocument then P\<lparr>p_device := False, p_finished := True\<rparr> else P)
            \<lparr>m_processingEvents := False, m_eventQueue := []\<rparr>)"
| "process_queue q ops (e # es) P =
     (case process_event q ops e (P\<lparr>m_eventQueue := es, m_ackNext := m_ack e\<rparr>) of
        Inl err \<Rightarrow> Inl err
      | Inr (Break, P') \<Rightarrow> process_queue q ops es (ack P')
      | Inr (Continue, P') \<Rightarrow> process_queue q ops es P'
      | Inr (Return, P') \<Rightarrow> Inr P')"

definition processEvents :: "qt \<Rightarrow> 'app app_ops \<Rightarrow> 'app player \<Rightarrow> player_error + 'app player" where
  "processEvents q ops P =
     (if m_processingEvents P then Inr P
      else process_queue q ops (m_eventQueue P) (P\<lparr>m_processingEvents := True\<rparr>))"

definition waitFinished :: "qt \<Rightarrow> 'app app_ops \<Rightarrow> 'app player \<Rightarrow> player_error + 'app player" where
  "waitFinished q ops P = processEvents q ops ((ack P)\<lparr>m_processingEvents := False\<rparr>)"

definition endPick :: "qt \<Rightarrow> 'app app_ops \<Rightarrow> 'app player \<Rightarrow> player_error + 'app player" where
  "endPick q ops P =
     processEvents q ops ((act ops HidePickWidget (P\<lparr>m_mode := Playback\<rparr>))\<lparr>m_processingEvents := False\<rparr>)"

text \<open>
  The event filter: whether the event is swallowed, and the player. Only the two mouse events
  matter, and only while picking.
\<close>

definition player_eventFilter ::
    "qt \<Rightarrow> 'app app_ops \<Rightarrow> objid \<Rightarrow> mouse_type \<Rightarrow> 'app player \<Rightarrow> player_error + bool \<times> 'app player" where
  "player_eventFilter q ops receiver type P =
     (if m_mode P = Pick then
        (case type of
           MouseButtonPress \<Rightarrow> Inr (True, P)
         | MouseButtonRelease \<Rightarrow>
             let picked = (if obj_isWidget (tree_object (app_tree ops (p_app P)) receiver)
                           then (case app_focusProxy ops (p_app P) receiver of Some w \<Rightarrow> w | None \<Rightarrow> receiver)
                           else receiver)
             in map_sum id (Pair True) (endPick q ops (send (R_PICKED picked) P))
         | _ \<Rightarrow> Inr (False, P))
      else Inr (False, P))"

section \<open>Reading commands\<close>

definition enqueue :: "event list \<Rightarrow> 'app player \<Rightarrow> 'app player" where
  "enqueue es P = P\<lparr>m_eventQueue := m_eventQueue P @ es\<rparr>"

text \<open>\<open>readElementText()\<close>; afterwards the current token is the end of the element.\<close>

definition skip_text :: "qtext \<Rightarrow> 'app player \<Rightarrow> 'app player" where
  "skip_text name P = P\<lparr>p_stream := snd (readElementText (p_stream P)), p_token := EndElement name\<rparr>"

definition postPickEvent :: "'app player \<Rightarrow> 'app player" where
  "postPickEvent P = enqueue [new_event PickEvent] P"

definition postSleepEvent :: "qt \<Rightarrow> 'app player \<Rightarrow> 'app player" where
  "postSleepEvent q P =
     enqueue [new_event (SleepEvent (qt_toInt q (fst (readElementText (p_stream P)))))]
       (skip_text ''msec'' P)"

abbreviation LeftButton :: flags where "LeftButton \<equiv> 1"

definition attr_text :: "attributes \<Rightarrow> qtext \<Rightarrow> qtext" where
  "attr_text atts name = qs_text (attr atts name)"

definition attr_point :: "qt \<Rightarrow> attributes \<Rightarrow> qtext \<Rightarrow> qtext \<Rightarrow> point" where
  "attr_point q atts x y = (attr_int q atts x, attr_int q atts y)"

text \<open>The events of a drag and drop; \<open>x11\<close> is false on Windows.\<close>

definition drag_and_drop_events ::
    "'app app_ops \<Rightarrow> bool \<Rightarrow> qtext \<Rightarrow> point \<Rightarrow> qtext \<Rightarrow> point \<Rightarrow> point \<Rightarrow> event list" where
  "drag_and_drop_events ops x11 sourcePath sourcePoint targetPath targetPoint globalPoint =
     (let flush = (if x11 then [withoutAck (new_event FlushEvent)] else []);
          mouse = (\<lambda>tag path e. addTag tag (withoutAck (new_event (ObjectEvent path e))));
          (sx, sy) = sourcePoint
      in flush @
         [addTag ''dnd_sourceFocus'' (withoutAck (new_event (FocusEvent sourcePath 7)))] @
         flush @
         [mouse ''dnd_click'' sourcePath
            (QMouseEvent MouseButtonPress sourcePoint None LeftButton LeftButton 0),
          mouse ''dnd_nudge'' sourcePath
            (QMouseEvent MouseMove (sx, sy + 1) None 0 LeftButton 0),
          addTag ''dnd_waitBeforeDrag'' (withoutAck (new_event (SleepEvent (app_startDragTime ops + 1)))),
          mouse ''dnd_initialDrag'' sourcePath
            (QMouseEvent MouseMove (sx, sy + (app_startDragDistance ops + 1)) None 0 LeftButton 0),
          mouse ''dnd_mainDrag'' targetPath
            (QMouseEvent MouseMove targetPoint (Some globalPoint) 0 LeftButton 0),
          addTag ''dnd_drop'' (withoutAck (new_event (DropEvent targetPath targetPoint globalPoint))),
          withoutAck (new_event FlushEvent),
          new_event AckEvent])"

definition postDragAndDrop ::
    "qt \<Rightarrow> 'app app_ops \<Rightarrow> bool \<Rightarrow> attributes \<Rightarrow> 'app player \<Rightarrow> player_error + 'app player" where
  "postDragAndDrop q ops x11 atts P =
     (let sourcePath = attr_text atts ''source'';
          sourcePoint = attr_point q atts ''sourceX'' ''sourceY'';
          targetPath = attr_text atts ''target'';
          targetPoint = attr_point q atts ''targetX'' ''targetY'';
          P' = skip_text ''dragAndDrop'' P
      in case player_widget q ops P' targetPath of
           None \<Rightarrow> Inl NullObject
         | Some w \<Rightarrow> Inr (enqueue (drag_and_drop_events ops x11 sourcePath sourcePoint targetPath
             targetPoint (app_mapToGlobal ops (p_app P') w targetPoint)) P'))"

definition postShortcutEvent :: "qt \<Rightarrow> attributes \<Rightarrow> event" where
  "postShortcutEvent q atts = new_event (ObjectEvent (attr_text atts ''target'')
     (QShortcutEvent (attr_text atts ''string'') (attr_int q atts ''id'')
        (attr_is atts ''ambiguous'' ''true'')))"

definition postCloseEvent :: "attributes \<Rightarrow> event" where
  "postCloseEvent atts = new_event (CloseEvent (attr_text atts ''target''))"

definition postContextMenuEvent :: "qt \<Rightarrow> attributes \<Rightarrow> event" where
  "postContextMenuEvent q atts = new_event (ObjectEvent (attr_text atts ''target'')
     (QContextMenuEvent (attr_int q atts ''reason'') (attr_point q atts ''x'' ''y'')
        (attr_point q atts ''globalX'' ''globalY'') (word_of_int (attr_int q atts ''modifiers''))))"

definition postFocusEvent :: "qt \<Rightarrow> attributes \<Rightarrow> event" where
  "postFocusEvent q atts =
     new_event (FocusEvent (attr_text atts ''target'') (attr_int q atts ''reason''))"

text \<open>\<open>QString::toUShort\<close>: 0 for a number that does not fit.\<close>

definition attr_ushort :: "qt \<Rightarrow> attributes \<Rightarrow> qtext \<Rightarrow> int" where
  "attr_ushort q atts name =
     (let n = attr_int q atts name in if 0 \<le> n \<and> n < 65536 then n else 0)"

definition postKeyEvent :: "qt \<Rightarrow> key_type \<Rightarrow> attributes \<Rightarrow> event" where
  "postKeyEvent q type atts = new_event (ObjectEvent (attr_text atts ''target'')
     (QKeyEvent type (attr_int q atts ''key'') (word_of_int (attr_int q atts ''modifiers''))
        (attr_text atts ''text'') (attr_is atts ''isAutoRepeat'' ''true'') (attr_ushort q atts ''count'')))"

definition postMouseEvent :: "qt \<Rightarrow> mouse_type \<Rightarrow> attributes \<Rightarrow> event" where
  "postMouseEvent q type atts = new_event (ObjectEvent (attr_text atts ''target'')
     (QMouseEvent type (attr_point q atts ''x'' ''y'') None (word_of_int (attr_int q atts ''button''))
        (word_of_int (attr_int q atts ''buttons'')) (word_of_int (attr_int q atts ''modifiers''))))"

definition postDumpEvent :: "attributes \<Rightarrow> event" where
  "postDumpEvent atts = new_event (DumpEvent (attr_text atts ''target''))"

definition postWheelEvent :: "qt \<Rightarrow> attributes \<Rightarrow> event" where
  "postWheelEvent q atts = new_event (ObjectEvent (attr_text atts ''target'')
     (QWheelEvent (attr_point q atts ''x'' ''y'') (attr_int q atts ''delta'')
        (word_of_int (attr_int q atts ''buttons'')) (word_of_int (attr_int q atts ''modifiers''))
        (if attr_is atts ''orientation'' ''vertical'' then Vertical else Horizontal)))"

definition handleElement ::
    "qt \<Rightarrow> 'app app_ops \<Rightarrow> bool \<Rightarrow> qtext \<Rightarrow> attributes \<Rightarrow> 'app player \<Rightarrow> player_error + 'app player" where
  "handleElement q ops x11 name atts P =
     (if name = ''msec'' then Inr (postSleepEvent q P)
      else if name = ''dump'' then Inr (enqueue [postDumpEvent atts] P)
      else if name = ''pick'' then Inr (postPickEvent P)
      else if name = ''dragAndDrop'' then postDragAndDrop q ops x11 atts P
      else if name = ''windowClosed'' then Inr (enqueue [postCloseEvent atts] P)
      else if name = ''contextMenu'' then Inr (enqueue [postContextMenuEvent q atts] P)
      else if name = ''focusChanged'' then Inr (enqueue [postFocusEvent q atts] P)
      else if name = ''keyPress'' then Inr (enqueue [postKeyEvent q KeyPress atts] P)
      else if name = ''keyRelease'' then Inr (enqueue [postKeyEvent q KeyRelease atts] P)
      else if name = ''mouseMove'' then Inr (enqueue [postMouseEvent q MouseMove atts] P)
      else if name = ''mouseButtonPress'' then Inr (enqueue [postMouseEvent q MouseButtonPress atts] P)
      else if name = ''mouseButtonDoubleClick'' then Inr (enqueue [postMouseEvent q MouseButtonDblClick atts] P)
      else if name = ''mouseButtonRelease'' then Inr (enqueue [postMouseEvent q MouseButtonRelease atts] P)
      else if name = ''mouseWheel'' then Inr (enqueue [postWheelEvent q atts] P)
      else if name = ''shortcut'' then Inr (enqueue [postShortcutEvent q atts] P)
      else Inr P)"

lemmas player_defs = act_def send_def ack_def notifyNotFound_def startPick_def player_sleep_def
  enqueue_def skip_text_def postPickEvent_def postSleepEvent_def

lemma process_event_stream:
  "process_event q ops e P = Inr (c, P') \<Longrightarrow> p_stream P' = p_stream P \<and> m_eventQueue P' = m_eventQueue P"
  unfolding process_event_def
  by (auto simp: player_defs split: event_body.splits option.splits)

lemma process_queue_stream: "process_queue q ops es P = Inr P' \<Longrightarrow> p_stream P' = p_stream P"
proof (induction es arbitrary: P)
  case (Cons e es)
  then obtain c P1 where
      e: "process_event q ops e (P\<lparr>m_eventQueue := es, m_ackNext := m_ack e\<rparr>) = Inr (c, P1)"
    by (auto split: sum.splits)
  from process_event_stream [OF e] Cons e show ?case
    by (cases c) (auto simp: ack_def send_def split: if_splits)
qed auto

lemma processEvents_stream: "processEvents q ops P = Inr P' \<Longrightarrow> p_stream P' = p_stream P"
  by (auto simp: processEvents_def dest: process_queue_stream split: if_splits)

lemma handleElement_stream:
  "handleElement q ops x11 name atts P = Inr P' \<Longrightarrow> length (p_stream P') \<le> length (p_stream P)"
  unfolding handleElement_def postDragAndDrop_def
  by (auto simp: player_defs Let_def readElementText_length split: if_splits option.splits)

function readNext :: "qt \<Rightarrow> 'app app_ops \<Rightarrow> bool \<Rightarrow> 'app player \<Rightarrow> player_error + 'app player" where
  "readNext q ops x11 P =
     (case p_stream P of
        [] \<Rightarrow> processEvents q ops P
      | t # ts \<Rightarrow>
          let P1 = P\<lparr>p_stream := ts, p_token := t\<rparr>
          in case t of
            StartElement name atts \<Rightarrow>
              (case handleElement q ops x11 name atts P1 of
                 Inl err \<Rightarrow> Inl err
               | Inr P2 \<Rightarrow> (case processEvents q ops P2 of
                   Inl err \<Rightarrow> Inl err
                 | Inr P3 \<Rightarrow> readNext q ops x11 P3))
          | EndDocument \<Rightarrow> processEvents q ops ((ack P1)\<lparr>p_connected := False\<rparr>)
          | _ \<Rightarrow> readNext q ops x11 P1)"
  by pat_completeness auto
termination
proof (relation "measure (\<lambda>(q, ops, x11, P). length (p_stream P))", goal_cases)
  case (3 q ops x11 P t ts P1 name atts P2 P3)
  then show ?case
    using handleElement_stream [of q ops x11 name atts P1 P2] processEvents_stream [of q ops P2 P3] by auto
qed auto

declare readNext.simps [simp del]

end
