(* ===== verification/Player_Protocol.thy ===== *)
theory Player_Protocol
  imports Hooq_Player
begin

text \<open>
  The acknowledgement protocol between the script interpreter and the player: every command is
  answered once, in the order of the commands. The steps of a session are the slots that Qt
  calls on the player.
\<close>

section \<open>What is owed\<close>

datatype completion = C_ACK | C_DUMPED | C_PICKED

fun completion_of :: "reply \<Rightarrow> completion list" where
  "completion_of R_ACK = [C_ACK]"
| "completion_of (R_DUMPED o') = [C_DUMPED]"
| "completion_of (R_PICKED o') = [C_PICKED]"
| "completion_of (R_NOTFOUND path) = []"

definition completions :: "reply list \<Rightarrow> completion list" where
  "completions rs = concat (map completion_of rs)"

lemma completions_simps [simp]:
  "completions [] = []" "completions (rs @ rs') = completions rs @ completions rs'"
  "completions [r] = completion_of r"
  by (simp_all add: completions_def)

text \<open>The answer an event in the queue will give.\<close>

definition owed_event :: "event \<Rightarrow> completion list" where
  "owed_event e = (case ev_body e of
     DumpEvent path \<Rightarrow> [C_DUMPED]
   | PickEvent \<Rightarrow> [C_PICKED]
   | FlushEvent \<Rightarrow> []
   | _ \<Rightarrow> if m_ack e then [C_ACK] else [])"

definition owed_events :: "event list \<Rightarrow> completion list" where
  "owed_events es = concat (map owed_event es)"

lemma owed_events_simps [simp]:
  "owed_events [] = []" "owed_events (e # es) = owed_event e @ owed_events es"
  "owed_events (es @ es') = owed_events es @ owed_events es'"
  by (simp_all add: owed_events_def)

text \<open>The answer the player gives when what it waits for happens.\<close>

definition owed_wait :: "'app player \<Rightarrow> completion list" where
  "owed_wait P = (if m_mode P = Pick then [C_PICKED]
     else if p_timers P \<noteq> [] \<and> m_ackNext P then [C_ACK] else [])"

definition owed :: "'app player \<Rightarrow> completion list" where
  "owed P = owed_wait P @ owed_events (m_eventQueue P)"

text \<open>
  Between two slots: the player is idle with an empty queue, or it waits for exactly one thing
  (a timer or a pick) and holds the flag that keeps \<open>processEvents\<close> from running.
\<close>

definition waiting :: "'app player \<Rightarrow> bool" where
  "waiting P \<longleftrightarrow> (m_mode P = Pick \<and> p_timers P = []) \<or> (m_mode P = Playback \<and> length (p_timers P) = 1)"

definition idle :: "'app player \<Rightarrow> bool" where
  "idle P \<longleftrightarrow> m_mode P = Playback \<and> p_timers P = []"

definition settled :: "'app player \<Rightarrow> bool" where
  "settled P \<longleftrightarrow> (if m_processingEvents P then waiting P else idle P \<and> m_eventQueue P = [])"

text \<open>Answers given and answers owed.\<close>

definition account :: "'app player \<Rightarrow> completion list" where
  "account P = completions (p_written P) @ owed P"

lemma frame_simps [simp]:
  "waiting (P\<lparr>p_stream := ts\<rparr>) = waiting P" "waiting (P\<lparr>p_token := t\<rparr>) = waiting P"
  "waiting (P\<lparr>p_app := a\<rparr>) = waiting P" "idle (P\<lparr>p_stream := ts\<rparr>) = idle P"
  "idle (P\<lparr>p_token := t\<rparr>) = idle P" "idle (P\<lparr>p_app := a\<rparr>) = idle P"
  "account (P\<lparr>p_stream := ts\<rparr>) = account P" "account (P\<lparr>p_token := t\<rparr>) = account P"
  "account (P\<lparr>p_app := a\<rparr>) = account P" "settled (P\<lparr>p_stream := ts\<rparr>) = settled P"
  "settled (P\<lparr>p_token := t\<rparr>) = settled P" "settled (P\<lparr>p_app := a\<rparr>) = settled P"
  by (simp_all add: waiting_def idle_def account_def owed_def owed_wait_def settled_def)

section \<open>Each slot keeps the account\<close>

lemma process_event_account:
  assumes "idle P" and "m_ackNext P = m_ack e" and "process_event q ops e P = Inr (c, P')"
  shows "p_token P' = p_token P" and "m_processingEvents P' = m_processingEvents P"
    and "c = Return \<Longrightarrow> waiting P'" and "c \<noteq> Return \<Longrightarrow> idle P'"
    and "completions (p_written (if c = Break then ack P' else P')) @ (if c = Return then owed_wait P' else []) =
      completions (p_written P) @ owed_event e"
  using assms unfolding process_event_def idle_def waiting_def owed_wait_def owed_event_def
  by (auto simp: player_defs split: event_body.splits option.splits)

lemma ack_simps [simp]:
  "m_eventQueue (ack P) = m_eventQueue P" "m_processingEvents (ack P) = m_processingEvents P"
  "p_token (ack P) = p_token P" "idle (ack P) = idle P" "p_timers (ack P) = p_timers P"
  "m_mode (ack P) = m_mode P" "p_stream (ack P) = p_stream P"
  by (auto simp: ack_def send_def idle_def)

lemma process_queue_account:
  "process_queue q ops es P = Inr P' \<Longrightarrow> idle P \<Longrightarrow> m_processingEvents P \<Longrightarrow>
   settled P' \<and> account P' = completions (p_written P) @ owed_events es"
proof (induction es arbitrary: P)
  case Nil
  then show ?case
    by (cases "p_token P = EndDocument") (auto simp: settled_def account_def owed_def owed_wait_def idle_def)
next
  case (Cons e es)
  let ?P = "P\<lparr>m_eventQueue := es, m_ackNext := m_ack e\<rparr>"
  obtain c P1 where e: "process_event q ops e ?P = Inr (c, P1)"
    using Cons.prems(1) by (auto split: sum.splits)
  have "idle ?P" "m_ackNext ?P = m_ack e" using Cons.prems by (simp_all add: idle_def)
  note acc = process_event_account [OF this e] and str = process_event_stream [OF e]
  show ?case
  proof (cases c)
    case Return
    with Cons.prems e acc str show ?thesis by (simp add: settled_def account_def owed_def)
  next
    case Break
    with Cons.prems e acc Cons.IH [of "ack P1"] show ?thesis by simp
  next
    case Continue
    with Cons.prems e acc Cons.IH [of P1] show ?thesis by simp
  qed
qed

lemma processEvents_account:
  assumes "processEvents q ops P = Inr P'"
    and "if m_processingEvents P then waiting P else idle P"
  shows "settled P' \<and> account P' = account P"
proof (cases "m_processingEvents P")
  case True
  with assms show ?thesis by (simp add: processEvents_def settled_def)
next
  case False
  with assms have "process_queue q ops (m_eventQueue P) (P\<lparr>m_processingEvents := True\<rparr>) = Inr P'" "idle P"
    by (simp_all add: processEvents_def)
  from process_queue_account [OF this(1)] this(2) show ?thesis
    by (simp add: idle_def account_def owed_def owed_wait_def)
qed

text \<open>The answer a command element asks for.\<close>

definition command_completion :: "qtext \<Rightarrow> completion list" where
  "command_completion name =
     (if name = ''dump'' then [C_DUMPED]
      else if name = ''pick'' then [C_PICKED]
      else if name \<in> {''msec'', ''dragAndDrop'', ''windowClosed'', ''contextMenu'', ''focusChanged'',
        ''keyPress'', ''keyRelease'', ''mouseMove'', ''mouseButtonPress'', ''mouseButtonDoubleClick'',
        ''mouseButtonRelease'', ''mouseWheel'', ''shortcut''} then [C_ACK]
      else [])"

lemma owed_posted [simp]:
  "owed_event (postCloseEvent atts) = [C_ACK]" "owed_event (postContextMenuEvent q atts) = [C_ACK]"
  "owed_event (postFocusEvent q atts) = [C_ACK]" "owed_event (postKeyEvent q kt atts) = [C_ACK]"
  "owed_event (postMouseEvent q mt atts) = [C_ACK]" "owed_event (postWheelEvent q atts) = [C_ACK]"
  "owed_event (postShortcutEvent q atts) = [C_ACK]" "owed_event (postDumpEvent atts) = [C_DUMPED]"
  "owed_event (new_event (SleepEvent n)) = [C_ACK]" "owed_event (new_event PickEvent) = [C_PICKED]"
  by (simp_all add: owed_event_def postCloseEvent_def postContextMenuEvent_def postFocusEvent_def
      postKeyEvent_def postMouseEvent_def postWheelEvent_def postShortcutEvent_def postDumpEvent_def)

text \<open>A drag and drop is many events and one answer.\<close>

lemma owed_drag_and_drop: "owed_events (drag_and_drop_events ops x11 sp s tp t g) = [C_ACK]"
  by (cases s) (simp add: drag_and_drop_events_def owed_event_def Let_def)

lemma enqueue_account:
  "account (enqueue es P) = account P @ owed_events es"
  "m_processingEvents (enqueue es P) = m_processingEvents P" "waiting (enqueue es P) = waiting P"
  "idle (enqueue es P) = idle P" "p_stream (enqueue es P) = p_stream P"
  by (simp_all add: account_def owed_def owed_wait_def enqueue_def waiting_def idle_def)

lemma skip_text_account:
  "account (skip_text n P) = account P" "m_processingEvents (skip_text n P) = m_processingEvents P"
  "waiting (skip_text n P) = waiting P" "idle (skip_text n P) = idle P"
  "p_stream (skip_text n P) = snd (readElementText (p_stream P))"
  by (simp_all add: account_def owed_def owed_wait_def skip_text_def waiting_def idle_def)

lemmas post_account = enqueue_account skip_text_account postSleepEvent_def postPickEvent_def
  command_completion_def owed_drag_and_drop

text \<open>The rest of the stream behind a command.\<close>

definition behind_command :: "qtext \<Rightarrow> xml_stream \<Rightarrow> xml_stream" where
  "behind_command name ts =
     (if name = ''msec'' \<or> name = ''dragAndDrop'' then snd (readElementText ts) else ts)"

lemma handleElement_account:
  assumes "handleElement q ops x11 name atts P = Inr P'"
  shows "account P' = account P @ command_completion name"
    and "m_processingEvents P' = m_processingEvents P" and "waiting P' = waiting P" and "idle P' = idle P"
    and "p_stream P' = behind_command name (p_stream P)"
  using assms unfolding handleElement_def postDragAndDrop_def behind_command_def
  by (auto simp: post_account Let_def split: if_splits option.splits)

section \<open>A session\<close>

text \<open>The answers that the commands of a stream ask for.\<close>

function stream_commands :: "xml_stream \<Rightarrow> completion list" where
  "stream_commands [] = []"
| "stream_commands (t # ts) = (case t of
     StartElement name atts \<Rightarrow> command_completion name @ stream_commands (behind_command name ts)
   | _ \<Rightarrow> stream_commands ts)"
  by pat_completeness auto
termination
  by (relation "measure length")
     (auto simp: behind_command_def intro: le_less_trans [OF readElementText_length])

lemma readElementText_subset: "set (snd (readElementText ts)) \<subseteq> set ts"
  by (induction ts) (auto split: xml_token.splits)

lemma behind_command_subset: "set (behind_command name ts) \<subseteq> set ts"
  using readElementText_subset by (auto simp: behind_command_def)

lemma readNext_account:
  "readNext q ops x11 P = Inr P' \<Longrightarrow> EndDocument \<notin> set (p_stream P) \<Longrightarrow> settled P \<Longrightarrow>
   settled P' \<and> account P' = account P @ stream_commands (p_stream P)"
proof (induction "length (p_stream P)" arbitrary: P rule: less_induct)
  case less
  have ready: "if m_processingEvents P then waiting P else idle P"
    using less.prems(3) by (auto simp: settled_def split: if_splits)
  show ?case
  proof (cases "p_stream P")
    case Nil
    with less.prems(1) ready show ?thesis by (auto simp: readNext.simps dest: processEvents_account)
  next
    case (Cons t ts)
    let ?P = "P\<lparr>p_stream := ts, p_token := t\<rparr>"
    have same: "account ?P = account P" "settled ?P = settled P" "waiting ?P = waiting P" "idle ?P = idle P"
      by simp_all
    show ?thesis
    proof (cases "\<exists>name atts. t = StartElement name atts")
      case True
      then obtain name atts where t: "t = StartElement name atts" by blast
      with Cons less.prems(1) obtain P2 P3 where P2: "handleElement q ops x11 name atts ?P = Inr P2"
          and P3: "processEvents q ops P2 = Inr P3" and r: "readNext q ops x11 P3 = Inr P'"
        by (subst (asm) readNext.simps) (auto simp: Let_def split: sum.splits)
      note h = handleElement_account [OF P2]
      have acc: "settled P3 \<and> account P3 = account P2"
        using processEvents_account [OF P3] ready h same by simp
      have stream: "p_stream P3 = behind_command name ts"
        using processEvents_stream [OF P3] h(5) by simp
      have "EndDocument \<notin> set (p_stream P3)"
        using less.prems(2) Cons behind_command_subset stream by fastforce
      moreover have "length (p_stream P3) < length (p_stream P)"
        using stream Cons by (auto simp: behind_command_def less_Suc_eq_le readElementText_length)
      ultimately show ?thesis
        using less.hyps [OF _ r] acc stream h(1) same(1) Cons t by simp
    next
      case False
      have "readNext q ops x11 P = readNext q ops x11 ?P"
        using Cons False less.prems(2) by (subst readNext.simps) (cases t; simp)
      moreover have "stream_commands (p_stream P) = stream_commands ts"
        using False Cons by (cases t) simp_all
      ultimately show ?thesis
        using less.hyps [of ?P] Cons less.prems same by simp
    qed
  qed
qed

text \<open>
  The steps: new data arrives on the socket, the timer of a sleep fires, a mouse event reaches the
  event filter, and the application changes by itself. The list holds the answers that the
  commands so far ask for.
\<close>

inductive session :: "qt \<Rightarrow> 'app app_ops \<Rightarrow> bool \<Rightarrow> completion list \<Rightarrow> 'app player \<Rightarrow> bool"
  for q ops x11 where
  session_start: "session q ops x11 [] (new_Player unset a)"
| session_data: "session q ops x11 cs P \<Longrightarrow> EndDocument \<notin> set ts \<Longrightarrow>
    readNext q ops x11 (P\<lparr>p_stream := ts\<rparr>) = Inr P' \<Longrightarrow> session q ops x11 (cs @ stream_commands ts) P'"
| session_timer: "session q ops x11 cs P \<Longrightarrow> p_timers P = m # ms \<Longrightarrow>
    waitFinished q ops (P\<lparr>p_timers := ms\<rparr>) = Inr P' \<Longrightarrow> session q ops x11 cs P'"
| session_mouse: "session q ops x11 cs P \<Longrightarrow>
    player_eventFilter q ops receiver type P = Inr (swallowed, P') \<Longrightarrow> session q ops x11 cs P'"
| session_app: "session q ops x11 cs P \<Longrightarrow> session q ops x11 cs (P\<lparr>p_app := a\<rparr>)"

lemma waitFinished_account:
  assumes "settled P" and "p_timers P = m # ms" and "waitFinished q ops (P\<lparr>p_timers := ms\<rparr>) = Inr P'"
  shows "settled P' \<and> account P' = account P"
proof -
  have wait: "m_mode P = Playback" "ms = []"
    using assms(1,2) by (auto simp: settled_def waiting_def idle_def split: if_splits)
  let ?P = "(ack (P\<lparr>p_timers := ms\<rparr>))\<lparr>m_processingEvents := False\<rparr>"
  have "account ?P = account P"
    using wait assms(2) by (auto simp: account_def owed_def owed_wait_def ack_def send_def)
  moreover have "idle ?P" using wait by (auto simp: idle_def)
  ultimately show ?thesis
    using processEvents_account [of q ops ?P P'] assms(3) by (simp add: waitFinished_def)
qed

lemma eventFilter_account:
  assumes "settled P" and "player_eventFilter q ops receiver type P = Inr (b, P')"
  shows "settled P' \<and> account P' = account P"
proof (cases "m_mode P = Pick \<and> type = MouseButtonRelease")
  case True
  then obtain o' where e: "endPick q ops (send (R_PICKED o') P) = Inr P'"
    using assms(2) by (auto simp: player_eventFilter_def Let_def map_sum_Inr_iff)
  let ?P = "(act ops HidePickWidget ((send (R_PICKED o') P)\<lparr>m_mode := Playback\<rparr>))\<lparr>m_processingEvents := False\<rparr>"
  have timers: "p_timers P = []" "m_mode P = Pick"
    using assms(1) True by (auto simp: settled_def waiting_def idle_def split: if_splits)
  have "idle ?P" using timers by (simp add: idle_def act_def send_def)
  moreover have "account ?P = account P"
    using timers by (simp add: account_def owed_def owed_wait_def act_def send_def)
  ultimately show ?thesis
    using processEvents_account [of q ops ?P P'] e by (simp add: endPick_def)
next
  case False
  with assms show ?thesis by (auto simp: player_eventFilter_def split: if_splits mouse_type.splits)
qed

lemma session_account: "session q ops x11 cs P \<Longrightarrow> settled P \<and> account P = cs"
proof (induction rule: session.induct)
  case (session_start unset a)
  then show ?case
    by (simp add: settled_def account_def owed_def owed_wait_def idle_def new_Player_def)
next
  case (session_data cs P ts P')
  let ?P = "P\<lparr>p_stream := ts\<rparr>"
  have "settled ?P" "account ?P = cs" using session_data.IH by simp_all
  with readNext_account [OF session_data.hyps(3)] session_data.hyps(2) show ?case by simp
next
  case (session_timer cs P m ms P')
  with waitFinished_account show ?case by blast
next
  case (session_mouse cs P receiver type swallowed P')
  with eventFilter_account show ?case by blast
next
  case (session_app cs P a)
  then show ?case by simp
qed

text \<open>
  C18. Every command is answered exactly once and in order: at any moment of a session the
  answers written so far, followed by the ones still owed, are the answers that the commands so
  far ask for. In particular an idle player has answered everything; a drag and drop, which is
  many events, has a single answer.
\<close>

theorem commands_answered_in_order:
  assumes "session q ops x11 cs P"
  shows "completions (p_written P) @ owed P = cs \<and>
    (\<not> m_processingEvents P \<longrightarrow> completions (p_written P) = cs)"
proof -
  have "owed P = []" if "settled P" "\<not> m_processingEvents P"
    using that by (simp add: settled_def owed_def owed_wait_def idle_def)
  with session_account [OF assms] show ?thesis by (auto simp: account_def)
qed

definition sample_ops :: "unit app_ops" where
  "sample_ops = \<lparr>app_tree = (\<lambda>a. sample_tree), app_perform = (\<lambda>act a. a),
     app_mapToGlobal = (\<lambda>a w p. p), app_focusProxy = (\<lambda>a w. None),
     app_startDragTime = 500, app_startDragDistance = 4\<rparr>"

definition sleep_command :: xml_stream where
  "sleep_command = [StartElement ''msec'' [], Characters ''10'', EndElement ''msec'']"

lemma sleep_session:
  "\<exists>P. session qt_decimal sample_ops True [C_ACK] P \<and> p_written P = [R_ACK] \<and> \<not> m_processingEvents P"
proof -
  let ?P0 = "new_Player False () :: unit player"
  have cmds: "stream_commands sleep_command = [C_ACK]"
    by (simp add: sleep_command_def command_completion_def behind_command_def)
  have ten: "qt_toInt qt_decimal ''10'' = 10" by code_simp
  let ?P1 = "?P0\<lparr>p_stream := [], p_token := EndElement ''msec'', m_processingEvents := True,
    m_ackNext := True, p_timers := [10]\<rparr>"
  have "readNext qt_decimal sample_ops True (?P0\<lparr>p_stream := sleep_command\<rparr>) = Inr ?P1"
    by (simp add: sleep_command_def readNext.simps handleElement_def player_defs processEvents_def
        process_event_def new_Player_def ten sample_ops_def)
  moreover have "EndDocument \<notin> set sleep_command" by (simp add: sleep_command_def)
  ultimately have "session qt_decimal sample_ops True [C_ACK] ?P1"
    using session_data [OF session_start, of sleep_command qt_decimal sample_ops True False "()" ?P1] cmds by simp
  moreover have "p_timers ?P1 = 10 # []" by simp
  moreover have "waitFinished qt_decimal sample_ops (?P1\<lparr>p_timers := []\<rparr>) =
      Inr (?P1\<lparr>p_timers := [], m_processingEvents := False, p_written := [R_ACK]\<rparr>)"
    by (simp add: waitFinished_def processEvents_def ack_def send_def new_Player_def)
  ultimately show ?thesis
    using session_timer by fastforce
qed

theorem commands_answered_in_order_witness:
  "\<exists>P. session qt_decimal sample_ops True [C_ACK] P \<and> completions (p_written P) = [C_ACK]"
  using sleep_session commands_answered_in_order by blast

end
