(* ===== verification/Hooq_Logger.thy ===== *)
theory Hooq_Logger
  imports Hooq_Player
begin

text \<open>
  Recording inside the tested application: the event filter of \<open>injectedHooq/Logger.cpp\<close>, which
  writes an XML element for every event of interest, the buffer that turns a press, its
  movements and its release into one drag and drop, and the flag that \<open>CanaryEvent\<close> keeps while
  inferred events are ignored.
\<close>

section \<open>State\<close>

text \<open>The events that reach the filter.\<close>

datatype seen_event =
    Seen qevent
  | CloseSeen
  | FocusIn int
  | Drop point
  | Canary
  | OtherEvent nat

datatype writer_device = ToSocket | ToBuffer

text \<open>
  What was written is a list of pieces: the opening of the document, whole elements, and the end
  of the document.
\<close>

datatype piece = DocumentStart | Elem xml_node | DocumentEnd

record logger =
  m_ignoreEvents :: bool
  m_writer :: writer_device
  m_dragOriginPoint :: point
  m_dragOriginWidget :: "objid option"
  m_dragAndDropBuffer :: "piece list"
  l_device :: "piece list"
  m_lastEvent :: "seen_event option"
  l_finished :: bool

definition new_Logger :: logger where
  "new_Logger = \<lparr>m_ignoreEvents = False, m_writer = ToSocket, m_dragOriginPoint = (0, 0),
     m_dragOriginWidget = None, m_dragAndDropBuffer = [], l_device = [DocumentStart],
     m_lastEvent = None, l_finished = False\<rparr>"

definition l_write :: "piece list \<Rightarrow> logger \<Rightarrow> logger" where
  "l_write ps L = (case m_writer L of
     ToSocket \<Rightarrow> L\<lparr>l_device := l_device L @ ps\<rparr>
   | ToBuffer \<Rightarrow> L\<lparr>m_dragAndDropBuffer := m_dragAndDropBuffer L @ ps\<rparr>)"

definition clearDragAndDropBuffer :: "logger \<Rightarrow> logger" where
  "clearDragAndDropBuffer L = L\<lparr>m_dragAndDropBuffer := []\<rparr>"

definition startDragAndDropBuffer :: "logger \<Rightarrow> logger" where
  "startDragAndDropBuffer L = (clearDragAndDropBuffer L)\<lparr>m_writer := ToBuffer\<rparr>"

definition flushDragAndDropBuffer :: "logger \<Rightarrow> logger" where
  "flushDragAndDropBuffer L =
     clearDragAndDropBuffer (L\<lparr>l_device := l_device L @ m_dragAndDropBuffer L\<rparr>)"

definition stopDragAndDropBuffer :: "logger \<Rightarrow> logger" where
  "stopDragAndDropBuffer L = clearDragAndDropBuffer (L\<lparr>m_writer := ToSocket\<rparr>)"

text \<open>
  \<open>Logger::readInput\<close> and the destructor. \<open>readInput\<close> reads from the device of the writer: while
  that is the write-only buffer, it gets an empty line instead of what is in the socket.
\<close>

definition readInput :: "qtext \<Rightarrow> logger \<Rightarrow> logger" where
  "readInput socketLine L =
     (let line = (case m_writer L of ToSocket \<Rightarrow> socketLine | ToBuffer \<Rightarrow> [])
      in if line = ''STOP'' then L\<lparr>l_finished := True\<rparr> else L)"

definition destroy_Logger :: "logger \<Rightarrow> logger" where
  "destroy_Logger L = flushDragAndDropBuffer (l_write [DocumentEnd] L)"

text \<open>A canary sets the flag while it exists.\<close>

definition new_CanaryEvent :: "logger \<Rightarrow> logger" where
  "new_CanaryEvent L = L\<lparr>m_ignoreEvents := True\<rparr>"

definition delete_CanaryEvent :: "logger \<Rightarrow> logger" where
  "delete_CanaryEvent L = L\<lparr>m_ignoreEvents := False\<rparr>"

section \<open>Attributes\<close>

definition flag_text :: "qt \<Rightarrow> flags \<Rightarrow> qtext" where
  "flag_text q m = qt_number q (sint m)"

definition bool_text :: "bool \<Rightarrow> qtext" where
  "bool_text b = (if b then ''true'' else ''false'')"

definition safeText :: "qt \<Rightarrow> qtext \<Rightarrow> qtext" where
  "safeText q s = filter (qt_isPrint q) s"

definition contextMenuEventAttributes :: "qt \<Rightarrow> int \<Rightarrow> point \<Rightarrow> point \<Rightarrow> flags \<Rightarrow> attributes" where
  "contextMenuEventAttributes q reason pos globalPos modifiers =
     [(''x'', qt_number q (fst pos)), (''y'', qt_number q (snd pos)),
      (''globalX'', qt_number q (fst globalPos)), (''globalY'', qt_number q (snd globalPos)),
      (''reason'', qt_number q reason), (''modifiers'', flag_text q modifiers)]"

definition keyEventAttributes :: "qt \<Rightarrow> int \<Rightarrow> flags \<Rightarrow> qtext \<Rightarrow> bool \<Rightarrow> int \<Rightarrow> attributes" where
  "keyEventAttributes q key modifiers text isAutoRepeat count =
     [(''key'', qt_number q key), (''modifiers'', flag_text q modifiers),
      (''text'', safeText q text), (''isAutoRepeat'', bool_text isAutoRepeat),
      (''count'', qt_number q count)]"

definition mouseEventAttributes :: "qt \<Rightarrow> point \<Rightarrow> flags \<Rightarrow> flags \<Rightarrow> flags \<Rightarrow> attributes" where
  "mouseEventAttributes q pos button buttons modifiers =
     [(''x'', qt_number q (fst pos)), (''y'', qt_number q (snd pos)),
      (''button'', flag_text q button), (''buttons'', flag_text q buttons),
      (''modifiers'', flag_text q modifiers)]"

definition wheelEventAttributes :: "qt \<Rightarrow> point \<Rightarrow> int \<Rightarrow> flags \<Rightarrow> flags \<Rightarrow> orientation \<Rightarrow> attributes" where
  "wheelEventAttributes q pos delta buttons modifiers orient =
     [(''x'', qt_number q (fst pos)), (''y'', qt_number q (snd pos)),
      (''delta'', qt_number q delta), (''buttons'', flag_text q buttons),
      (''modifiers'', flag_text q modifiers),
      (''orientation'', if orient = Vertical then ''vertical'' else ''horizontal'')]"

definition shortcutEventAttributes :: "qt \<Rightarrow> qtext \<Rightarrow> int \<Rightarrow> bool \<Rightarrow> attributes" where
  "shortcutEventAttributes q key shortcutId isAmbiguous =
     [(''string'', key), (''id'', qt_number q shortcutId), (''ambiguous'', bool_text isAmbiguous)]"

definition focusEventAttributes :: "qt \<Rightarrow> int \<Rightarrow> attributes" where
  "focusEventAttributes q reason = [(''reason'', qt_number q reason)]"

section \<open>The event filter\<close>

text \<open>What the filter sees of the application: the object tree and the focus proxies.\<close>

record app_view =
  view_tree :: qtree
  view_focusProxy :: "objid \<Rightarrow> objid option"

definition focusObject :: "app_view \<Rightarrow> objid \<Rightarrow> objid option" where
  "focusObject v receiver =
     (if \<not> obj_isWidget (tree_object (view_tree v) receiver) then None
      else case view_focusProxy v receiver of Some w \<Rightarrow> Some w | None \<Rightarrow> Some receiver)"

definition msec_element :: "qt \<Rightarrow> int \<Rightarrow> xml_node" where
  "msec_element q elapsed = XElement ''msec'' [] [XText (qt_number q elapsed)]"

text \<open>
  \<open>outputEvent\<close>; \<open>elapsed\<close> is what \<open>m_timer.restart()\<close> returns. \<open>None\<close>: the path of the receiver
  does not end (its parents form a cycle).
\<close>

definition outputEvent ::
    "qt \<Rightarrow> app_view \<Rightarrow> int \<Rightarrow> objid option \<Rightarrow> qtext \<Rightarrow> attributes \<Rightarrow> objid option \<Rightarrow> logger \<Rightarrow> logger option" where
  "outputEvent q v elapsed receiver event atts originalReceiver L = (case receiver of
     None \<Rightarrow> Some L
   | Some r \<Rightarrow>
       (case objectPath q (view_tree v) r of
          None \<Rightarrow> None
        | Some path \<Rightarrow>
            let base = atts @ [(''target'', path),
                  (''targetClass'', obj_className (tree_object (view_tree v) r))]
            in map_option (\<lambda>original.
                 l_write [Elem (msec_element q elapsed), Elem (XElement event (base @ original) [])] L)
               (case originalReceiver of
                  None \<Rightarrow> Some []
                | Some r' \<Rightarrow> if r \<noteq> r'
                    then map_option (\<lambda>p. [(''originalTarget'', p)]) (objectPath q (view_tree v) r')
                    else Some [])))"

text \<open>The path of the null object is empty.\<close>

definition optional_path :: "qt \<Rightarrow> qtree \<Rightarrow> objid option \<Rightarrow> qtext option" where
  "optional_path q t x = (case x of None \<Rightarrow> Some [] | Some o' \<Rightarrow> objectPath q t o')"

definition outputDragAndDropEvent ::
    "qt \<Rightarrow> app_view \<Rightarrow> int \<Rightarrow> objid \<Rightarrow> point \<Rightarrow> logger \<Rightarrow> logger option" where
  "outputDragAndDropEvent q v elapsed receiver pos L =
     (case (optional_path q (view_tree v) (m_dragOriginWidget L), objectPath q (view_tree v) receiver) of
        (Some source, Some target) \<Rightarrow>
          Some ((l_write [Elem (msec_element q elapsed),
             Elem (XElement ''dragAndDrop''
               [(''source'', source), (''sourceX'', qt_number q (fst (m_dragOriginPoint L))),
                (''sourceY'', qt_number q (snd (m_dragOriginPoint L))), (''target'', target),
                (''targetX'', qt_number q (fst pos)), (''targetY'', qt_number q (snd pos))] [])] L)
             \<lparr>m_dragOriginWidget := None, m_dragOriginPoint := (0, 0)\<rparr>)
      | _ \<Rightarrow> None)"

definition is_release :: "seen_event option \<Rightarrow> bool" where
  "is_release e = (case e of Some (Seen (QMouseEvent MouseButtonRelease _ _ _ _ _)) \<Rightarrow> True | _ \<Rightarrow> False)"

definition is_drop :: "seen_event \<Rightarrow> bool" where
  "is_drop e = (case e of Drop p \<Rightarrow> True | _ \<Rightarrow> False)"

definition mouse_element :: "mouse_type \<Rightarrow> qtext" where
  "mouse_element type = (case type of
     MouseMove \<Rightarrow> ''mouseMove'' | MouseButtonPress \<Rightarrow> ''mouseButtonPress''
   | MouseButtonRelease \<Rightarrow> ''mouseButtonRelease'' | MouseButtonDblClick \<Rightarrow> ''mouseButtonDoubleClick'')"

definition key_element :: "key_type \<Rightarrow> qtext" where
  "key_element type = (case type of KeyPress \<Rightarrow> ''keyPress'' | KeyRelease \<Rightarrow> ''keyRelease'')"

text \<open>The \<open>switch\<close> on the type of the event.\<close>

definition log_event ::
    "qt \<Rightarrow> app_view \<Rightarrow> int \<Rightarrow> objid \<Rightarrow> seen_event \<Rightarrow> logger \<Rightarrow> logger option" where
  "log_event q v elapsed receiver event L =
     (let output = (\<lambda>name atts. outputEvent q v elapsed (Some receiver) name atts None) in
      case event of
        CloseSeen \<Rightarrow> output ''windowClosed'' [] L
      | FocusIn reason \<Rightarrow>
          outputEvent q v elapsed (focusObject v receiver) ''focusChanged''
            (focusEventAttributes q reason) (Some receiver) L
      | Seen (QContextMenuEvent reason pos globalPos modifiers) \<Rightarrow>
          output ''contextMenu'' (contextMenuEventAttributes q reason pos globalPos modifiers) L
      | Seen (QKeyEvent type key modifiers text rep count) \<Rightarrow>
          output (key_element type) (keyEventAttributes q key modifiers text rep count) L
      | Seen (QMouseEvent type pos globalPos button buttons modifiers) \<Rightarrow>
          output (mouse_element type) (mouseEventAttributes q pos button buttons modifiers)
            (if type = MouseButtonPress
             then (startDragAndDropBuffer L)\<lparr>m_dragOriginWidget := Some receiver, m_dragOriginPoint := pos\<rparr>
             else L)
      | Seen (QShortcutEvent key shortcutId ambiguous) \<Rightarrow>
          output ''shortcut'' (shortcutEventAttributes q key shortcutId ambiguous) L
      | Seen (QWheelEvent pos delta buttons modifiers orient) \<Rightarrow>
          output ''mouseWheel'' (wheelEventAttributes q pos delta buttons modifiers orient) L
      | Drop pos \<Rightarrow> outputDragAndDropEvent q v elapsed receiver pos L
      | _ \<Rightarrow> Some L)"

definition logger_eventFilter ::
    "qt \<Rightarrow> app_view \<Rightarrow> int \<Rightarrow> objid \<Rightarrow> seen_event \<Rightarrow> logger \<Rightarrow> logger option" where
  "logger_eventFilter q v elapsed receiver event L =
     (if m_ignoreEvents L \<and> \<not> is_drop event then Some L
      else
        let L1 = (if is_release (m_lastEvent L)
                  then stopDragAndDropBuffer (if \<not> is_drop event then flushDragAndDropBuffer L else L)
                  else L)
        in map_option (\<lambda>L2. if is_drop event then L2
                            else new_CanaryEvent (L2\<lparr>m_lastEvent := Some event\<rparr>))
             (log_event q v elapsed receiver event L1))"

end
