(* ===== verification/Logger_Protocol.thy ===== *)
theory Logger_Protocol
  imports Hooq_Logger
begin

text \<open>
  What a recording holds: nothing that the filter accepts is lost on the way through the
  drag-and-drop buffer, except where the buffer is thrown away on purpose.
\<close>

section \<open>The buffer\<close>

text \<open>What was recorded: what is on the socket and what waits in the buffer.\<close>

definition recorded :: "logger \<Rightarrow> piece list" where
  "recorded L = l_device L @ m_dragAndDropBuffer L"

definition buffer_ok :: "logger \<Rightarrow> bool" where
  "buffer_ok L \<longleftrightarrow> (m_writer L = ToSocket \<longrightarrow> m_dragAndDropBuffer L = [])"

lemmas buffer_defs = clearDragAndDropBuffer_def startDragAndDropBuffer_def flushDragAndDropBuffer_def
  stopDragAndDropBuffer_def

lemma recorded_write: "buffer_ok L \<Longrightarrow> recorded (l_write ps L) = recorded L @ ps"
  by (auto simp: recorded_def buffer_ok_def l_write_def split: writer_device.splits)

lemma l_write_Nil [simp]: "l_write [] L = L"
  by (cases "m_writer L") (simp_all add: l_write_def)

lemma l_write_simps [simp]:
  "m_writer (l_write ps L) = m_writer L" "m_lastEvent (l_write ps L) = m_lastEvent L"
  "m_ignoreEvents (l_write ps L) = m_ignoreEvents L" "buffer_ok L \<Longrightarrow> buffer_ok (l_write ps L)"
  by (auto simp: l_write_def buffer_ok_def split: writer_device.splits)

lemma flush_stop:
  "recorded (stopDragAndDropBuffer (flushDragAndDropBuffer L)) = recorded L"
  "m_writer (stopDragAndDropBuffer (flushDragAndDropBuffer L)) = ToSocket"
  "buffer_ok (stopDragAndDropBuffer L)"
  by (simp_all add: recorded_def buffer_defs buffer_ok_def)

text \<open>What an event writes, whatever was written before it.\<close>

definition event_pieces ::
    "qt \<Rightarrow> app_view \<Rightarrow> int \<Rightarrow> objid \<Rightarrow> seen_event \<Rightarrow> piece list option" where
  "event_pieces q v elapsed receiver event =
     map_option recorded (log_event q v elapsed receiver event (new_Logger\<lparr>l_device := []\<rparr>))"

definition is_press :: "seen_event \<Rightarrow> bool" where
  "is_press e = (case e of Seen (QMouseEvent MouseButtonPress _ _ _ _ _) \<Rightarrow> True | _ \<Rightarrow> False)"

text \<open>\<open>outputEvent\<close> writes the same pieces to every logger.\<close>

lemma outputEvent_pieces:
  assumes "outputEvent q v elapsed receiver name atts original L = Some L'"
  shows "\<exists>ps. (\<forall>K. outputEvent q v elapsed receiver name atts original K = Some (l_write ps K))"
proof (cases receiver)
  case None
  then have "outputEvent q v elapsed receiver name atts original K = Some (l_write [] K)" for K
    by (simp add: outputEvent_def l_write_def split: writer_device.splits)
  then show ?thesis by blast
next
  case (Some r)
  with assms show ?thesis
    by (auto simp: outputEvent_def Let_def split: option.splits) blast
qed

text \<open>
  Every event but a drop is nothing to write, or one call of \<open>outputEvent\<close>; a press empties the
  buffer and redirects the writer before.
\<close>

definition press_prepares :: "seen_event \<Rightarrow> objid \<Rightarrow> logger \<Rightarrow> logger" where
  "press_prepares event receiver L = (case event of
     Seen (QMouseEvent MouseButtonPress pos _ _ _ _) \<Rightarrow>
       (startDragAndDropBuffer L)\<lparr>m_dragOriginWidget := Some receiver, m_dragOriginPoint := pos\<rparr>
   | _ \<Rightarrow> L)"

lemma press_prepares_simps [simp]:
  "\<not> is_press event \<Longrightarrow> press_prepares event receiver L = L"
  "is_press event \<Longrightarrow> m_writer (press_prepares event receiver L) = ToBuffer"
  "is_press event \<Longrightarrow> m_dragAndDropBuffer (press_prepares event receiver L) = []"
  "l_device (press_prepares event receiver L) = l_device L"
  by (auto simp: press_prepares_def is_press_def buffer_defs split: seen_event.splits qevent.splits mouse_type.splits)

lemma log_event_shape:
  assumes "\<not> is_drop event"
  shows "(\<not> is_press event \<and> (\<forall>K. log_event q v elapsed receiver event K = Some K)) \<or>
    (\<exists>recv name atts original. \<forall>K. log_event q v elapsed receiver event K =
       outputEvent q v elapsed recv name atts original (press_prepares event receiver K))"
proof (cases event)
  case (Seen e)
  show ?thesis
  proof (cases e)
    case (QMouseEvent type pos g b bs m)
    with Seen have "log_event q v elapsed receiver event K =
        outputEvent q v elapsed (Some receiver) (mouse_element type) (mouseEventAttributes q pos b bs m) None
          (press_prepares event receiver K)" for K
      by (cases type) (simp_all add: log_event_def press_prepares_def Let_def)
    then show ?thesis by blast
  qed (use Seen in \<open>auto simp: log_event_def press_prepares_def is_press_def Let_def\<close>)
qed (use assms in \<open>auto simp: log_event_def press_prepares_def is_drop_def is_press_def Let_def\<close>)

lemma press_prepares_ok:
  "buffer_ok L \<Longrightarrow> buffer_ok (press_prepares event receiver L)"
  "recorded (press_prepares event receiver L) = (if is_press event then l_device L else recorded L)"
  by (cases "is_press event"; simp add: buffer_ok_def recorded_def)+

lemma log_event_writes:
  assumes "log_event q v elapsed receiver event L = Some L'" and "\<not> is_drop event"
  shows "\<exists>ps. event_pieces q v elapsed receiver event = Some ps \<and>
    L' = l_write ps (press_prepares event receiver L)"
proof -
  let ?base = "new_Logger\<lparr>l_device := []\<rparr>"
  have base: "buffer_ok (press_prepares event receiver ?base)" "recorded (press_prepares event receiver ?base) = []"
    using press_prepares_ok [where L = ?base and event = event and receiver = receiver]
    by (auto simp: buffer_ok_def recorded_def new_Logger_def)
  from log_event_shape [OF assms(2), of q v elapsed receiver] show ?thesis
  proof (elim disjE conjE exE)
    assume "\<not> is_press event" "\<forall>K. log_event q v elapsed receiver event K = Some K"
    with assms(1) base show ?thesis by (auto simp: event_pieces_def)
  next
    fix recv name atts original
    assume eq: "\<forall>K. log_event q v elapsed receiver event K =
        outputEvent q v elapsed recv name atts original (press_prepares event receiver K)"
    with assms(1) obtain ps where
        ps: "\<And>K. outputEvent q v elapsed recv name atts original K = Some (l_write ps K)"
      using outputEvent_pieces [of q v elapsed recv name atts original] by metis
    with eq assms(1) base show ?thesis
      by (auto simp: event_pieces_def recorded_write)
  qed
qed

section \<open>A recording session\<close>

text \<open>While a button is held the writer fills the buffer.\<close>

definition buffering :: "logger \<Rightarrow> bool" where
  "buffering L \<longleftrightarrow> m_writer L = ToBuffer \<and> \<not> is_release (m_lastEvent L)"

lemma filter_event:
  assumes "logger_eventFilter q v elapsed receiver event L = Some L'" and "buffer_ok L"
    and "\<not> is_drop event" and "\<not> m_ignoreEvents L"
  shows "\<exists>ps. event_pieces q v elapsed receiver event = Some ps \<and> buffer_ok L' \<and>
    (\<not> (is_press event \<and> buffering L) \<longrightarrow> recorded L' = recorded L @ ps) \<and>
    (is_press event \<and> buffering L \<longrightarrow> recorded L' = l_device L @ ps)"
proof -
  define L1 where "L1 = (if is_release (m_lastEvent L)
    then stopDragAndDropBuffer (flushDragAndDropBuffer L) else L)"
  have L1: "buffer_ok L1" "recorded L1 = recorded L"
    using assms(2) by (simp_all add: L1_def flush_stop)
  have empty: "m_dragAndDropBuffer L1 = []" if "\<not> buffering L"
    using that assms(2) by (cases "m_writer L") (auto simp: L1_def buffering_def buffer_defs buffer_ok_def)
  obtain L2 where L2: "log_event q v elapsed receiver event L1 = Some L2"
      "L' = new_CanaryEvent (L2\<lparr>m_lastEvent := Some event\<rparr>)"
    using assms by (auto simp: logger_eventFilter_def L1_def Let_def split: if_splits)
  from log_event_writes [OF L2(1) assms(3)] obtain ps where
      ps: "event_pieces q v elapsed receiver event = Some ps" "L2 = l_write ps (press_prepares event receiver L1)"
    by blast
  have "recorded L2 = (if is_press event then l_device L1 else recorded L1) @ ps" "buffer_ok L2"
    using ps(2) press_prepares_ok [where L = L1 and event = event and receiver = receiver] L1(1) by (simp_all add: recorded_write)
  moreover have "recorded L' = recorded L2" "buffer_ok L' = buffer_ok L2"
    by (simp_all add: L2(2) new_CanaryEvent_def recorded_def buffer_ok_def)
  moreover have "l_device L1 = recorded L" if "\<not> buffering L"
    using empty [OF that] L1(2) by (simp add: recorded_def)
  moreover have "l_device L1 = l_device L" if "buffering L" using that by (simp add: L1_def buffering_def)
  ultimately show ?thesis using ps(1) L1(2) by auto
qed

text \<open>
  A drop after a release replaces what the buffer holds (the press, the movements and the
  release) by one element.
\<close>

lemma filter_drop:
  assumes "logger_eventFilter q v elapsed receiver (Drop pos) L = Some L'" and "is_release (m_lastEvent L)"
  shows "\<exists>e. recorded L' = l_device L @ [Elem (msec_element q elapsed), Elem (XElement ''dragAndDrop'' e [])] \<and>
    buffer_ok L' \<and> m_lastEvent L' = m_lastEvent L"
  using assms
  by (auto simp: logger_eventFilter_def log_event_def outputDragAndDropEvent_def is_drop_def l_write_def
      recorded_def buffer_ok_def buffer_defs Let_def split: option.splits prod.splits)

text \<open>
  A session, with the pieces that it must have recorded: events while the canary is in the
  queue are ignored; a press while another button is held is excluded (see below).
\<close>

inductive log_session :: "qt \<Rightarrow> logger \<Rightarrow> piece list \<Rightarrow> bool" for q where
  log_start: "log_session q new_Logger []"
| log_ignored: "log_session q L ps \<Longrightarrow> m_ignoreEvents L \<Longrightarrow> \<not> is_drop event \<Longrightarrow>
    logger_eventFilter q v elapsed receiver event L = Some L' \<Longrightarrow> log_session q L' ps"
| log_logged: "log_session q L ps \<Longrightarrow> \<not> m_ignoreEvents L \<Longrightarrow> \<not> is_drop event \<Longrightarrow>
    \<not> (is_press event \<and> buffering L) \<Longrightarrow> event_pieces q v elapsed receiver event = Some new \<Longrightarrow>
    logger_eventFilter q v elapsed receiver event L = Some L' \<Longrightarrow> log_session q L' (ps @ new)"
| log_drop: "log_session q L (ps @ dragged) \<Longrightarrow> is_release (m_lastEvent L) \<Longrightarrow>
    m_dragAndDropBuffer L = dragged \<Longrightarrow>
    logger_eventFilter q v elapsed receiver (Drop pos) L = Some L' \<Longrightarrow>
    recorded L' = l_device L @ new \<Longrightarrow> log_session q L' (ps @ new)"
| log_canary: "log_session q L ps \<Longrightarrow> log_session q (delete_CanaryEvent L) ps"

lemma log_session_recorded: "log_session q L ps \<Longrightarrow> buffer_ok L \<and> recorded L = DocumentStart # ps"
proof (induction rule: log_session.induct)
  case log_start
  then show ?case by (simp add: buffer_ok_def recorded_def new_Logger_def)
next
  case (log_ignored L ps event v elapsed receiver L')
  then show ?case by (simp add: logger_eventFilter_def)
next
  case (log_logged L ps event v elapsed receiver new L')
  with filter_event [OF log_logged.hyps(6)] show ?case by auto
next
  case (log_drop L ps dragged v elapsed receiver pos L' new)
  with filter_drop [OF log_drop.hyps(4,2)] show ?case by (auto simp: recorded_def)
next
  case (log_canary L ps)
  then show ?case by (simp add: delete_CanaryEvent_def buffer_ok_def recorded_def)
qed

lemma destroyed_device: "buffer_ok L \<Longrightarrow> l_device (destroy_Logger L) = recorded L @ [DocumentEnd]"
  using recorded_write [of L "[DocumentEnd]"]
  by (auto simp: destroy_Logger_def flushDragAndDropBuffer_def clearDragAndDropBuffer_def recorded_def)


definition sample_view :: app_view where
  "sample_view = \<lparr>view_tree = sample_tree, view_focusProxy = (\<lambda>x. None)\<rparr>"

lemma sample_log_session:
  "\<exists>L. log_session qt_decimal L [Elem (XElement ''msec'' [] [XText ''7'']),
     Elem (XElement ''windowClosed'' [(''target'', ''Main''), (''targetClass'', ''QMainWindow'')] [])]"
proof -
  let ?ps = "[Elem (XElement ''msec'' [] [XText ''7'']),
     Elem (XElement ''windowClosed'' [(''target'', ''Main''), (''targetClass'', ''QMainWindow'')] [])]"
  have path: "objectPath qt_decimal sample_tree 0 = Some ''Main''" by code_simp
  have seven: "qt_number qt_decimal 7 = ''7''" by code_simp
  have log: "log_event qt_decimal sample_view 7 0 CloseSeen K = Some (l_write ?ps K)" for K
    using path seven
    by (simp add: log_event_def outputEvent_def sample_view_def msec_element_def sample_tree_def Let_def)
  then have "event_pieces qt_decimal sample_view 7 0 CloseSeen = Some ?ps"
    by (simp add: event_pieces_def recorded_def l_write_def new_Logger_def)
  moreover have "\<exists>L'. logger_eventFilter qt_decimal sample_view 7 0 CloseSeen new_Logger = Some L'"
    using log by (simp add: logger_eventFilter_def is_drop_def new_Logger_def is_release_def)
  moreover have "\<not> m_ignoreEvents new_Logger" "\<not> is_drop CloseSeen" "\<not> is_press CloseSeen"
    by (simp_all add: new_Logger_def is_drop_def is_press_def)
  ultimately obtain L' where "log_session qt_decimal L' ([] @ ?ps)"
    using log_logged [OF log_start] by blast
  then show ?thesis by auto
qed


text \<open>
  A press while another button is held throws away what the buffer holds: everything
  recorded since the first press is lost from the recording.
\<close>

lemma second_press_loses_buffer:
  assumes "logger_eventFilter q v elapsed receiver event L = Some L'" and "is_press event"
    and "buffering L" and "\<not> m_ignoreEvents L"
  shows "\<exists>ps. event_pieces q v elapsed receiver event = Some ps \<and> recorded L' = l_device L @ ps"
proof -
  have "\<not> is_drop event" using assms(2) by (auto simp: is_press_def is_drop_def split: seen_event.splits)
  moreover have "buffer_ok L" using assms(3) by (simp add: buffer_ok_def buffering_def)
  ultimately show ?thesis using filter_event [OF assms(1)] assms(2-4) by blast
qed

end
