(* ===== verification/Remote_Objects.thy ===== *)
theory Remote_Objects
  imports Hooq_Player Script_Items
begin

text \<open>
  The script's side of playback: the objects a script calls
  (\<open>hooq/RemoteObjectPrototype.cpp\<close>, \<open>hooq/RemoteApplicationPrototype.cpp\<close>), the global functions
  of \<open>hooq/ScriptInterface.cpp\<close> and the elements that \<open>hooq/Interpreter.cpp\<close> writes for the
  signals of the objects.

  The script engine is third-party: a call arrives as a method name and a map of evaluated
  parameters. Coordinates of the intermediate positions of a movement are computed in
  floating point by Qt and are the parameter \<open>position_at\<close>.
\<close>

section \<open>Signals\<close>

datatype signal =
    MouseSignal mouse_type qtext point flags flags flags
  | KeySignal key_type qtext int flags qtext bool int
  | ContextMenuSignal qtext point point flags
  | WheelSignal qtext point int flags flags orientation
  | CloseSignal qtext
  | SetFocusSignal qtext int
  | ShortcutSignal qtext qtext int bool
  | DragAndDropSignal qtext point qtext point
  | SleepRequested int
  | PropertyRequested qtext qtext

text \<open>\<open>QVariant::value<T>()\<close> for the types of the parameters: the default value for another type.\<close>

definition v_button :: "qvariant \<Rightarrow> flags" where
  "v_button v = (case v of VMouseButton b \<Rightarrow> b | _ \<Rightarrow> 0)"

definition v_buttons :: "qvariant \<Rightarrow> flags" where
  "v_buttons v = (case v of VMouseButtons b \<Rightarrow> b | _ \<Rightarrow> 0)"

definition v_modifier :: "qvariant \<Rightarrow> flags" where
  "v_modifier v = (case v of VKeyboardModifier m \<Rightarrow> m | _ \<Rightarrow> 0)"

definition v_qtkey :: "qvariant \<Rightarrow> int" where
  "v_qtkey v = (case v of VKey k \<Rightarrow> k | _ \<Rightarrow> 0)"

definition v_reason :: "qvariant \<Rightarrow> int" where
  "v_reason v = (case v of VFocusReason r \<Rightarrow> r | _ \<Rightarrow> 0)"

definition v_orientation :: "qvariant \<Rightarrow> orientation" where
  "v_orientation v = (case v of VOrientation a \<Rightarrow> a | _ \<Rightarrow> Horizontal)"

definition v_bool :: "qvariant \<Rightarrow> bool" where
  "v_bool v = (case v of VBool b \<Rightarrow> b | VInt n \<Rightarrow> n \<noteq> 0 | _ \<Rightarrow> False)"

text \<open>A variant as \<open>ushort\<close>: a number is reduced to 16 bits.\<close>

definition v_ushort :: "qt \<Rightarrow> qvariant \<Rightarrow> int" where
  "v_ushort q v = v_toInt q v mod 65536"

definition v_point :: "qt \<Rightarrow> qvariant qmap \<Rightarrow> qtext \<Rightarrow> qtext \<Rightarrow> point" where
  "v_point q ps x y = (v_toInt q (qm_value ps x), v_toInt q (qm_value ps y))"

section \<open>RemoteObjectPrototype\<close>

definition raiseMouseEvent :: "qt \<Rightarrow> qtext \<Rightarrow> qvariant qmap \<Rightarrow> mouse_type \<Rightarrow> signal" where
  "raiseMouseEvent q path parameters type =
     MouseSignal type path (v_point q parameters ''x'' ''y'')
       (v_button (qm_value parameters ''button'')) (v_buttons (qm_value parameters ''buttons''))
       (v_modifier (qm_value parameters ''modifiers''))"

definition manhattanLength :: "point \<Rightarrow> int" where
  "manhattanLength p = \<bar>fst p\<bar> + \<bar>snd p\<bar>"

text \<open>
  The body of the loop for one step. \<open>position_at origin diff len i\<close> is one coordinate of
  \<open>(origin + step * i).toPoint()\<close> with \<open>step = diff / len\<close>.
\<close>

definition move_step ::
    "qt \<Rightarrow> (int \<Rightarrow> int \<Rightarrow> int \<Rightarrow> int \<Rightarrow> int) \<Rightarrow> qtext \<Rightarrow> qvariant qmap \<Rightarrow> point \<Rightarrow> point \<Rightarrow> int \<Rightarrow> int \<Rightarrow> int \<Rightarrow> signal list" where
  "move_step q position_at path stepParameters origin diff len interval i =
     (let x = position_at (fst origin) (fst diff) len i;
          y = position_at (snd origin) (snd diff) len i
      in [raiseMouseEvent q path
            (qm_insert ''y'' (VInt y) (qm_insert ''x'' (VInt x) stepParameters)) MouseMove,
          SleepRequested interval])"

definition moveMouse ::
    "qt \<Rightarrow> (int \<Rightarrow> int \<Rightarrow> int \<Rightarrow> int \<Rightarrow> int) \<Rightarrow> qtext \<Rightarrow> qvariant qmap \<Rightarrow> signal list" where
  "moveMouse q position_at path parameters =
     (if \<not> qm_contains parameters ''duration'' then [raiseMouseEvent q path parameters MouseMove]
      else
        let duration = v_toInt q (qm_value parameters ''duration'');
            origin = v_point q parameters ''originX'' ''originY'';
            destination = v_point q parameters ''destinationX'' ''destinationY'';
            stepParameters = qm_remove ''destinationY'' (qm_remove ''destinationX''
              (qm_remove ''originY'' (qm_remove ''originX'' (qm_remove ''duration'' parameters))));
            diff = (fst destination - fst origin, snd destination - snd origin);
            len = manhattanLength diff
        in if len = 0 then []
           else concat (map (move_step q position_at path stepParameters origin diff len
             (sgn duration * (\<bar>duration\<bar> div len))) [0..len]))"

definition raiseKeyEvent :: "qt \<Rightarrow> qtext \<Rightarrow> qvariant qmap \<Rightarrow> key_type \<Rightarrow> signal" where
  "raiseKeyEvent q path parameters type =
     KeySignal type path (v_qtkey (qm_value parameters ''key''))
       (v_modifier (qm_value parameters ''modifiers''))
       (v_toString q (qm_value parameters ''text'')) (v_bool (qm_value parameters ''autorepeat''))
       (v_ushort q (qm_value parameters ''count''))"

abbreviation qKey_Enter :: int where "qKey_Enter \<equiv> 0x01000005"
abbreviation qKey_Shift :: int where "qKey_Shift \<equiv> 0x01000020"
abbreviation qShiftModifier :: flags where "qShiftModifier \<equiv> 0x02000000"

definition keyForChar :: "qt \<Rightarrow> qchar \<Rightarrow> int" where
  "keyForChar q c = (if c = newline then qKey_Enter else qt_toLatin1 q (qt_toLower q c))"

definition send_char :: "qt \<Rightarrow> qtext \<Rightarrow> qchar \<Rightarrow> signal list" where
  "send_char q path c =
     (if qt_isUpper q c then
        [KeySignal KeyPress path qKey_Shift 0 [] False 0, SleepRequested 5,
         KeySignal KeyPress path (qt_toLatin1 q (qt_toLower q c)) qShiftModifier [c] False 0, SleepRequested 5,
         KeySignal KeyRelease path (qt_toLatin1 q (qt_toLower q c)) qShiftModifier [c] False 0, SleepRequested 5,
         KeySignal KeyRelease path qKey_Shift 0 [] False 0, SleepRequested 5]
      else
        [KeySignal KeyPress path (keyForChar q c) 0 [c] False 0, SleepRequested 5,
         KeySignal KeyRelease path (keyForChar q c) 0 [c] False 0, SleepRequested 5])"

definition sendText :: "qt \<Rightarrow> qtext \<Rightarrow> qtext \<Rightarrow> signal list" where
  "sendText q path s = concat (map (send_char q path) s)"

definition remote_contextMenu :: "qt \<Rightarrow> qtext \<Rightarrow> qvariant qmap \<Rightarrow> signal" where
  "remote_contextMenu q path parameters =
     ContextMenuSignal path (v_point q parameters ''x'' ''y'') (v_point q parameters ''globalX'' ''globalY'')
       (v_modifier (qm_value parameters ''modifiers''))"

definition remote_shortcut :: "qt \<Rightarrow> qtext \<Rightarrow> qvariant qmap \<Rightarrow> signal" where
  "remote_shortcut q path parameters =
     ShortcutSignal path (v_toString q (qm_value parameters ''string''))
       (v_toInt q (qm_value parameters ''id'')) (v_bool (qm_value parameters ''ambiguous''))"

definition remote_mouseWheel :: "qt \<Rightarrow> qtext \<Rightarrow> qvariant qmap \<Rightarrow> signal" where
  "remote_mouseWheel q path parameters =
     WheelSignal path (v_point q parameters ''x'' ''y'') (v_toInt q (qm_value parameters ''delta''))
       (v_buttons (qm_value parameters ''buttons'')) (v_modifier (qm_value parameters ''modifiers''))
       (v_orientation (qm_value parameters ''orientation''))"

definition remote_setFocus :: "qtext \<Rightarrow> qvariant qmap \<Rightarrow> signal" where
  "remote_setFocus path parameters = SetFocusSignal path (v_reason (qm_value parameters ''reason''))"

text \<open>
  \<open>drag\<close> returns a script object with the path and the position of the source, which \<open>drop\<close>
  reads from its parameter \<open>dragged\<close>.
\<close>

record drag_source =
  drag_path :: qtext
  drag_point :: point

definition remote_drag :: "qt \<Rightarrow> qtext \<Rightarrow> qvariant qmap \<Rightarrow> drag_source" where
  "remote_drag q path parameters = \<lparr>drag_path = path, drag_point = v_point q parameters ''x'' ''y''\<rparr>"

definition remote_drop :: "qt \<Rightarrow> qtext \<Rightarrow> drag_source \<Rightarrow> qvariant qmap \<Rightarrow> signal" where
  "remote_drop q path dragged parameters =
     DragAndDropSignal (drag_path dragged) (drag_point dragged) path (v_point q parameters ''x'' ''y'')"

text \<open>The slots a script can call with a map of parameters, by name.\<close>

definition call_slot ::
    "qt \<Rightarrow> (int \<Rightarrow> int \<Rightarrow> int \<Rightarrow> int \<Rightarrow> int) \<Rightarrow> qtext \<Rightarrow> qtext \<Rightarrow> qvariant qmap \<Rightarrow> signal list" where
  "call_slot q position_at path method parameters =
     (if method = ''moveMouse'' then moveMouse q position_at path parameters
      else if method = ''doubleClickMouseButton'' then [raiseMouseEvent q path parameters MouseButtonDblClick]
      else if method = ''pressMouseButton'' then [raiseMouseEvent q path parameters MouseButtonPress]
      else if method = ''releaseMouseButton'' then [raiseMouseEvent q path parameters MouseButtonRelease]
      else if method = ''contextMenu'' then [remote_contextMenu q path parameters]
      else if method = ''pressKey'' then [raiseKeyEvent q path parameters KeyPress]
      else if method = ''releaseKey'' then [raiseKeyEvent q path parameters KeyRelease]
      else if method = ''close'' then [CloseSignal path]
      else if method = ''setFocus'' then [remote_setFocus path parameters]
      else if method = ''shortcut'' then [remote_shortcut q path parameters]
      else if method = ''mouseWheel'' then [remote_mouseWheel q path parameters]
      else [])"

section \<open>The elements that the interpreter writes\<close>

definition number_flags :: "qt \<Rightarrow> flags \<Rightarrow> qtext" where
  "number_flags q m = qt_number q (sint m)"

definition writeMouseAttributes :: "qt \<Rightarrow> qtext \<Rightarrow> point \<Rightarrow> flags \<Rightarrow> flags \<Rightarrow> flags \<Rightarrow> attributes" where
  "writeMouseAttributes q path position button buttons modifiers =
     [(''x'', qt_number q (fst position)), (''y'', qt_number q (snd position)),
      (''button'', number_flags q button), (''buttons'', number_flags q buttons),
      (''modifiers'', number_flags q modifiers), (''target'', path)]"

definition writeKeyAttributes :: "qt \<Rightarrow> qtext \<Rightarrow> int \<Rightarrow> flags \<Rightarrow> qtext \<Rightarrow> bool \<Rightarrow> int \<Rightarrow> attributes" where
  "writeKeyAttributes q path key modifiers text autorepeat count =
     [(''key'', qt_number q key), (''modifiers'', number_flags q modifiers), (''text'', text),
      (''autorepeat'', if autorepeat then ''true'' else ''false''), (''count'', qt_number q count),
      (''target'', path)]"

text \<open>The number of a value of \<open>Qt::Orientation\<close>.\<close>

definition orientation_number :: "orientation \<Rightarrow> int" where
  "orientation_number a = (case a of Horizontal \<Rightarrow> 1 | Vertical \<Rightarrow> 2)"

text \<open>The element of a signal: the slots \<open>write...Event\<close>, \<open>writeSleep\<close> and \<open>fetchProperty\<close>.\<close>

definition signal_element :: "qt \<Rightarrow> signal \<Rightarrow> xml_node" where
  "signal_element q s = (case s of
     KeySignal type path key modifiers text autorepeat count \<Rightarrow>
       XElement (case type of KeyPress \<Rightarrow> ''keyPress'' | KeyRelease \<Rightarrow> ''keyRelease'')
         (writeKeyAttributes q path key modifiers text autorepeat count) []
   | SetFocusSignal path reason \<Rightarrow>
       XElement ''focusChanged'' [(''target'', path), (''reason'', qt_number q reason)] []
   | CloseSignal path \<Rightarrow> XElement ''windowClosed'' [(''target'', path)] []
   | MouseSignal type path position button buttons modifiers \<Rightarrow>
       XElement (case type of MouseMove \<Rightarrow> ''mouseMove'' | MouseButtonPress \<Rightarrow> ''mouseButtonPress''
           | MouseButtonRelease \<Rightarrow> ''mouseButtonRelease'' | MouseButtonDblClick \<Rightarrow> ''mouseButtonDoubleClick'')
         (writeMouseAttributes q path position button buttons modifiers) []
   | ContextMenuSignal path position globalPosition modifiers \<Rightarrow>
       XElement ''contextMenu''
         [(''x'', qt_number q (fst position)), (''y'', qt_number q (snd position)),
          (''globalX'', qt_number q (fst globalPosition)), (''globalY'', qt_number q (snd globalPosition)),
          (''modifiers'', number_flags q modifiers), (''target'', path)] []
   | ShortcutSignal path sequence id' ambiguous \<Rightarrow>
       XElement ''shortcut''
         [(''string'', sequence), (''id'', qt_number q id'),
          (''ambiguous'', if ambiguous then ''true'' else ''false''), (''target'', path)] []
   | WheelSignal path position delta buttons modifiers orient \<Rightarrow>
       XElement ''mouseWheel''
         [(''x'', qt_number q (fst position)), (''y'', qt_number q (snd position)),
          (''delta'', qt_number q delta), (''buttons'', number_flags q buttons),
          (''modifiers'', number_flags q modifiers),
          (''orientation'', qt_number q (orientation_number orient)), (''target'', path)] []
   | DragAndDropSignal sourcePath sourcePoint targetPath targetPoint \<Rightarrow>
       XElement ''dragAndDrop''
         [(''source'', sourcePath), (''sourceX'', qt_number q (fst sourcePoint)),
          (''sourceY'', qt_number q (snd sourcePoint)), (''target'', targetPath),
          (''targetX'', qt_number q (fst targetPoint)), (''targetY'', qt_number q (snd targetPoint))] []
   | SleepRequested msec \<Rightarrow> XElement ''msec'' [] [XText (qt_number q msec)]
   | PropertyRequested path name \<Rightarrow> XElement ''dump'' [(''target'', path)] [])"

section \<open>Global script functions\<close>

text \<open>\<open>requireHooqScriptVersion\<close>: the error it throws, if any.\<close>

datatype script_throw = TooNew int int | InvalidVersion int int | AssertionFailed | ComparisonFailed qtext qtext

definition scriptRequireHooqScriptVersion :: "int \<Rightarrow> int \<Rightarrow> script_throw option" where
  "scriptRequireHooqScriptVersion supportedVersion requiredVersion =
     (if requiredVersion > supportedVersion then Some (TooNew requiredVersion supportedVersion)
      else if requiredVersion < 1 then Some (InvalidVersion requiredVersion supportedVersion)
      else None)"

definition scriptAssert :: "bool \<Rightarrow> script_throw option" where
  "scriptAssert success = (if \<not> success then Some AssertionFailed else None)"

definition scriptCompare :: "qt \<Rightarrow> qvariant \<Rightarrow> qvariant \<Rightarrow> script_throw option" where
  "scriptCompare q firstValue secondValue =
     (if \<not> v_eq firstValue secondValue
      then Some (ComparisonFailed (v_toString q firstValue) (v_toString q secondValue)) else None)"

definition scriptMsleep :: "int \<Rightarrow> signal" where
  "scriptMsleep msec = SleepRequested msec"

section \<open>RemoteApplicationPrototype\<close>

record remote_app =
  m_closed :: bool
  m_uuid :: qtext
  m_path :: qtext
  m_arguments :: "qtext list"

definition new_RemoteApplication :: "qtext \<Rightarrow> qtext \<Rightarrow> qtext list \<Rightarrow> remote_app" where
  "new_RemoteApplication uuid path arguments =
     \<lparr>m_closed = False, m_uuid = uuid, m_path = path, m_arguments = arguments\<rparr>"

definition useDefaults :: "remote_app \<Rightarrow> bool" where
  "useDefaults R \<longleftrightarrow> m_path R = []"

text \<open>\<open>close()\<close>: whether \<open>closeRequested\<close> is emitted, and the object afterwards.\<close>

definition remote_app_close :: "remote_app \<Rightarrow> bool \<times> remote_app" where
  "remote_app_close R = (if \<not> m_closed R then (True, R\<lparr>m_closed := True\<rparr>) else (False, R))"

end
