(* ===== verification/Replay.thy ===== *)
theory Replay
  imports Hooq_Logger Remote_Objects Player_Protocol Script_Processors
begin

text \<open>
  From a recorded event to the event that playback posts: the logger writes attributes, the
  recording is read into an item, the script calls a remote object with the item's
  parameters, the interpreter writes an element and the player posts an event. The theorems
  say what arrives of what was recorded.
\<close>

section \<open>The script engine\<close>

text \<open>
  The value a script engine computes for a parameter as \<open>parametersString\<close> prints it. Numbers,
  texts and single enumeration values keep their value; combined modifiers become one value of
  the enumeration.
\<close>

definition script_values :: "(qvariant \<Rightarrow> qvariant) \<Rightarrow> bool" where
  "script_values ev \<longleftrightarrow>
     (\<forall>n. ev (VInt n) = VInt n) \<and> (\<forall>s. ev (VString s) = VString (Some (qs_text s))) \<and>
     (\<forall>b. ev (VBool b) = VBool b) \<and> (\<forall>k. ev (VKey k) = VKey k) \<and>
     (\<forall>b. ev (VMouseButton b) = VMouseButton b) \<and> (\<forall>b. ev (VMouseButtons b) = VMouseButtons b) \<and>
     (\<forall>a. ev (VOrientation a) = VOrientation a) \<and> (\<forall>r. ev (VFocusReason r) = VFocusReason r) \<and>
     (\<forall>m. ev (VKeyboardModifiers m) = VKeyboardModifier m)"

lemma script_valuesD [simp]:
  assumes "script_values ev"
  shows "ev (VInt n) = VInt n" "ev (VString s) = VString (Some (qs_text s))" "ev (VBool b) = VBool b"
    "ev (VKey k) = VKey k" "ev (VMouseButton f) = VMouseButton f" "ev (VMouseButtons f) = VMouseButtons f"
    "ev (VOrientation a) = VOrientation a" "ev (VFocusReason r) = VFocusReason r"
    "ev (VKeyboardModifiers f) = VKeyboardModifier f"
  using assms by (auto simp: script_values_def)

definition sample_engine :: "qvariant \<Rightarrow> qvariant" where
  "sample_engine v = (case v of
     VKeyboardModifiers m \<Rightarrow> VKeyboardModifier m
   | VString s \<Rightarrow> VString (Some (qs_text s))
   | _ \<Rightarrow> v)"

lemma sample_engine_values [simp]: "script_values sample_engine"
  by (simp add: script_values_def sample_engine_def)

definition eval_map :: "(qvariant \<Rightarrow> qvariant) \<Rightarrow> qvariant qmap \<Rightarrow> qvariant qmap" where
  "eval_map ev ps = map (apsnd ev) ps"

text \<open>The script statement of an item, run by the engine.\<close>

definition replay_item ::
    "qt \<Rightarrow> (qvariant \<Rightarrow> qvariant) \<Rightarrow> (int \<Rightarrow> int \<Rightarrow> int \<Rightarrow> int \<Rightarrow> int) \<Rightarrow> item \<Rightarrow> signal list" where
  "replay_item q ev position_at i =
     call_slot q position_at (v_toString q (item_target i)) (qs_text (item_method i))
       (eval_map ev (v_toMap (item_parameters i)))"

section \<open>Lookup\<close>

lemma qm_value_of [simp]: "qm_value (qm_of kvs) k = (case map_of (rev kvs) k of Some v \<Rightarrow> v | None \<Rightarrow> VInvalid)"
  by (simp add: qm_value_def qm_of_def lookup_fold_insert split: option.splits)

lemma qm_value_eval:
  "qm_value (eval_map ev ps) k = (case map_of ps k of Some v \<Rightarrow> ev v | None \<Rightarrow> VInvalid)"
  unfolding qm_value_def eval_map_def
  by (induction ps) auto

lemma qm_contains_eval [simp]: "qm_contains (eval_map ev ps) k = qm_contains ps k"
  by (auto simp: qm_contains_def eval_map_def)

lemma qm_contains_of: "qm_contains (qm_of kvs) k \<longleftrightarrow> map_of (rev kvs) k \<noteq> None"
proof -
  have "qm_contains (qm_of kvs) k \<longleftrightarrow> map_of (qm_of kvs) k \<noteq> None"
    by (simp add: qm_contains_def map_of_eq_None_iff)
  then show ?thesis by (simp add: qm_of_def lookup_fold_insert split: option.splits)
qed

lemma sint_is_int [simp]: "is_int (sint (w :: flags))"
  using sint_lt [of w] sint_ge [of w] by (simp add: is_int_def)

lemma flags_read_back [simp]:
  "number_reads_back q \<Longrightarrow> word_of_int (qt_toInt q (qt_number q (sint w))) = (w :: flags)"
  by simp

lemmas replay_defs = replay_item_def call_slot_def attr_int_def attr_is_def attr_def attr_text_def
  attr_point_def v_toMap_def target_of_def v_toString_def qm_value_eval map_of_qm_of v_point_def
  v_toInt_def signal_element_def handleElement_def flag_text_def number_flags_def

text \<open>
  What the theorems below say of an item: the script statement sends one signal, and the player
  queues one event for its element, whatever it is doing.
\<close>

definition posts ::
    "qt \<Rightarrow> 'app app_ops \<Rightarrow> bool \<Rightarrow> (qvariant \<Rightarrow> qvariant) \<Rightarrow> (int \<Rightarrow> int \<Rightarrow> int \<Rightarrow> int \<Rightarrow> int) \<Rightarrow> item \<Rightarrow> event_body \<Rightarrow> bool" where
  "posts q ops x11 ev position_at i b \<longleftrightarrow>
     (\<exists>s name atts. replay_item q ev position_at i = [s] \<and> signal_element q s = XElement name atts [] \<and>
        name \<noteq> ''dump'' \<and> (\<forall>P. handleElement q ops x11 name atts P = Inr (enqueue [new_event b] P)))"

lemma postsE:
  assumes "posts q ops x11 ev position_at i b"
  obtains s name atts where "replay_item q ev position_at i = [s]" "signal_element q s = XElement name atts []"
    "name \<noteq> ''dump''" "\<And>P. handleElement q ops x11 name atts P = Inr (enqueue [new_event b] P)"
  using assms unfolding posts_def by blast

section \<open>Mouse events\<close>

text \<open>
  A recorded mouse event is posted again to the object with the recorded path: same kind
  of event, same position, button, buttons and modifiers.
\<close>

lemma mouse_posts:
  assumes "number_reads_back q" and "script_values ev" and "is_int (fst pos)" and "is_int (snd pos)"
  shows "posts q ops x11 ev position_at
    (fst (parseMouseEvent q (mouse_element type)
      (mouseEventAttributes q pos button buttons modifiers @ [(''target'', path), (''targetClass'', cls)]) ts))
    (ObjectEvent path (QMouseEvent type pos None button buttons modifiers))"
  using assms
  by (cases type; cases pos)
     (simp_all add: posts_def replay_defs parseMouseEvent_def mouse_element_def mouseEventAttributes_def
       raiseMouseEvent_def moveMouse_def qm_contains_of v_button_def v_buttons_def v_modifier_def
       writeMouseAttributes_def postMouseEvent_def)

section \<open>Key events\<close>

lemma key_posts:
  assumes "number_reads_back q" and "script_values ev" and "is_int key" and "0 \<le> count" and "count < 65536"
  shows "posts q ops x11 ev position_at
    (fst (parseKeyEvent q (key_element type)
      (keyEventAttributes q key modifiers text isAutoRepeat count @ [(''target'', path), (''targetClass'', cls)]) ts))
    (ObjectEvent path (QKeyEvent type key modifiers (safeText q text) False count))"
proof -
  have "is_int count" using assms(4,5) by (simp add: is_int_def)
  with assms show ?thesis
    by (cases type)
       (simp_all add: posts_def replay_defs parseKeyEvent_def key_element_def keyEventAttributes_def raiseKeyEvent_def
         v_qtkey_def v_modifier_def v_bool_def v_ushort_def writeKeyAttributes_def postKeyEvent_def
         attr_ushort_def)
qed



section \<open>Wheel and context menu\<close>

lemma wheel_posts:
  assumes "number_reads_back q" and "script_values ev"
    and "is_int (fst pos)" and "is_int (snd pos)" and "is_int delta"
    and "\<And>n. qt_number q n \<noteq> ''vertical''"
  shows "posts q ops x11 ev position_at
    (fst (parseWheelEvent q
      (wheelEventAttributes q pos delta buttons modifiers orient @ [(''target'', path), (''targetClass'', cls)]) ts))
    (ObjectEvent path (QWheelEvent pos delta buttons modifiers Horizontal))"
  using assms
  by (cases pos; cases orient)
     (simp_all add: posts_def replay_defs parseWheelEvent_def wheelEventAttributes_def remote_mouseWheel_def
       v_buttons_def v_modifier_def v_orientation_def postWheelEvent_def)


lemma decimal_not_vertical: "qt_number qt_decimal n \<noteq> ''vertical''"
proof
  assume "qt_number qt_decimal n = ''vertical''"
  then have "CHR ''v'' \<in> set (show_int n)" by (simp add: qt_decimal_def)
  then have "CHR ''v'' \<in> set (show_nat (nat \<bar>n\<bar>))" by (auto simp: show_int_def split: if_splits)
  then obtain k where k: "k < 10" "CHR ''v'' = digit_char k" using show_nat_chars by blast
  then have "of_char (CHR ''v'') = 48 + k" using of_char_digit_char by metis
  with k(1) show False by simp
qed


text \<open>
  A recorded context menu request arrives with its positions and modifiers; its reason is
  lost, the player posts it as one made with the mouse.
\<close>

lemma context_menu_posts:
  assumes "number_reads_back q" and "script_values ev" and "qt_toInt q [] = 0"
    and "is_int (fst pos)" and "is_int (snd pos)" and "is_int (fst gpos)" and "is_int (snd gpos)"
  shows "posts q ops x11 ev position_at
    (fst (parseContextMenuEvent q
      (contextMenuEventAttributes q reason pos gpos modifiers @ [(''target'', path), (''targetClass'', cls)]) ts))
    (ObjectEvent path (QContextMenuEvent 0 pos gpos modifiers))"
  using assms
  by (cases pos; cases gpos)
     (simp_all add: posts_def replay_defs parseContextMenuEvent_def contextMenuEventAttributes_def
       remote_contextMenu_def v_modifier_def postContextMenuEvent_def)

section \<open>Focus, closing and shortcuts\<close>

text \<open>
  A recorded change of focus, closing of a window and shortcut are played back on the
  recorded object with the recorded reason, key sequence, number and ambiguity. The element of
  a change of focus may name the original receiver too.
\<close>

lemma focus_posts:
  assumes "number_reads_back q" and "script_values ev" and "is_int reason"
  shows "posts q ops x11 ev position_at
    (fst (parseFocusEvent q
      (focusEventAttributes q reason @ [(''target'', path), (''targetClass'', cls)] @ original) ts))
    (FocusEvent path reason)"
  using assms
  by (simp add: posts_def replay_defs parseFocusEvent_def focusEventAttributes_def remote_setFocus_def
      v_reason_def postFocusEvent_def)

lemma close_posts:
  assumes "script_values ev"
  shows "posts q ops x11 ev position_at (fst (parseCloseEvent q [(''target'', path), (''targetClass'', cls)] ts))
    (CloseEvent path)"
  using assms by (simp add: posts_def replay_defs parseCloseEvent_def postCloseEvent_def)

lemma shortcut_posts:
  assumes "number_reads_back q" and "script_values ev" and "is_int n"
  shows "posts q ops x11 ev position_at
    (fst (parseShortcutEvent q
      (shortcutEventAttributes q keys n ambiguous @ [(''target'', path), (''targetClass'', cls)]) ts))
    (ObjectEvent path (QShortcutEvent keys n ambiguous))"
  using assms
  by (simp add: posts_def replay_defs parseShortcutEvent_def shortcutEventAttributes_def bool_text_def
      remote_shortcut_def v_bool_def postShortcutEvent_def)

section \<open>Simplified movements and texts\<close>

text \<open>
  What the source relies on in the floating-point positions: the first one is the origin and the
  last one the destination.
\<close>

definition exact_ends :: "(int \<Rightarrow> int \<Rightarrow> int \<Rightarrow> int \<Rightarrow> int) \<Rightarrow> bool" where
  "exact_ends position_at \<longleftrightarrow>
     (\<forall>o' d l. 0 < l \<longrightarrow> position_at o' d l 0 = o' \<and> position_at o' d l l = o' + d)"

definition linear_position :: "int \<Rightarrow> int \<Rightarrow> int \<Rightarrow> int \<Rightarrow> int" where
  "linear_position o' d l i = o' + (d * i) div l"

lemma linear_position_ends [simp]: "exact_ends linear_position"
  by (simp add: exact_ends_def linear_position_def)

lemma upto_ends:
  assumes "0 < (len :: int)"
  shows "hd (map f [0..len]) = f 0" "last (map f [0..len]) = f len" "length (map f [0..len]) = nat len + 1"
proof -
  have "[0..len] = 0 # [1..len]" using assms upto_rec1 [of 0 len] by simp
  then show "hd (map f [0..len]) = f 0" by simp
  have "[0..len] = [0..len - 1] @ [len]" using assms upto_rec2 [of 0 len] by simp
  then show "last (map f [0..len]) = f len" by simp
  show "length (map f [0..len]) = nat len + 1" using assms by simp
qed

lemma move_step_eq:
  "move_step q position_at path ps origin diff len interval i =
     [MouseSignal MouseMove path
        (position_at (fst origin) (fst diff) len i, position_at (snd origin) (snd diff) len i)
        (v_button (qm_value ps ''button'')) (v_buttons (qm_value ps ''buttons''))
        (v_modifier (qm_value ps ''modifiers'')), SleepRequested interval]"
  by (simp add: move_step_def raiseMouseEvent_def v_point_def qm_value_def qm_lookup_insert v_toInt_def Let_def)


definition sample_move :: "qvariant qmap" where
  "sample_move = qm_of [(''originX'', VInt 1), (''originY'', VInt 2), (''destinationX'', VInt 3),
     (''destinationY'', VInt 2), (''duration'', VInt 100), (''buttons'', VMouseButtons 1)]"


text \<open>The texts of the key presses.\<close>

fun pressed_text :: "signal \<Rightarrow> qtext" where
  "pressed_text (KeySignal KeyPress path key modifiers text rep count) = text"
| "pressed_text _ = []"

fun pressed_keys :: "signal list \<Rightarrow> int list \<Rightarrow> int list" where
  "pressed_keys [] held = held"
| "pressed_keys (KeySignal KeyPress path key modifiers text rep count # ss) held = pressed_keys ss (key # held)"
| "pressed_keys (KeySignal KeyRelease path key modifiers text rep count # ss) held = pressed_keys ss (remove1 key held)"
| "pressed_keys (s # ss) held = pressed_keys ss held"

lemma pressed_keys_append: "pressed_keys (ss @ ts) held = pressed_keys ts (pressed_keys ss held)"
  by (induction ss held rule: pressed_keys.induct) simp_all

lemma send_char_keys: "pressed_keys (send_char q path c) held = held"
  by (simp add: send_char_def)

text \<open>
  C23. \<open>sendText\<close> types the text it is given: the texts of its key presses, one after the other,
  are the text, and every key it presses, Shift included, is released again.
\<close>

theorem sendText_types_text:
  "concat (map pressed_text (sendText q path s)) = s \<and> pressed_keys (sendText q path s) held = held"
proof
  show "concat (map pressed_text (sendText q path s)) = s"
    by (induction s) (simp_all add: sendText_def send_char_def)
  show "pressed_keys (sendText q path s) held = held"
    by (induction s) (simp_all add: sendText_def pressed_keys_append send_char_keys)
qed

text \<open>
  A single mouse movement is lost when movements are simplified: its origin is its
  destination, and the remote object sends nothing for such a movement.
\<close>

lemma lone_movement_lost:
  assumes "script_values ev"
  shows "replay_item q ev position_at
    (full_item target cls ''moveMouse'' (VMap (simplified_move q ps ps duration))) = []"
proof -
  let ?m = "simplified_move q ps ps duration"
  have look: "map_of ?m ''originX'' = Some (VInt (v_toInt q (qm_value ps ''x'')))"
    "map_of ?m ''originY'' = Some (VInt (v_toInt q (qm_value ps ''y'')))"
    "map_of ?m ''destinationX'' = Some (VInt (v_toInt q (qm_value ps ''x'')))"
    "map_of ?m ''destinationY'' = Some (VInt (v_toInt q (qm_value ps ''y'')))"
    by (simp_all add: simplified_move_def qm_lookup_insert)
  have "map_of ?m ''duration'' = Some (VInt duration)" by (simp add: simplified_move_def qm_lookup_insert)
  then have "qm_contains ?m ''duration''"
    unfolding qm_contains_def by (metis map_of_eq_None_iff option.distinct(1) set_map)
  with assms look show ?thesis
    by (simp add: replay_item_def call_slot_def moveMouse_def v_toMap_def v_point_def qm_value_eval
        manhattanLength_def v_toInt_def)
qed

end
