(* ===== verification/Hooq_Interpreter.thy ===== *)
theory Hooq_Interpreter
  imports Remote_Objects Player_Protocol
begin

text \<open>
  The interpreter (\<open>hooq/Interpreter.cpp\<close>): its connection to the tested application, the
  counter of pending acknowledgements, and the lines it reads from the socket; and the closed
  loop of interpreter and player. A slot that waits in a nested event loop is a state in which
  the interpreter waits; what ends the wait is a step of its own.
\<close>

section \<open>Lines\<close>

definition is_space :: "char \<Rightarrow> bool" where
  "is_space c \<longleftrightarrow> c \<in> {CHR '' '', CHR 0x09, newline, CHR 0x0B, CHR 0x0C, carriage}"

text \<open>\<open>QString::trimmed\<close>\<close>

definition trimmed :: "qtext \<Rightarrow> qtext" where
  "trimmed s = rev (dropWhile is_space (rev (dropWhile is_space s)))"

text \<open>What the player writes as the line of a reply.\<close>

definition reply_line :: "reply \<Rightarrow> qtext" where
  "reply_line r = (case r of
     R_ACK \<Rightarrow> ''ACK'' @ [newline]
   | R_NOTFOUND path \<Rightarrow> ''NOTFOUND '' @ path @ [newline]
   | R_DUMPED o' \<Rightarrow> ''DUMPED'' @ [newline]
   | R_PICKED o' \<Rightarrow> ''PICKED'' @ [newline])"

datatype response = GotAck | GotPicked | GotDumped | GotNotFound qtext | GotUnknown qtext

text \<open>\<open>line.mid(line.indexOf(' ') + 1)\<close>: the whole line when there is no space.\<close>

definition behind_space :: "qtext \<Rightarrow> qtext" where
  "behind_space s = (if CHR '' '' \<in> set s then tl (dropWhile (\<lambda>c. c \<noteq> CHR '' '') s) else s)"

definition read_line :: "qtext \<Rightarrow> response" where
  "read_line s =
     (let line = trimmed s
      in if line = ''ACK'' then GotAck
         else if line = ''PICKED'' then GotPicked
         else if line = ''DUMPED'' then GotDumped
         else if prefix ''NOTFOUND'' line then GotNotFound (behind_space line)
         else GotUnknown line)"

lemma trimmed_line:
  assumes "s \<noteq> []" and "\<not> is_space (hd s)" and "\<not> is_space (last s)"
  shows "trimmed (s @ [newline]) = s"
proof -
  obtain t c where s: "s = t @ [c]" using assms(1) by (cases s rule: rev_cases) auto
  have "dropWhile is_space (s @ [newline]) = s @ [newline]"
    using assms(1,2) by (cases s) simp_all
  moreover have "is_space newline" by (simp add: is_space_def)
  ultimately show ?thesis using assms(3) s by (simp add: trimmed_def)
qed

text \<open>The path of an object that was not found arrives as the player wrote it.\<close>

definition response_of :: "reply \<Rightarrow> response" where
  "response_of r = (case r of
     R_ACK \<Rightarrow> GotAck | R_NOTFOUND path \<Rightarrow> GotNotFound path
   | R_DUMPED o' \<Rightarrow> GotDumped | R_PICKED o' \<Rightarrow> GotPicked)"

text \<open>
  The interpreter understands every line of the player: an acknowledgement, a picked or
  dumped object, and an object that was not found, with the path as the player had it (a path
  that does not end in white space and is not empty).
\<close>

lemma replies_understood:
  assumes "\<And>path. r = R_NOTFOUND path \<Longrightarrow> path \<noteq> [] \<and> \<not> is_space (last path)"
  shows "read_line (reply_line r) = response_of r"
proof (cases r)
  case (R_NOTFOUND path)
  with assms have path: "path \<noteq> []" "\<not> is_space (last path)" by auto
  have "trimmed ((''NOTFOUND '' @ path) @ [newline]) = ''NOTFOUND '' @ path"
    using path by (intro trimmed_line) (simp_all add: is_space_def)
  then have "trimmed (reply_line r) = ''NOTFOUND '' @ path" using R_NOTFOUND by (simp add: reply_line_def)
  moreover have "behind_space (''NOTFOUND '' @ path) = path" by (simp add: behind_space_def)
  ultimately show ?thesis using R_NOTFOUND by (simp add: read_line_def response_of_def Let_def)
qed (simp_all add: reply_line_def read_line_def response_of_def trimmed_def is_space_def Let_def)

section \<open>State\<close>

datatype attach_state = NotAttached | WaitingForAttach | Attached

text \<open>
  What the interpreter waits for in a nested event loop. A slot that waits for the application
  to attach goes on afterwards with the signal it was called for, which is kept in \<open>i_pending\<close>.
\<close>

datatype wait = NoWait | WaitAttach | WaitAck | WaitDump | WaitCloseAck | WaitDieAck

text \<open>What the interpreter writes to the socket.\<close>

datatype i_output = O_PLAY | O_StartDocument | O_Element xml_node | O_EndDocument | O_DIE

datatype i_signal =
    S_startApplicationAndAttach "(qtext \<times> qtext list) option"
  | S_objectPicked
  | S_objectNotFound qtext
  | S_executionFailed int
  | S_finished

record interpreter =
  m_dumpedObject :: bool
  m_pendingAcks :: int
  m_attachState :: attach_state
  m_applicationUuid :: qstring
  i_device :: bool
  i_wait :: wait
  i_pending :: "signal option"
  i_written :: "i_output list"
  i_emitted :: "i_signal list"

definition emit :: "i_signal \<Rightarrow> interpreter \<Rightarrow> interpreter" where
  "emit s I = I\<lparr>i_emitted := i_emitted I @ [s]\<rparr>"

definition put :: "i_output list \<Rightarrow> interpreter \<Rightarrow> interpreter" where
  "put os I = I\<lparr>i_written := i_written I @ os\<rparr>"

definition i_ack :: "interpreter \<Rightarrow> bool" where
  "i_ack I \<longleftrightarrow> m_pendingAcks I = 0"

definition setAck :: "bool \<Rightarrow> interpreter \<Rightarrow> interpreter" where
  "setAck a I = (if a then I\<lparr>m_pendingAcks := m_pendingAcks I - 1\<rparr>
                 else I\<lparr>m_pendingAcks := m_pendingAcks I + 1\<rparr>)"

text \<open>Entering \<open>waitForAck\<close>: \<open>w\<close> says which call waits.\<close>

definition begin_waitForAck :: "wait \<Rightarrow> interpreter \<Rightarrow> interpreter" where
  "begin_waitForAck w I = (setAck False I)\<lparr>i_wait := w\<rparr>"

definition waitForAttach :: "interpreter \<Rightarrow> interpreter" where
  "waitForAttach I =
     (let I' = (if m_attachState I = NotAttached then I\<lparr>m_attachState := WaitingForAttach\<rparr> else I)
      in if m_attachState I' \<noteq> Attached then I'\<lparr>i_wait := WaitAttach\<rparr> else I')"

definition ensureAttached :: "interpreter \<Rightarrow> interpreter" where
  "ensureAttached I = (case m_attachState I of
     NotAttached \<Rightarrow> waitForAttach (emit (S_startApplicationAndAttach None) I)
   | WaitingForAttach \<Rightarrow> waitForAttach I
   | Attached \<Rightarrow> I)"

definition setSocket :: "interpreter \<Rightarrow> interpreter" where
  "setSocket I =
     (put [O_PLAY, O_StartDocument] (I\<lparr>m_pendingAcks := 0\<rparr>))
       \<lparr>i_device := True, m_attachState := Attached\<rparr>"

text \<open>
  The slots for the signals of a script object (\<open>writeMouseMoveEvent\<close> and so on): all but
  \<open>fetchProperty\<close> first make sure that the application is attached, then write the element and
  wait. \<open>writeSignal\<close> is the part behind \<open>ensureAttached\<close>.
\<close>

definition writeSignal :: "qt \<Rightarrow> signal \<Rightarrow> interpreter \<Rightarrow> interpreter" where
  "writeSignal q s I =
     (let I' = put [O_Element (signal_element q s)] I
      in case s of
           PropertyRequested path name \<Rightarrow> I'\<lparr>m_dumpedObject := False, i_wait := WaitDump\<rparr>
         | _ \<Rightarrow> begin_waitForAck WaitAck I')"

definition is_property :: "signal \<Rightarrow> bool" where
  "is_property s = (case s of PropertyRequested path name \<Rightarrow> True | _ \<Rightarrow> False)"

definition writeEvent :: "qt \<Rightarrow> signal \<Rightarrow> interpreter \<Rightarrow> interpreter" where
  "writeEvent q s I =
     (if is_property s then writeSignal q s I
      else let I' = ensureAttached I
           in if m_attachState I' = Attached then writeSignal q s I' else I'\<lparr>i_pending := Some s\<rparr>)"

definition pickObject :: "interpreter \<Rightarrow> interpreter" where
  "pickObject I = put [O_Element (XElement ''pick'' [] [])] I"

text \<open>
  \<open>closeApplication\<close>: \<open>sender\<close> is the uuid of the application object that asks for it, \<open>None\<close> when
  the interpreter itself does. It waits twice; the two continuations follow.
\<close>

definition closeApplication :: "qstring \<Rightarrow> interpreter \<Rightarrow> interpreter" where
  "closeApplication sender I =
     (if sender \<noteq> None \<and> \<not> qs_eq sender (m_applicationUuid I) then I
      else if i_device I then begin_waitForAck WaitCloseAck (put [O_EndDocument] I)
      else I)"

definition close_die :: "interpreter \<Rightarrow> interpreter" where
  "close_die I = begin_waitForAck WaitDieAck (put [O_DIE] I)"

definition close_done :: "interpreter \<Rightarrow> interpreter" where
  "close_done I = I\<lparr>m_attachState := NotAttached, i_device := False, m_applicationUuid := None, i_wait := NoWait\<rparr>"

text \<open>What happens when a nested event loop sees that its condition holds.\<close>

definition end_wait :: "qt \<Rightarrow> interpreter \<Rightarrow> interpreter" where
  "end_wait q I = (case i_wait I of
     NoWait \<Rightarrow> I
   | WaitAttach \<Rightarrow>
       if m_attachState I = Attached
       then (let I' = I\<lparr>i_wait := NoWait, i_pending := None\<rparr>
             in case i_pending I of Some s \<Rightarrow> writeSignal q s I' | None \<Rightarrow> I')
       else I
   | WaitAck \<Rightarrow> if i_ack I then I\<lparr>i_wait := NoWait\<rparr> else I
   | WaitCloseAck \<Rightarrow> if i_ack I then close_die (I\<lparr>i_wait := NoWait\<rparr>) else I
   | WaitDieAck \<Rightarrow> if i_ack I then close_done I else I
   | WaitDump \<Rightarrow> if m_dumpedObject I then I\<lparr>i_wait := NoWait\<rparr> else I)"

text \<open>One line in the loop of \<open>processSocketData\<close>.\<close>

definition process_response :: "response \<Rightarrow> interpreter \<Rightarrow> interpreter" where
  "process_response r I = (case r of
     GotAck \<Rightarrow> setAck True I
   | GotPicked \<Rightarrow> emit S_objectPicked I
   | GotDumped \<Rightarrow> I\<lparr>m_dumpedObject := True\<rparr>
   | GotNotFound path \<Rightarrow> emit (S_objectNotFound path) I
   | GotUnknown line \<Rightarrow> I)"

definition processSocketData :: "qtext list \<Rightarrow> interpreter \<Rightarrow> interpreter" where
  "processSocketData lines I = fold (\<lambda>l. process_response (read_line l)) lines I"

definition connectRemoteApplication :: "remote_app \<Rightarrow> interpreter \<Rightarrow> interpreter" where
  "connectRemoteApplication R I =
     waitForAttach (emit (S_startApplicationAndAttach
         (if useDefaults R then None else Some (m_path R, m_arguments R)))
       (I\<lparr>m_applicationUuid := Some (m_uuid R)\<rparr>))"

text \<open>
  \<open>waitForAck\<close> when the connection is gone: the script is aborted, and its failure is reported
  with the first valid line number of the backtrace.
\<close>

fun lineNumber :: "int list \<Rightarrow> int" where
  "lineNumber [] = -1"
| "lineNumber (l # ls) = (if l \<noteq> -1 then l else lineNumber ls)"

definition lost_connection :: "qt \<Rightarrow> int list \<Rightarrow> interpreter \<Rightarrow> interpreter" where
  "lost_connection q backtrace I =
     (if \<not> i_ack I
      then (let line = lineNumber backtrace;
                I' = I\<lparr>i_wait := NoWait\<rparr>
            in if line \<noteq> -1 then emit (S_executionFailed line) I' else I')
      else end_wait q I)"

definition start_run :: "interpreter \<Rightarrow> interpreter" where
  "start_run I = I\<lparr>m_applicationUuid := None, m_attachState := NotAttached\<rparr>"

end
