(* ===== verification/Playback_Loop.thy ===== *)
theory Playback_Loop
  imports Hooq_Interpreter
begin

text \<open>
  Interpreter and player in a closed loop over a connection that keeps the order of what is
  written. The script issues a command only when the interpreter does not wait; commands are
  delivered one by one, replies too; timers, mouse events and the application go on in between.
\<close>

section \<open>The system\<close>

text \<open>
  \<open>sent\<close>: the commands the interpreter has written; \<open>sys_delivered\<close>: how many of them the player
  has read; \<open>sys_read\<close>: how many of the player's replies the interpreter has read.
\<close>

definition output_node :: "i_output \<Rightarrow> xml_node list" where
  "output_node x = (case x of O_Element n \<Rightarrow> [n] | _ \<Rightarrow> [])"

definition sent :: "interpreter \<Rightarrow> xml_node list" where
  "sent I = concat (map output_node (i_written I))"

record 'app system =
  sys_i :: interpreter
  sys_p :: "'app player"
  sys_delivered :: nat
  sys_read :: nat

definition ready :: "interpreter \<Rightarrow> bool" where
  "ready I \<longleftrightarrow> m_attachState I = Attached \<and> i_wait I = NoWait \<and> i_ack I"

inductive loop :: "qt \<Rightarrow> 'app app_ops \<Rightarrow> bool \<Rightarrow> 'app system \<Rightarrow> bool" for q ops x11 where
  loop_start: "i_written I = [] \<Longrightarrow> i_wait I \<in> {NoWait, WaitAttach} \<Longrightarrow>
    loop q ops x11 \<lparr>sys_i = setSocket I, sys_p = new_Player unset a, sys_delivered = 0, sys_read = 0\<rparr>"
| loop_command: "loop q ops x11 S \<Longrightarrow> ready (sys_i S) \<Longrightarrow>
    loop q ops x11 (S\<lparr>sys_i := writeEvent q s (sys_i S)\<rparr>)"
| loop_pick: "loop q ops x11 S \<Longrightarrow> loop q ops x11 (S\<lparr>sys_i := pickObject (sys_i S)\<rparr>)"
| loop_deliver: "loop q ops x11 S \<Longrightarrow> sys_delivered S < length (sent (sys_i S)) \<Longrightarrow>
    readNext q ops x11 ((sys_p S)\<lparr>p_stream := node_tokens (sent (sys_i S) ! sys_delivered S)\<rparr>) = Inr P' \<Longrightarrow>
    loop q ops x11 (S\<lparr>sys_p := P', sys_delivered := sys_delivered S + 1\<rparr>)"
| loop_reply: "loop q ops x11 S \<Longrightarrow> sys_read S < length (p_written (sys_p S)) \<Longrightarrow>
    loop q ops x11 (S\<lparr>sys_i := process_response (response_of (p_written (sys_p S) ! sys_read S)) (sys_i S),
      sys_read := sys_read S + 1\<rparr>)"
| loop_wait: "loop q ops x11 S \<Longrightarrow> loop q ops x11 (S\<lparr>sys_i := end_wait q (sys_i S)\<rparr>)"
| loop_timer: "loop q ops x11 S \<Longrightarrow> p_timers (sys_p S) = m # ms \<Longrightarrow>
    waitFinished q ops ((sys_p S)\<lparr>p_timers := ms\<rparr>) = Inr P' \<Longrightarrow> loop q ops x11 (S\<lparr>sys_p := P'\<rparr>)"
| loop_mouse: "loop q ops x11 S \<Longrightarrow>
    player_eventFilter q ops receiver type (sys_p S) = Inr (swallowed, P') \<Longrightarrow> loop q ops x11 (S\<lparr>sys_p := P'\<rparr>)"
| loop_app: "loop q ops x11 S \<Longrightarrow> loop q ops x11 (S\<lparr>sys_p := (sys_p S)\<lparr>p_app := a\<rparr>\<rparr>)"

section \<open>Counting acknowledgements\<close>

definition acks :: "completion list \<Rightarrow> int" where
  "acks cs = int (length (filter (\<lambda>c. c = C_ACK) cs))"

lemma acks_simps [simp]:
  "acks [] = 0" "acks (c # cs) = (if c = C_ACK then 1 else 0) + acks cs" "acks (xs @ ys) = acks xs + acks ys"
  by (simp_all add: acks_def)

lemma acks_nonneg: "0 \<le> acks cs"
  by (simp add: acks_def)

definition node_commands :: "xml_node list \<Rightarrow> completion list" where
  "node_commands ns = concat (map (\<lambda>n. stream_commands (node_tokens n)) ns)"

lemma node_commands_simps [simp]:
  "node_commands [] = []" "node_commands (ns @ [n]) = node_commands ns @ stream_commands (node_tokens n)"
  by (simp_all add: node_commands_def)

text \<open>What the element of a signal asks for.\<close>

definition signal_completion :: "signal \<Rightarrow> completion list" where
  "signal_completion s = (case s of PropertyRequested path name \<Rightarrow> [C_DUMPED] | _ \<Rightarrow> [C_ACK])"

lemma stream_commands_signal: "stream_commands (node_tokens (signal_element q s)) = signal_completion s"
proof (cases s)
  case (MouseSignal type path pos b bs m)
  then show ?thesis
    by (cases type) (simp_all add: signal_element_def command_completion_def behind_command_def signal_completion_def)
next
  case (KeySignal type path key m t r c)
  then show ?thesis
    by (cases type) (simp_all add: signal_element_def command_completion_def behind_command_def signal_completion_def)
qed (simp_all add: signal_element_def command_completion_def behind_command_def signal_completion_def)

lemma pending_writeSignal:
  "m_pendingAcks (writeSignal q s I) = m_pendingAcks I + acks (signal_completion s)"
  by (cases s) (simp_all add: writeSignal_def signal_completion_def begin_waitForAck_def setAck_def put_def)

lemma pending_process_response:
  "m_pendingAcks (process_response (response_of r) I) = m_pendingAcks I - acks (completion_of r)"
  by (cases r) (simp_all add: process_response_def response_of_def setAck_def emit_def)

lemma sent_put [simp]: "sent (put os I) = sent I @ concat (map output_node os)"
  by (simp add: sent_def put_def)

lemma sent_unchanged:
  "sent (I\<lparr>i_wait := w\<rparr>) = sent I" "sent (I\<lparr>i_pending := x\<rparr>) = sent I" "sent (emit e I) = sent I"
  "sent (setAck b I) = sent I" "sent (process_response r I) = sent I"
  by (simp_all add: sent_def emit_def setAck_def process_response_def split: response.split)

lemma sent_writeSignal: "sent (writeSignal q s I) = sent I @ [signal_element q s]"
  by (cases s) (simp_all add: writeSignal_def begin_waitForAck_def sent_def setAck_def put_def output_node_def)

lemma sent_setSocket: "i_written I = [] \<Longrightarrow> sent (setSocket I) = []"
  by (simp add: setSocket_def sent_def put_def output_node_def)

lemma sent_pickObject: "sent (pickObject I) = sent I @ [XElement ''pick'' [] []]"
  by (simp add: pickObject_def output_node_def)

text \<open>Once attached, \<open>ensureAttached\<close> does nothing.\<close>

lemma writeEvent_attached: "m_attachState I = Attached \<Longrightarrow> writeEvent q s I = writeSignal q s I"
  by (simp add: writeEvent_def ensureAttached_def)

lemma no_end_document: "EndDocument \<notin> set (node_tokens n)"
  by (induction n) auto

section \<open>The invariant\<close>

definition loop_inv :: "qt \<Rightarrow> 'app app_ops \<Rightarrow> bool \<Rightarrow> 'app system \<Rightarrow> bool" where
  "loop_inv q ops x11 S \<longleftrightarrow>
     sys_delivered S \<le> length (sent (sys_i S)) \<and> sys_read S \<le> length (p_written (sys_p S)) \<and>
     session q ops x11 (node_commands (take (sys_delivered S) (sent (sys_i S)))) (sys_p S) \<and>
     m_pendingAcks (sys_i S) =
       acks (node_commands (sent (sys_i S))) - acks (completions (take (sys_read S) (p_written (sys_p S)))) \<and>
     m_pendingAcks (sys_i S) \<le> 1 \<and> m_attachState (sys_i S) = Attached \<and>
     i_wait (sys_i S) \<in> {NoWait, WaitAttach, WaitAck, WaitDump} \<and>
     (i_wait (sys_i S) = WaitAttach \<longrightarrow> m_pendingAcks (sys_i S) \<le> 0)"

text \<open>The player only ever adds to what it has written.\<close>

lemma process_event_written: "process_event q ops e P = Inr (c, P') \<Longrightarrow> prefix (p_written P) (p_written P')"
  unfolding process_event_def by (auto simp: player_defs split: event_body.splits option.splits)

lemma ack_written: "prefix (p_written P) (p_written (ack P))"
  by (simp add: ack_def send_def)

lemma process_queue_written: "process_queue q ops es P = Inr P' \<Longrightarrow> prefix (p_written P) (p_written P')"
proof (induction es arbitrary: P)
  case (Cons e es)
  let ?P = "P\<lparr>m_eventQueue := es, m_ackNext := m_ack e\<rparr>"
  obtain c P1 where e: "process_event q ops e ?P = Inr (c, P1)"
    using Cons.prems by (auto split: sum.splits)
  have w: "prefix (p_written P) (p_written P1)" using process_event_written [OF e] by simp
  show ?case
  proof (cases c)
    case Break
    with Cons.prems e have "prefix (p_written (ack P1)) (p_written P')" by (intro Cons.IH) simp
    with w ack_written [of P1] show ?thesis by (meson prefix_order.trans)
  next
    case Continue
    with Cons.prems e have "prefix (p_written P1) (p_written P')" by (intro Cons.IH) simp
    with w show ?thesis by (rule prefix_order.trans)
  qed (use Cons.prems e w in simp)
qed auto

lemma processEvents_written: "processEvents q ops P = Inr P' \<Longrightarrow> prefix (p_written P) (p_written P')"
  by (auto simp: processEvents_def dest: process_queue_written split: if_splits)

lemma handleElement_written: "handleElement q ops x11 name atts P = Inr P' \<Longrightarrow> p_written P' = p_written P"
  unfolding handleElement_def postDragAndDrop_def
  by (auto simp: player_defs Let_def split: if_splits option.splits)

lemma readNext_written: "readNext q ops x11 P = Inr P' \<Longrightarrow> prefix (p_written P) (p_written P')"
proof (induction "length (p_stream P)" arbitrary: P rule: less_induct)
  case less
  show ?case
  proof (cases "p_stream P")
    case Nil
    with less.prems show ?thesis by (auto simp: readNext.simps dest: processEvents_written)
  next
    case (Cons t ts)
    let ?P = "P\<lparr>p_stream := ts, p_token := t\<rparr>"
    show ?thesis
    proof (cases t)
      case (StartElement name atts)
      with Cons less.prems obtain P2 P3 where P2: "handleElement q ops x11 name atts ?P = Inr P2"
          and P3: "processEvents q ops P2 = Inr P3" and r: "readNext q ops x11 P3 = Inr P'"
        by (subst (asm) readNext.simps) (auto simp: Let_def split: sum.splits)
      have "length (p_stream P3) < length (p_stream P)"
        using handleElement_stream [OF P2] processEvents_stream [OF P3] Cons by simp
      from less.hyps [OF this r] processEvents_written [OF P3] handleElement_written [OF P2]
      show ?thesis by (auto intro: prefix_order.trans)
    next
      case EndDocument
      with Cons less.prems have "processEvents q ops ((ack ?P)\<lparr>p_connected := False\<rparr>) = Inr P'"
        by (subst (asm) readNext.simps) simp
      from processEvents_written [OF this] ack_written [of ?P] show ?thesis
        by (auto intro: prefix_order.trans)
    qed (use Cons less.prems less.hyps [of ?P] in \<open>auto simp: readNext.simps [of q ops x11 P]\<close>)
  qed
qed

lemma waitFinished_written: "waitFinished q ops P = Inr P' \<Longrightarrow> prefix (p_written P) (p_written P')"
  unfolding waitFinished_def using processEvents_written ack_written [of P]
  by (fastforce intro: prefix_order.trans)

lemma eventFilter_written:
  "player_eventFilter q ops receiver type P = Inr (b, P') \<Longrightarrow> prefix (p_written P) (p_written P')"
proof (cases "m_mode P = Pick \<and> type = MouseButtonRelease")
  case True
  assume "player_eventFilter q ops receiver type P = Inr (b, P')"
  with True obtain o' where "endPick q ops (send (R_PICKED o') P) = Inr P'"
    by (auto simp: player_eventFilter_def Let_def map_sum_Inr_iff)
  from processEvents_written [OF this [unfolded endPick_def]] show ?thesis
    by (simp add: act_def send_def append_prefixD)
next
  case False
  assume "player_eventFilter q ops receiver type P = Inr (b, P')"
  with False show ?thesis by (auto simp: player_eventFilter_def split: if_splits mouse_type.splits)
qed

lemma take_prefix: "prefix xs ys \<Longrightarrow> n \<le> length xs \<Longrightarrow> take n ys = take n xs"
  by (auto simp: prefix_def)

text \<open>A step of the player alone.\<close>

lemma loop_inv_player:
  assumes "loop_inv q ops x11 S"
    and "session q ops x11 (node_commands (take (sys_delivered S) (sent (sys_i S)))) P'"
    and "prefix (p_written (sys_p S)) (p_written P')"
  shows "loop_inv q ops x11 (S\<lparr>sys_p := P'\<rparr>)"
  using assms take_prefix [OF assms(3), of "sys_read S"] prefix_length_le [OF assms(3)]
  by (auto simp: loop_inv_def)

lemma loop_inv_deliver:
  assumes "loop_inv q ops x11 S" and "sys_delivered S < length (sent (sys_i S))"
    and "readNext q ops x11 ((sys_p S)\<lparr>p_stream := node_tokens (sent (sys_i S) ! sys_delivered S)\<rparr>) = Inr P'"
  shows "loop_inv q ops x11 (S\<lparr>sys_p := P', sys_delivered := sys_delivered S + 1\<rparr>)"
proof -
  let ?n = "sent (sys_i S) ! sys_delivered S"
  have "session q ops x11 (node_commands (take (sys_delivered S) (sent (sys_i S))) @ stream_commands (node_tokens ?n)) P'"
    using assms(1) no_end_document assms(3) by (intro session_data) (simp_all add: loop_inv_def)
  then have "session q ops x11 (node_commands (take (sys_delivered S + 1) (sent (sys_i S)))) P'"
    using assms(2) by (simp add: take_Suc_conv_app_nth)
  moreover have "prefix (p_written (sys_p S)) (p_written P')" using readNext_written [OF assms(3)] by simp
  ultimately show ?thesis
    using assms(1,2) take_prefix [of "p_written (sys_p S)" "p_written P'" "sys_read S"]
      prefix_length_le [of "p_written (sys_p S)" "p_written P'"]
    by (auto simp: loop_inv_def)
qed

lemma writeSignal_wait:
  "i_wait (writeSignal q s I) \<in> {WaitAck, WaitDump}" "m_attachState (writeSignal q s I) = m_attachState I"
  by (cases s; simp add: writeSignal_def begin_waitForAck_def setAck_def put_def)+

text \<open>The interpreter may write a command whenever nothing is pending.\<close>

lemma loop_inv_write:
  assumes "loop_inv q ops x11 S" and "m_pendingAcks I \<le> 0" and "sent I = sent (sys_i S)"
    and "m_pendingAcks I = m_pendingAcks (sys_i S)" and "m_attachState I = Attached"
  shows "loop_inv q ops x11 (S\<lparr>sys_i := writeSignal q s I\<rparr>)"
proof -
  have "acks (signal_completion s) \<le> 1" by (cases s) (simp_all add: signal_completion_def)
  with assms writeSignal_wait [of q s I] show ?thesis
    by (auto simp: loop_inv_def pending_writeSignal stream_commands_signal sent_writeSignal)
qed

lemma loop_inv_command:
  assumes "loop_inv q ops x11 S" and "ready (sys_i S)"
  shows "loop_inv q ops x11 (S\<lparr>sys_i := writeEvent q s (sys_i S)\<rparr>)"
  using assms by (simp add: ready_def i_ack_def writeEvent_attached loop_inv_write)

lemma loop_inv_wait:
  assumes "loop_inv q ops x11 S"
  shows "loop_inv q ops x11 (S\<lparr>sys_i := end_wait q (sys_i S)\<rparr>)"
proof (cases "i_wait (sys_i S) = WaitAttach")
  case True
  let ?I = "(sys_i S)\<lparr>i_wait := NoWait, i_pending := None\<rparr>"
  have quiet: "m_attachState (sys_i S) = Attached" "m_pendingAcks (sys_i S) \<le> 0"
    using assms True by (simp_all add: loop_inv_def)
  show ?thesis
  proof (cases "i_pending (sys_i S)")
    case None
    with True assms quiet show ?thesis
      by (simp add: end_wait_def Let_def loop_inv_def sent_def)
  next
    case (Some s)
    with True quiet(1) have "end_wait q (sys_i S) = writeSignal q s ?I"
      by (simp add: end_wait_def)
    with loop_inv_write [OF assms, of ?I s] quiet show ?thesis by (simp add: sent_def)
  qed
next
  case False
  with assms show ?thesis
    by (auto simp: loop_inv_def end_wait_def sent_def)
qed

lemma process_response_wait:
  "i_wait (process_response r I) = i_wait I" "m_attachState (process_response r I) = m_attachState I"
  by (simp_all add: process_response_def setAck_def emit_def split: response.split)

lemma loop_inv_reply:
  assumes "loop_inv q ops x11 S" and "sys_read S < length (p_written (sys_p S))"
  shows "loop_inv q ops x11 (S\<lparr>sys_i := process_response (response_of (p_written (sys_p S) ! sys_read S)) (sys_i S),
      sys_read := sys_read S + 1\<rparr>)"
proof -
  let ?r = "p_written (sys_p S) ! sys_read S"
  have "take (sys_read S + 1) (p_written (sys_p S)) = take (sys_read S) (p_written (sys_p S)) @ [?r]"
    using assms(2) by (simp add: take_Suc_conv_app_nth)
  moreover have "0 \<le> acks (completion_of ?r)" by (rule acks_nonneg)
  ultimately show ?thesis
    using assms by (auto simp: loop_inv_def pending_process_response sent_unchanged process_response_wait)
qed

lemma loop_keeps_inv: "loop q ops x11 S \<Longrightarrow> loop_inv q ops x11 S"
proof (induction rule: loop.induct)
  case (loop_start I unset a)
  then show ?case
    by (auto simp: loop_inv_def sent_setSocket session_start) (auto simp: setSocket_def put_def)
next
  case (loop_pick S)
  then show ?case
    by (auto simp: loop_inv_def sent_pickObject command_completion_def behind_command_def)
      (auto simp: pickObject_def put_def)
next
  case (loop_timer S m ms P')
  then show ?case
    using session_timer waitFinished_written [OF loop_timer.hyps(3)]
    by (intro loop_inv_player) (auto simp: loop_inv_def)
next
  case (loop_mouse S receiver type swallowed P')
  then show ?case
    using session_mouse eventFilter_written [OF loop_mouse.hyps(2)]
    by (intro loop_inv_player) (auto simp: loop_inv_def)
next
  case (loop_app S a)
  then show ?case by (intro loop_inv_player) (auto simp: loop_inv_def intro: session_app)
qed (blast intro: loop_inv_command loop_inv_deliver loop_inv_reply loop_inv_wait)+


text \<open>A loop that has sent a sleep and waits for its acknowledgement.\<close>

definition fresh_interpreter :: interpreter where
  "fresh_interpreter = \<lparr>m_dumpedObject = False, m_pendingAcks = 0, m_attachState = WaitingForAttach,
     m_applicationUuid = None, i_device = False, i_wait = WaitAttach,
     i_pending = Some (SleepRequested 10), i_written = [], i_emitted = []\<rparr>"


end
