(* ===== verification/User_Sessions.thy ===== *)
theory User_Sessions
  imports Logger_Protocol
begin

text \<open>
  What a user does, as inputs: single events and drag and drop; and that the logger records all of
  them: each single event is written, the events of a drag and drop are replaced by one element.
\<close>

section \<open>Recording the steps of a user\<close>

text \<open>
  A step: the time since the last one, the object that gets the event, and the event. Between
  two steps the event queue of the application runs empty, and with it goes the canary.
\<close>

type_synonym user_step = "int \<times> objid \<times> seen_event"

fun record_steps :: "qt \<Rightarrow> app_view \<Rightarrow> user_step list \<Rightarrow> logger \<Rightarrow> logger option" where
  "record_steps q v [] L = Some L"
| "record_steps q v ((elapsed, receiver, event) # steps) L =
     (case logger_eventFilter q v elapsed receiver event (delete_CanaryEvent L) of
        None \<Rightarrow> None
      | Some L' \<Rightarrow> record_steps q v steps L')"

lemma record_steps_append:
  "record_steps q v (xs @ ys) L = (case record_steps q v xs L of None \<Rightarrow> None | Some L' \<Rightarrow> record_steps q v ys L')"
proof (induction xs arbitrary: L)
  case (Cons x xs)
  then show ?case by (cases x) (simp split: option.splits)
qed simp

text \<open>
  What a user does: single steps, and drag and drop, in which the press, some steps while the button is held
  and the release are followed by the drop that Qt makes of them.
\<close>

datatype user_input =
    Plain user_step
  | DragDrop user_step "user_step list" user_step "int \<times> objid \<times> point"

fun input_steps :: "user_input \<Rightarrow> user_step list" where
  "input_steps (Plain step) = [step]"
| "input_steps (DragDrop press moves release (elapsed, target, pos)) =
     press # moves @ [release, (elapsed, target, Drop pos)]"

text \<open>No second button is pressed while one is held.\<close>

fun presses :: "user_input \<Rightarrow> bool" where
  "presses (Plain (elapsed, receiver, event)) = is_press event"
| "presses (DragDrop press moves release dropped) = True"

fun held_after :: "bool \<Rightarrow> user_input \<Rightarrow> bool" where
  "held_after held (Plain (elapsed, receiver, event)) =
     (if is_press event then True else if is_release (Some event) then False else held)"
| "held_after held (DragDrop press moves release dropped) = False"

fun paired :: "bool \<Rightarrow> user_input list \<Rightarrow> bool" where
  "paired held [] \<longleftrightarrow> True"
| "paired held (x # xs) \<longleftrightarrow> \<not> (held \<and> presses x) \<and> paired (held_after held x) xs"

definition step_pieces :: "qt \<Rightarrow> app_view \<Rightarrow> user_step \<Rightarrow> piece list option" where
  "step_pieces q v step = (case step of (elapsed, receiver, event) \<Rightarrow> event_pieces q v elapsed receiver event)"

lemma log_event_total:
  assumes "event_pieces q v elapsed receiver event = Some ps" and "\<not> is_drop event"
  shows "\<exists>L'. log_event q v elapsed receiver event L = Some L'"
  using log_event_shape [OF assms(2), of q v elapsed receiver]
proof (elim disjE conjE exE)
  fix recv name atts original
  assume eq: "\<forall>K. log_event q v elapsed receiver event K =
      outputEvent q v elapsed recv name atts original (press_prepares event receiver K)"
  obtain K where "log_event q v elapsed receiver event (new_Logger\<lparr>l_device := []\<rparr>) = Some K"
    using assms(1) by (auto simp: event_pieces_def)
  with eq have "outputEvent q v elapsed recv name atts original
      (press_prepares event receiver (new_Logger\<lparr>l_device := []\<rparr>)) = Some K" by simp
  from outputEvent_pieces [OF this] eq show ?thesis by auto
qed simp

lemma buffering_kept:
  assumes "logger_eventFilter q v elapsed receiver event L = Some L'" and "\<not> is_drop event" and "\<not> m_ignoreEvents L"
    and "\<not> is_press event" and "buffering L'"
  shows "buffering L \<and> \<not> is_release (Some event)"
proof -
  define L1 where "L1 = (if is_release (m_lastEvent L) then stopDragAndDropBuffer (flushDragAndDropBuffer L) else L)"
  obtain L2 where L2: "log_event q v elapsed receiver event L1 = Some L2"
      "L' = new_CanaryEvent (L2\<lparr>m_lastEvent := Some event\<rparr>)"
    using assms(1-3) by (auto simp: logger_eventFilter_def L1_def Let_def split: if_splits)
  have "m_writer L2 = m_writer L1" using log_event_writes [OF L2(1) assms(2)] assms(4) by auto
  with assms(5) show ?thesis
    by (auto simp: L2(2) L1_def buffering_def new_CanaryEvent_def buffer_defs split: if_splits)
qed

lemma step_logged:
  assumes "log_session q L ps" and "\<not> (is_press event \<and> buffering L)"
    and "event_pieces q v elapsed receiver event = Some new" and "\<not> is_drop event"
  shows "\<exists>L'. record_steps q v [(elapsed, receiver, event)] L = Some L' \<and> log_session q L' (ps @ new) \<and>
    logger_eventFilter q v elapsed receiver event (delete_CanaryEvent L) = Some L'"
proof -
  let ?L = "delete_CanaryEvent L"
  have L: "log_session q ?L ps" "\<not> m_ignoreEvents ?L" "buffering ?L = buffering L"
    using assms(1) log_canary by (auto simp: delete_CanaryEvent_def buffering_def)
  obtain L' where L': "logger_eventFilter q v elapsed receiver event ?L = Some L'"
    using log_event_total [OF assms(3,4)] L(2) assms(4) by (fastforce simp: logger_eventFilter_def Let_def)
  have "log_session q L' (ps @ new)" using log_logged [OF L(1,2) assms(4) _ assms(3) L'] assms(2) L(3) by simp
  with L' show ?thesis by simp
qed

lemma plain_logged:
  assumes "log_session q L ps" and "buffering L \<Longrightarrow> held" and "paired held [Plain (elapsed, receiver, event)]"
    and "event_pieces q v elapsed receiver event = Some new" and "\<not> is_drop event"
  shows "\<exists>L'. record_steps q v [(elapsed, receiver, event)] L = Some L' \<and> log_session q L' (ps @ new) \<and>
    (buffering L' \<longrightarrow> held_after held (Plain (elapsed, receiver, event)))"
proof -
  have "\<not> (is_press event \<and> buffering L)" using assms(2,3) by auto
  from step_logged [OF assms(1) this assms(4,5)] obtain L' where
      L': "record_steps q v [(elapsed, receiver, event)] L = Some L'" "log_session q L' (ps @ new)"
        "logger_eventFilter q v elapsed receiver event (delete_CanaryEvent L) = Some L'"
    by blast
  have "buffering L' \<Longrightarrow> held_after held (Plain (elapsed, receiver, event))"
    using buffering_kept [OF L'(3) assms(5)] assms(2) by (auto simp: delete_CanaryEvent_def buffering_def)
  with L' show ?thesis by blast
qed

section \<open>Drag and drop\<close>

text \<open>While the button is held, the device stays as it was and the origin of the drag is known.\<close>

definition dragging :: "piece list \<Rightarrow> objid \<Rightarrow> point \<Rightarrow> logger \<Rightarrow> bool" where
  "dragging device source pos L \<longleftrightarrow> m_writer L = ToBuffer \<and> l_device L = device \<and>
     m_dragOriginWidget L = Some source \<and> m_dragOriginPoint L = pos"

lemma dragging_starts:
  assumes "logger_eventFilter q v elapsed receiver (Seen (QMouseEvent MouseButtonPress pos g b bs m)) L = Some L'"
    and "\<not> m_ignoreEvents L" and "buffer_ok L" and "\<not> buffering L"
  shows "dragging (recorded L) receiver pos L' \<and> \<not> is_release (m_lastEvent L')"
proof -
  let ?e = "Seen (QMouseEvent MouseButtonPress pos g b bs m)"
  define L1 where "L1 = (if is_release (m_lastEvent L) then stopDragAndDropBuffer (flushDragAndDropBuffer L) else L)"
  have "l_device L1 = recorded L"
    using assms(3,4) by (cases "m_writer L") (auto simp: L1_def recorded_def buffering_def buffer_ok_def buffer_defs)
  moreover obtain L2 where L2: "log_event q v elapsed receiver ?e L1 = Some L2"
      "L' = new_CanaryEvent (L2\<lparr>m_lastEvent := Some ?e\<rparr>)"
    using assms(1,2) by (auto simp: logger_eventFilter_def L1_def is_drop_def Let_def split: if_splits)
  moreover obtain ps where "L2 = l_write ps (press_prepares ?e receiver L1)"
    using log_event_writes [OF L2(1)] by (auto simp: is_drop_def)
  ultimately show ?thesis
    by (simp add: dragging_def l_write_def press_prepares_def buffer_defs new_CanaryEvent_def is_release_def)
qed

lemma dragging_goes_on:
  assumes "logger_eventFilter q v elapsed receiver event L = Some L'" and "\<not> m_ignoreEvents L"
    and "dragging device source pos L" and "\<not> is_release (m_lastEvent L)" and "\<not> is_press event" and "\<not> is_drop event"
  shows "dragging device source pos L' \<and> m_lastEvent L' = Some event"
proof -
  obtain L2 where L2: "log_event q v elapsed receiver event L = Some L2"
      "L' = new_CanaryEvent (L2\<lparr>m_lastEvent := Some event\<rparr>)"
    using assms(1,2,4,6) by (auto simp: logger_eventFilter_def Let_def split: if_splits)
  moreover obtain ps where "L2 = l_write ps L" using log_event_writes [OF L2(1) assms(6)] assms(5) by auto
  ultimately show ?thesis using assms(3) by (simp add: dragging_def l_write_def new_CanaryEvent_def)
qed

text \<open>What may happen while the button is held, up to the release.\<close>

definition held_step :: "qt \<Rightarrow> app_view \<Rightarrow> user_step \<Rightarrow> bool" where
  "held_step q v step = (case step of (elapsed, receiver, event) \<Rightarrow>
     step_pieces q v step \<noteq> None \<and> \<not> is_press event \<and> \<not> is_release (Some event) \<and> \<not> is_drop event)"

lemma held_logged:
  assumes "log_session q L ps" and "dragging device source pos L" and "\<not> is_release (m_lastEvent L)"
    and "step_pieces q v (elapsed, receiver, event) = Some new" and "\<not> is_press event" and "\<not> is_drop event"
  shows "\<exists>L'. record_steps q v [(elapsed, receiver, event)] L = Some L' \<and> log_session q L' (ps @ new) \<and>
    dragging device source pos L' \<and> m_lastEvent L' = Some event"
proof -
  have new: "event_pieces q v elapsed receiver event = Some new" using assms(4) by (simp add: step_pieces_def)
  have "\<not> (is_press event \<and> buffering L)" using assms(5) by simp
  from step_logged [OF assms(1) this new assms(6)] obtain L' where
      L': "record_steps q v [(elapsed, receiver, event)] L = Some L'" "log_session q L' (ps @ new)"
        "logger_eventFilter q v elapsed receiver event (delete_CanaryEvent L) = Some L'"
    by blast
  from dragging_goes_on [OF this(3), of device source pos] assms(2,3,5,6)
  have "dragging device source pos L' \<and> m_lastEvent L' = Some event"
    by (simp add: delete_CanaryEvent_def dragging_def)
  with L' show ?thesis by blast
qed

lemma moves_logged:
  assumes "log_session q L ps" and "dragging device source pos L" and "\<not> is_release (m_lastEvent L)"
    and "list_all (held_step q v) moves"
  shows "\<exists>L' new. record_steps q v moves L = Some L' \<and> log_session q L' (ps @ new) \<and>
    dragging device source pos L' \<and> \<not> is_release (m_lastEvent L')"
  using assms
proof (induction moves arbitrary: L ps)
  case Nil
  then show ?case by (intro exI [of _ L] exI [of _ "[]"]) simp
next
  case (Cons step moves)
  obtain elapsed receiver event where step: "step = (elapsed, receiver, event)" by (cases step) auto
  with Cons.prems(4) obtain new where new: "step_pieces q v (elapsed, receiver, event) = Some new"
      "\<not> is_press event" "\<not> is_drop event" and "\<not> is_release (Some event)"
    by (auto simp: held_step_def)
  with held_logged [OF Cons.prems(1-3) new] obtain L1 where
      L1: "record_steps q v [(elapsed, receiver, event)] L = Some L1" "log_session q L1 (ps @ new)"
        "dragging device source pos L1" "\<not> is_release (m_lastEvent L1)"
    by auto
  from Cons.IH [OF this(2-4)] Cons.prems(4) obtain L' new' where
      "record_steps q v moves L1 = Some L'" "log_session q L' ((ps @ new) @ new')"
      "dragging device source pos L'" "\<not> is_release (m_lastEvent L')"
    by auto
  with L1(1) record_steps_append [of q v "[step]" moves L] show ?case
    by (intro exI [of _ L'] exI [of _ "new @ new'"]) (simp add: step)
qed

text \<open>The drop puts one element in the place of all that.\<close>

definition drag_element :: "qt \<Rightarrow> qtext \<Rightarrow> point \<Rightarrow> qtext \<Rightarrow> point \<Rightarrow> xml_node" where
  "drag_element q source sourcePoint target targetPoint = XElement ''dragAndDrop''
     [(''source'', source), (''sourceX'', qt_number q (fst sourcePoint)), (''sourceY'', qt_number q (snd sourcePoint)),
      (''target'', target), (''targetX'', qt_number q (fst targetPoint)), (''targetY'', qt_number q (snd targetPoint))] []"

lemma drop_logged:
  assumes "log_session q L (ps @ dragged)" and "dragging (DocumentStart # ps) source sourcePoint L"
    and "is_release (m_lastEvent L)" and "objectPath q (view_tree v) source = Some sourcePath"
    and "objectPath q (view_tree v) target = Some targetPath"
  shows "\<exists>L'. record_steps q v [(elapsed, target, Drop pos)] L = Some L' \<and>
    log_session q L' (ps @ [Elem (msec_element q elapsed), Elem (drag_element q sourcePath sourcePoint targetPath pos)]) \<and>
    \<not> buffering L'"
proof -
  let ?L = "delete_CanaryEvent L" and ?new = "[Elem (msec_element q elapsed), Elem (drag_element q sourcePath sourcePoint targetPath pos)]"
  have "recorded L = DocumentStart # ps @ dragged" using log_session_recorded [OF assms(1)] by simp
  then have dragged: "m_dragAndDropBuffer ?L = dragged"
    using assms(2) by (simp add: recorded_def dragging_def delete_CanaryEvent_def)
  obtain L' where L': "logger_eventFilter q v elapsed target (Drop pos) ?L = Some L'"
      "recorded L' = l_device ?L @ ?new" "m_writer L' = ToSocket"
    using assms(2-5)
    by (simp add: logger_eventFilter_def log_event_def outputDragAndDropEvent_def optional_path_def is_drop_def
        dragging_def delete_CanaryEvent_def l_write_def recorded_def buffer_defs drag_element_def Let_def)
  have "log_session q ?L (ps @ dragged)" using assms(1) by (rule log_canary)
  moreover have "is_release (m_lastEvent ?L)" using assms(3) by (simp add: delete_CanaryEvent_def)
  ultimately have "log_session q L' (ps @ ?new)" using log_drop [OF _ _ dragged L'(1,2)] by blast
  with L'(1,3) show ?thesis by (simp add: buffering_def)
qed

text \<open>Where a drag starts.\<close>

definition drag_origin :: "user_step \<Rightarrow> (objid \<times> point) option" where
  "drag_origin step = (case step of
     (elapsed, receiver, Seen (QMouseEvent MouseButtonPress pos g b bs m)) \<Rightarrow> Some (receiver, pos)
   | _ \<Rightarrow> None)"

lemma drag_logged:
  assumes "log_session q L ps" and "\<not> buffering L"
    and "drag_origin press = Some (source, sourcePoint)" and "step_pieces q v press \<noteq> None"
    and "list_all (held_step q v) moves"
    and "is_release (Some (snd (snd release)))" and "step_pieces q v release \<noteq> None"
    and "objectPath q (view_tree v) source = Some sourcePath" and "objectPath q (view_tree v) target = Some targetPath"
  shows "\<exists>L'. record_steps q v (input_steps (DragDrop press moves release (elapsed, target, pos))) L = Some L' \<and>
    log_session q L' (ps @ [Elem (msec_element q elapsed), Elem (drag_element q sourcePath sourcePoint targetPath pos)]) \<and>
    \<not> buffering L'"
proof -
  let ?L = "delete_CanaryEvent L"
  obtain e g b bs m where press: "press = (e, source, Seen (QMouseEvent MouseButtonPress sourcePoint g b bs m))"
    using assms(3) by (auto simp: drag_origin_def split: prod.splits seen_event.splits qevent.splits mouse_type.splits)
  let ?press = "Seen (QMouseEvent MouseButtonPress sourcePoint g b bs m)"
  obtain new1 where new1: "event_pieces q v e source ?press = Some new1"
    using assms(4) by (auto simp: press step_pieces_def)
  have start: "buffer_ok ?L" "\<not> buffering ?L" "recorded ?L = DocumentStart # ps"
    using log_session_recorded [OF log_canary [OF assms(1)]] assms(2) by (simp_all add: buffering_def delete_CanaryEvent_def)
  obtain L1 where L1: "record_steps q v [press] L = Some L1" "log_session q L1 (ps @ new1)"
      "logger_eventFilter q v e source ?press ?L = Some L1"
    using step_logged [OF assms(1) _ new1] assms(2) by (auto simp: press is_drop_def)
  have "\<not> m_ignoreEvents ?L" by (simp add: delete_CanaryEvent_def)
  from dragging_starts [OF L1(3) this start(1,2)] start(3)
  have held: "dragging (DocumentStart # ps) source sourcePoint L1" "\<not> is_release (m_lastEvent L1)" by simp_all
  from moves_logged [OF L1(2) held assms(5)] obtain L2 new2 where
      L2: "record_steps q v moves L1 = Some L2" "log_session q L2 ((ps @ new1) @ new2)"
        "dragging (DocumentStart # ps) source sourcePoint L2" "\<not> is_release (m_lastEvent L2)" by blast
  obtain e3 r3 event3 new3 where release: "release = (e3, r3, event3)" "step_pieces q v (e3, r3, event3) = Some new3"
    using assms(7) by (cases release) auto
  have "is_release (Some event3)" using assms(6) release(1) by simp
  then have "\<not> is_press event3" "\<not> is_drop event3"
    by (auto simp: is_release_def is_press_def is_drop_def split: seen_event.splits qevent.splits mouse_type.splits)
  from held_logged [OF L2(2-4) release(2) this] \<open>is_release (Some event3)\<close> obtain L3 where
      L3: "record_steps q v [release] L2 = Some L3" "log_session q L3 (ps @ new1 @ new2 @ new3)"
        "dragging (DocumentStart # ps) source sourcePoint L3" "is_release (m_lastEvent L3)"
    unfolding release(1) by auto
  from drop_logged [OF L3(2-4) assms(8,9)] obtain L4 where
      L4: "record_steps q v [(elapsed, target, Drop pos)] L3 = Some L4"
        "log_session q L4 (ps @ [Elem (msec_element q elapsed), Elem (drag_element q sourcePath sourcePoint targetPath pos)])"
        "\<not> buffering L4" by blast
  have "input_steps (DragDrop press moves release (elapsed, target, pos)) =
      [press] @ moves @ [release] @ [(elapsed, target, Drop pos)]" by simp
  with L1(1) L2(1) L3(1) L4 show ?thesis by (simp only: record_steps_append option.case) simp
qed

end
