(* ===== verification/Loop_Commands.thy ===== *)
theory Loop_Commands
  imports Playback_Loop Replay
begin

text \<open>
  A script is played: one command after the other is written, delivered and performed, at once or
  when a timer has fired, and its acknowledgement is read. This schedule is executable; it is a
  run of \<open>Playback_Loop\<close> in which the user stays away and the application does only what it is told.
\<close>

section \<open>The schedule\<close>

text \<open>The player reads an element; a sleep that it asks for passes.\<close>

definition player_runs :: "qt \<Rightarrow> 'app app_ops \<Rightarrow> bool \<Rightarrow> xml_node \<Rightarrow> 'app player \<Rightarrow> player_error + 'app player" where
  "player_runs q ops x11 node P =
     (case readNext q ops x11 (P\<lparr>p_stream := node_tokens node\<rparr>) of
        Inl e \<Rightarrow> Inl e
      | Inr P' \<Rightarrow> (case p_timers P' of [] \<Rightarrow> Inr P' | n # ns \<Rightarrow> waitFinished q ops (P'\<lparr>p_timers := ns\<rparr>)))"

definition read_reply :: "'app system \<Rightarrow> 'app system" where
  "read_reply S = S\<lparr>sys_i := process_response (response_of (p_written (sys_p S) ! sys_read S)) (sys_i S),
     sys_read := sys_read S + 1\<rparr>"

text \<open>The script sends a signal, and gets control back when the interpreter has stopped waiting.\<close>

definition play_signal :: "qt \<Rightarrow> 'app app_ops \<Rightarrow> bool \<Rightarrow> signal \<Rightarrow> 'app system \<Rightarrow> 'app system option" where
  "play_signal q ops x11 s S =
     (let I = writeEvent q s (sys_i S) in
      if \<not> ready (sys_i S) \<or> length (sent I) \<le> sys_delivered S then None
      else case player_runs q ops x11 (sent I ! sys_delivered S) (sys_p S) of
          Inl e \<Rightarrow> None
        | Inr P \<Rightarrow>
            (let S' = S\<lparr>sys_i := I, sys_p := P, sys_delivered := sys_delivered S + 1\<rparr>;
                 S'' = (read_reply ^^ (length (p_written P) - sys_read S)) S'
             in Some (S''\<lparr>sys_i := end_wait q (sys_i S'')\<rparr>)))"

fun play_signals :: "qt \<Rightarrow> 'app app_ops \<Rightarrow> bool \<Rightarrow> signal list \<Rightarrow> 'app system \<Rightarrow> 'app system option" where
  "play_signals q ops x11 [] S = Some S"
| "play_signals q ops x11 (s # ss) S =
     (case play_signal q ops x11 s S of None \<Rightarrow> None | Some S' \<Rightarrow> play_signals q ops x11 ss S')"

lemma play_signals_append:
  "play_signals q ops x11 (ss @ ss') S =
     (case play_signals q ops x11 ss S of None \<Rightarrow> None | Some S' \<Rightarrow> play_signals q ops x11 ss' S')"
  by (induction ss arbitrary: S) (simp_all split: option.splits)

section \<open>The schedule is a run of the loop\<close>

lemma loop_replies:
  "loop q ops x11 S \<Longrightarrow> sys_read S + n \<le> length (p_written (sys_p S)) \<Longrightarrow> loop q ops x11 ((read_reply ^^ n) S)"
proof (induction n arbitrary: S)
  case (Suc n)
  have "loop q ops x11 (read_reply S)"
    unfolding read_reply_def using loop_reply [OF Suc.prems(1)] Suc.prems(2) by simp
  moreover have "sys_read (read_reply S) + n \<le> length (p_written (sys_p (read_reply S)))"
    using Suc.prems(2) by (simp add: read_reply_def)
  ultimately have "loop q ops x11 ((read_reply ^^ n) (read_reply S))" by (rule Suc.IH)
  then show ?case by (simp add: funpow_swap1)
qed simp

lemma read_nothing: "length (p_written P) \<le> n \<Longrightarrow> (read_reply ^^ (length (p_written P) - n)) S = S"
  by simp

lemma player_runs_loop:
  assumes "loop q ops x11 S" and "sys_delivered S < length (sent (sys_i S))"
    and "player_runs q ops x11 (sent (sys_i S) ! sys_delivered S) (sys_p S) = Inr P"
  shows "loop q ops x11 (S\<lparr>sys_p := P, sys_delivered := sys_delivered S + 1\<rparr>)"
proof -
  obtain P' where P': "readNext q ops x11 ((sys_p S)\<lparr>p_stream := node_tokens (sent (sys_i S) ! sys_delivered S)\<rparr>) = Inr P'"
    using assms(3) by (auto simp: player_runs_def split: sum.splits)
  note delivered = loop_deliver [OF assms(1,2) this]
  show ?thesis
  proof (cases "p_timers P'")
    case Nil
    with delivered assms(3) P' show ?thesis by (simp add: player_runs_def)
  next
    case (Cons n ns)
    have "S\<lparr>sys_delivered := d, sys_p := P\<rparr> = S\<lparr>sys_p := P, sys_delivered := d\<rparr>" for d by simp
    with Cons loop_timer [OF delivered, of n ns P] assms(3) P' show ?thesis by (simp add: player_runs_def)
  qed
qed

lemma play_signal_loop:
  assumes "loop q ops x11 S" and "play_signal q ops x11 s S = Some S'"
  shows "loop q ops x11 S'"
proof -
  let ?S = "S\<lparr>sys_i := writeEvent q s (sys_i S)\<rparr>"
  obtain P where P: "ready (sys_i S)" "sys_delivered ?S < length (sent (sys_i ?S))"
      "player_runs q ops x11 (sent (sys_i ?S) ! sys_delivered ?S) (sys_p ?S) = Inr P"
    and S': "S' = (let S'' = (read_reply ^^ (length (p_written P) - sys_read S)) (?S\<lparr>sys_p := P, sys_delivered := sys_delivered S + 1\<rparr>)
      in S''\<lparr>sys_i := end_wait q (sys_i S'')\<rparr>)"
    using assms(2) by (auto simp: play_signal_def Let_def split: if_splits sum.splits)
  let ?S1 = "?S\<lparr>sys_p := P, sys_delivered := sys_delivered S + 1\<rparr>"
  have "loop q ops x11 ?S1" using player_runs_loop [OF loop_command [OF assms(1) P(1)] P(2,3)] by simp
  then have "loop q ops x11 ((read_reply ^^ (length (p_written P) - sys_read S)) ?S1)"
    using loop_replies [of q ops x11 ?S1 "length (p_written P) - sys_read S"]
    by (cases "sys_read S \<le> length (p_written P)") simp_all
  then show ?thesis unfolding S' Let_def by (rule loop_wait)
qed

lemma play_signals_loop:
  "loop q ops x11 S \<Longrightarrow> play_signals q ops x11 ss S = Some S' \<Longrightarrow> loop q ops x11 S'"
  by (induction ss arbitrary: S) (auto split: option.splits dest: play_signal_loop)

section \<open>What the player does\<close>

definition player_rest :: "'app player \<Rightarrow> bool" where
  "player_rest P \<longleftrightarrow> \<not> m_processingEvents P \<and> m_eventQueue P = [] \<and> p_timers P = [] \<and> m_mode P = Playback"

text \<open>An element is worth actions on the application, after which the player acknowledges and rests.\<close>

definition performs :: "qt \<Rightarrow> 'app app_ops \<Rightarrow> bool \<Rightarrow> xml_node \<Rightarrow> app_action list \<Rightarrow> bool" where
  "performs q ops x11 node acts \<longleftrightarrow>
     (\<forall>P. player_rest P \<longrightarrow> (\<exists>P'. player_runs q ops x11 node P = Inr P' \<and> player_rest P' \<and>
        p_app P' = fold (app_perform ops) acts (p_app P) \<and> p_written P' = p_written P @ [R_ACK]))"

lemma player_performs:
  assumes "\<And>P. handleElement q ops x11 name atts P = Inr (enqueue [new_event b] P)"
    and "\<And>P. process_event q ops (new_event b) P = Inr (Break, act ops a P)"
  shows "performs q ops x11 (XElement name atts []) [a]"
  using assms
  by (simp add: performs_def player_runs_def readNext.simps player_rest_def processEvents_def enqueue_def act_def ack_def
      send_def)

text \<open>A sleep starts a timer; the acknowledgement comes when it fires.\<close>

lemma player_sleeps:
  assumes "number_reads_back q" and "is_int n"
  shows "performs q ops x11 (signal_element q (SleepRequested n)) [StartTimer n]"
  using assms
  by (simp add: performs_def player_runs_def signal_element_def number_reads_back_def readNext.simps handleElement_def
      player_rest_def processEvents_def process_event_def player_defs waitFinished_def)

text \<open>
  A drag and drop is a queue of events with a sleep in the middle; only the last one is
  acknowledged.
\<close>

definition drag_actions ::
    "'app app_ops \<Rightarrow> bool \<Rightarrow> objid \<Rightarrow> point \<Rightarrow> objid \<Rightarrow> point \<Rightarrow> point \<Rightarrow> app_action list" where
  "drag_actions ops x11 source sourcePoint target targetPoint globalPoint =
     (let flush = (if x11 then [ProcessEvents] else []); (sx, sy) = sourcePoint
      in flush @ [SetFocus source 7] @ flush @
         [PostEvent source (QMouseEvent MouseButtonPress sourcePoint None 1 1 0),
          PostEvent source (QMouseEvent MouseMove (sx, sy + 1) None 0 1 0),
          StartTimer (app_startDragTime ops + 1),
          PostEvent source (QMouseEvent MouseMove (sx, sy + (app_startDragDistance ops + 1)) None 0 1 0),
          PostEvent target (QMouseEvent MouseMove targetPoint (Some globalPoint) 0 1 0),
          PostEvent target (QMouseEvent MouseButtonRelease targetPoint (Some globalPoint) 1 0 0),
          ProcessEvents])"

lemma player_drags:
  assumes "number_reads_back q"
    and "\<And>a. app_tree ops a = t" and "\<And>a. app_mapToGlobal ops a = geometry"
    and "findObject q t sourcePath = Some source" and "obj_isWidget (tree_object t source)"
    and "findObject q t targetPath = Some target" and "obj_isWidget (tree_object t target)"
    and "is_int (fst sp)" and "is_int (snd sp)" and "is_int (fst tp)" and "is_int (snd tp)"
  shows "performs q ops x11 (signal_element q (DragAndDropSignal sourcePath sp targetPath tp))
    (drag_actions ops x11 source sp target tp (geometry target tp))"
proof -
  have found: "player_find q ops Q sourcePath = Some source" "player_find q ops Q targetPath = Some target"
    "player_widget q ops Q sourcePath = Some source" "player_widget q ops Q targetPath = Some target" for Q
    using assms(2,4-7) by (simp_all add: player_find_def player_widget_def)
  obtain atts where atts: "signal_element q (DragAndDropSignal sourcePath sp targetPath tp) = XElement ''dragAndDrop'' atts []"
      "attr_text atts ''source'' = sourcePath" "attr_point q atts ''sourceX'' ''sourceY'' = sp"
      "attr_text atts ''target'' = targetPath" "attr_point q atts ''targetX'' ''targetY'' = tp"
    using assms(1,8-11)
    by (simp add: signal_element_def attr_text_def attr_point_def attr_int_def attr_def number_reads_back_def prod_eq_iff)
  obtain sx sy where sp: "sp = (sx, sy)" by (cases sp)
  show ?thesis
    using assms(3) atts
    by (cases x11)
       (simp_all add: performs_def player_runs_def readNext.simps handleElement_def postDragAndDrop_def
         drag_and_drop_events_def drag_actions_def player_rest_def processEvents_def process_event_def player_defs
         waitFinished_def found sp Let_def)
qed

section \<open>Playing commands\<close>

text \<open>The script may go on and nothing is under way.\<close>

definition at_rest :: "'app system \<Rightarrow> bool" where
  "at_rest S \<longleftrightarrow> ready (sys_i S) \<and> sys_delivered S = length (sent (sys_i S)) \<and>
     sys_read S = length (p_written (sys_p S)) \<and> player_rest (sys_p S)"

text \<open>The signals can be played from every state at rest, and the actions are what the application gets.\<close>

definition plays :: "qt \<Rightarrow> 'app app_ops \<Rightarrow> bool \<Rightarrow> signal list \<Rightarrow> app_action list \<Rightarrow> bool" where
  "plays q ops x11 ss acts \<longleftrightarrow>
     (\<forall>S. at_rest S \<longrightarrow>
        (\<exists>S'. play_signals q ops x11 ss S = Some S' \<and> at_rest S' \<and>
           p_app (sys_p S') = fold (app_perform ops) acts (p_app (sys_p S)) \<and>
           sent (sys_i S') = sent (sys_i S) @ map (signal_element q) ss))"

lemma playsD:
  assumes "plays q ops x11 ss acts" and "at_rest S"
  obtains S' where "play_signals q ops x11 ss S = Some S'" "at_rest S'"
    "p_app (sys_p S') = fold (app_perform ops) acts (p_app (sys_p S))"
    "sent (sys_i S') = sent (sys_i S) @ map (signal_element q) ss"
  using assms unfolding plays_def by blast

lemma plays_Nil [simp]: "plays q ops x11 [] []"
  by (auto simp: plays_def)

lemma plays_append:
  assumes "plays q ops x11 ss acts" and "plays q ops x11 ss' acts'"
  shows "plays q ops x11 (ss @ ss') (acts @ acts')"
  unfolding plays_def
proof (intro allI impI)
  fix S :: "'a system"
  assume "at_rest S"
  from playsD [OF assms(1) this] obtain S' where S': "play_signals q ops x11 ss S = Some S'" "at_rest S'"
      "p_app (sys_p S') = fold (app_perform ops) acts (p_app (sys_p S))"
      "sent (sys_i S') = sent (sys_i S) @ map (signal_element q) ss" .
  from playsD [OF assms(2) S'(2)] obtain S'' where "play_signals q ops x11 ss' S' = Some S''" "at_rest S''"
      "p_app (sys_p S'') = fold (app_perform ops) acts' (p_app (sys_p S'))"
      "sent (sys_i S'') = sent (sys_i S') @ map (signal_element q) ss'" .
  with S' show "\<exists>S'. play_signals q ops x11 (ss @ ss') S = Some S' \<and> at_rest S' \<and>
      p_app (sys_p S') = fold (app_perform ops) (acts @ acts') (p_app (sys_p S)) \<and>
      sent (sys_i S') = sent (sys_i S) @ map (signal_element q) (ss @ ss')"
    by (intro exI [of _ S'']) (simp add: play_signals_append)
qed

text \<open>A command whose element is performed is acknowledged, and this ends the wait of the script.\<close>

lemma plays_command:
  assumes "performs q ops x11 (signal_element q s) acts" and "\<not> is_property s"
  shows "plays q ops x11 [s] acts"
  unfolding plays_def
proof (intro allI impI)
  fix S :: "'a system"
  assume rest: "at_rest S"
  obtain P where P: "player_runs q ops x11 (signal_element q s) (sys_p S) = Inr P" "player_rest P"
      "p_app P = fold (app_perform ops) acts (p_app (sys_p S))" "p_written P = p_written (sys_p S) @ [R_ACK]"
    using assms(1) rest unfolding performs_def at_rest_def by blast
  have I: "writeEvent q s (sys_i S) = writeSignal q s (sys_i S)"
    using rest by (simp add: at_rest_def ready_def writeEvent_attached)
  let ?I = "setAck True (writeSignal q s (sys_i S))"
  have ready: "ready (end_wait q ?I)" "sent (end_wait q ?I) = sent (sys_i S) @ [signal_element q s]"
    using rest assms(2) sent_writeSignal [of q s "sys_i S"]
    by (cases s; simp add: at_rest_def writeSignal_def begin_waitForAck_def setAck_def end_wait_def ready_def i_ack_def
        put_def is_property_def sent_def)+
  have "play_signal q ops x11 s S = Some (S\<lparr>sys_i := end_wait q ?I, sys_p := P,
      sys_delivered := sys_delivered S + 1, sys_read := sys_read S + 1\<rparr>)"
    using rest P(1,4)
    by (simp add: play_signal_def I at_rest_def sent_writeSignal read_reply_def response_of_def process_response_def)
  with rest P ready show "\<exists>S'. play_signals q ops x11 [s] S = Some S' \<and> at_rest S' \<and>
      p_app (sys_p S') = fold (app_perform ops) acts (p_app (sys_p S)) \<and>
      sent (sys_i S') = sent (sys_i S) @ map (signal_element q) [s]"
    by (simp add: at_rest_def)
qed

lemma plays_sleep: "number_reads_back q \<Longrightarrow> is_int n \<Longrightarrow> plays q ops x11 [SleepRequested n] [StartTimer n]"
  by (rule plays_command [OF player_sleeps]) (simp_all add: is_property_def)

lemma plays_posted:
  assumes "posts q ops x11 ev position_at i b"
    and "\<And>P. process_event q ops (new_event b) P = Inr (Break, act ops a P)"
  shows "plays q ops x11 (replay_item q ev position_at i) [a]"
proof -
  obtain s name atts where s: "replay_item q ev position_at i = [s]" "signal_element q s = XElement name atts []"
      "name \<noteq> ''dump''" "\<And>P. handleElement q ops x11 name atts P = Inr (enqueue [new_event b] P)"
    using assms(1) unfolding posts_def by blast
  have "\<not> is_property s" using s(2,3) by (cases s) (auto simp: is_property_def signal_element_def)
  with plays_command player_performs [OF s(4) assms(2)] s(1,2) show ?thesis by metis
qed

end
