(* ===== verification/Record_And_Replay.thy ===== *)
theory Record_And_Replay
  imports User_Sessions Loop_Commands
begin

text \<open>
  The whole way of a session: the logger records what a user does, the document is read into
  items, the script calls its remote objects, and interpreter and player run in the closed loop
  of \<open>Playback_Loop\<close> until the application has got every event. The definitions compose
  those of the components; the specification says which actions on the application a recorded
  input is worth.
\<close>

section \<open>What an input is worth in playback\<close>

text \<open>What arrives of an event.\<close>

fun arriving_event :: "qt \<Rightarrow> qevent \<Rightarrow> qevent" where
  "arriving_event q (QMouseEvent type pos globalPos button buttons modifiers) =
     QMouseEvent type pos None button buttons modifiers"
| "arriving_event q (QKeyEvent type key modifiers text rep count) =
     QKeyEvent type key modifiers (safeText q text) False count"
| "arriving_event q (QContextMenuEvent reason pos globalPos modifiers) = QContextMenuEvent 0 pos globalPos modifiers"
| "arriving_event q (QShortcutEvent keys n ambiguous) = QShortcutEvent keys n ambiguous"
| "arriving_event q (QWheelEvent pos delta buttons modifiers orient) = QWheelEvent pos delta buttons modifiers Horizontal"

definition replayed_action :: "qt \<Rightarrow> app_view \<Rightarrow> objid \<Rightarrow> seen_event \<Rightarrow> app_action option" where
  "replayed_action q v receiver event = (case event of
     Seen e \<Rightarrow> Some (PostEvent receiver (arriving_event q e))
   | CloseSeen \<Rightarrow> Some (CloseWidget receiver)
   | FocusIn reason \<Rightarrow> map_option (\<lambda>w. SetFocus w reason) (focusObject v receiver)
   | _ \<Rightarrow> None)"

definition step_actions :: "qt \<Rightarrow> app_view \<Rightarrow> user_step \<Rightarrow> app_action list" where
  "step_actions q v step = (case step of (elapsed, receiver, event) \<Rightarrow>
     (case replayed_action q v receiver event of None \<Rightarrow> [] | Some a \<Rightarrow> [StartTimer elapsed, a]))"

text \<open>
  A drag and drop is played back as a whole: the player makes its own press, movements and
  release; \<open>geometry\<close> maps the place of the drop to the screen.
\<close>

fun input_actions ::
    "qt \<Rightarrow> app_view \<Rightarrow> 'app app_ops \<Rightarrow> bool \<Rightarrow> (objid \<Rightarrow> point \<Rightarrow> point) \<Rightarrow> user_input \<Rightarrow> app_action list" where
  "input_actions q v ops x11 geometry (Plain step) = step_actions q v step"
| "input_actions q v ops x11 geometry (DragDrop press moves release (elapsed, target, pos)) =
     (case drag_origin press of
        None \<Rightarrow> []
      | Some (source, sourcePoint) \<Rightarrow>
          StartTimer elapsed # drag_actions ops x11 source sourcePoint target pos (geometry target pos))"

text \<open>The numbers of an event fit into an \<open>int\<close>, the count of a key event into an \<open>ushort\<close>.\<close>

fun event_in_range :: "qevent \<Rightarrow> bool" where
  "event_in_range (QMouseEvent type pos globalPos button buttons modifiers) \<longleftrightarrow> is_int (fst pos) \<and> is_int (snd pos)"
| "event_in_range (QKeyEvent type key modifiers text rep count) \<longleftrightarrow> is_int key \<and> 0 \<le> count \<and> count < 65536"
| "event_in_range (QContextMenuEvent reason pos globalPos modifiers) \<longleftrightarrow>
     is_int (fst pos) \<and> is_int (snd pos) \<and> is_int (fst globalPos) \<and> is_int (snd globalPos)"
| "event_in_range (QShortcutEvent keys n ambiguous) \<longleftrightarrow> is_int n"
| "event_in_range (QWheelEvent pos delta buttons modifiers orient) \<longleftrightarrow> is_int (fst pos) \<and> is_int (snd pos) \<and> is_int delta"

text \<open>Recording writes a path for the object, and playback finds the object under it.\<close>

definition addressable :: "qt \<Rightarrow> qtree \<Rightarrow> objid \<Rightarrow> bool" where
  "addressable q t x \<longleftrightarrow> (case objectPath q t x of None \<Rightarrow> False | Some path \<Rightarrow> findObject q t path = Some x)"

definition replayable :: "qt \<Rightarrow> app_view \<Rightarrow> user_step \<Rightarrow> bool" where
  "replayable q v step = (case step of (elapsed, receiver, event) \<Rightarrow>
     is_int elapsed \<and> addressable q (view_tree v) receiver \<and> \<not> is_drop event \<and>
     (case event of
        Seen e \<Rightarrow> event_in_range e
      | CloseSeen \<Rightarrow> obj_isWidget (tree_object (view_tree v) receiver)
      | FocusIn reason \<Rightarrow> is_int reason \<and>
          (case focusObject v receiver of
             None \<Rightarrow> True
           | Some w \<Rightarrow> addressable q (view_tree v) w \<and> obj_isWidget (tree_object (view_tree v) w))
      | _ \<Rightarrow> True))"

definition shown_widget :: "qt \<Rightarrow> app_view \<Rightarrow> objid \<Rightarrow> bool" where
  "shown_widget q v x \<longleftrightarrow> addressable q (view_tree v) x \<and> obj_isWidget (tree_object (view_tree v) x)"

fun valid_input :: "qt \<Rightarrow> app_view \<Rightarrow> user_input \<Rightarrow> bool" where
  "valid_input q v (Plain step) \<longleftrightarrow> replayable q v step"
| "valid_input q v (DragDrop press moves release (elapsed, target, pos)) \<longleftrightarrow>
     (case drag_origin press of
        None \<Rightarrow> False
      | Some (source, sourcePoint) \<Rightarrow>
          shown_widget q v source \<and> is_int (fst sourcePoint) \<and> is_int (snd sourcePoint)) \<and>
     step_pieces q v press \<noteq> None \<and> list_all (held_step q v) moves \<and>
     is_release (Some (snd (snd release))) \<and> step_pieces q v release \<noteq> None \<and>
     is_int elapsed \<and> shown_widget q v target \<and> is_int (fst pos) \<and> is_int (snd pos)"

section \<open>The script of a recording\<close>

text \<open>The document as \<open>QXmlStreamWriter\<close> formats it: every element on a line of its own.\<close>

definition piece_tokens :: "piece \<Rightarrow> xml_stream" where
  "piece_tokens p = (case p of
     DocumentStart \<Rightarrow> [StartDocument, StartElement ''hooq'' []]
   | Elem n \<Rightarrow> Characters (newline # ''    '') # node_tokens n
   | DocumentEnd \<Rightarrow> [Characters [newline], EndElement ''hooq'', EndDocument])"

definition document_tokens :: "logger \<Rightarrow> xml_stream" where
  "document_tokens L = concat (map piece_tokens (l_device (destroy_Logger L)))"

text \<open>
  The statement of an item, run by the engine: \<open>msleep\<close> is a global function, the others are methods;
  the parameter \<open>dragged\<close> of \<open>drop\<close> is a call of \<open>drag\<close>, which returns the source.
\<close>

definition script_signals ::
    "qt \<Rightarrow> (qvariant \<Rightarrow> qvariant) \<Rightarrow> (int \<Rightarrow> int \<Rightarrow> int \<Rightarrow> int \<Rightarrow> int) \<Rightarrow> item \<Rightarrow> signal list" where
  "script_signals q ev position_at i =
     (let parameters = v_toMap (item_parameters i) in
      if item_method i = Some ''msleep'' then [scriptMsleep (v_toInt q (ev (item_parameters i)))]
      else if item_method i = Some ''drop'' then
        (case qm_value parameters ''dragged'' of
           VItem d \<Rightarrow>
             [remote_drop q (v_toString q (item_target i))
                (remote_drag q (v_toString q (item_target d)) (eval_map ev (v_toMap (item_parameters d))))
                (eval_map ev parameters)]
         | _ \<Rightarrow> [])
      else replay_item q ev position_at i)"

lemma posts_signal:
  assumes "posts q ops x11 ev position_at i b"
  shows "script_signals q ev position_at i = replay_item q ev position_at i"
proof -
  have "replay_item q ev position_at i \<noteq> []" using assms by (auto simp: posts_def)
  moreover have "replay_item q ev position_at i = []" if "item_method i = Some ''msleep''"
    using that by (simp add: replay_item_def call_slot_def)
  moreover have "replay_item q ev position_at i = []" if "item_method i = Some ''drop''"
    using that by (simp add: replay_item_def call_slot_def)
  ultimately have "item_method i \<noteq> Some ''msleep''" "item_method i \<noteq> Some ''drop''" by blast+
  then show ?thesis by (simp add: script_signals_def Let_def)
qed

lemma drag_item:
  assumes "number_reads_back q" and "script_values ev"
    and "is_int (fst sp)" and "is_int (snd sp)" and "is_int (fst tp)" and "is_int (snd tp)"
  shows "\<exists>i. recorded_item q (drag_element q source sp target tp) = Some i \<and>
    script_signals q ev position_at i = [DragAndDropSignal source sp target tp]"
  using assms
  by (cases sp; cases tp)
     (simp add: drag_element_def parseElement_def parseDragAndDropEvent_def script_signals_def remote_drop_def remote_drag_def
       replay_defs Let_def)

lemma msec_item:
  assumes "number_reads_back q" and "is_int n"
  shows "recorded_item q (msec_element q n) = Some (method_item ''msleep'' (VInt n))"
  using assms by (simp add: msec_element_def parseElement_def parseMsec_def msecItem_def number_reads_back_def)

lemma session_items:
  assumes "list_all (flat_event q) nodes"
  shows "hooq_items q (concat (map (\<lambda>n. piece_tokens (Elem n)) nodes) @ Characters [newline] # EndElement ''hooq'' # rest) [] =
    (List.map_filter (recorded_item q) nodes, True, rest)"
proof -
  let ?spaced = "concat (map (\<lambda>n. [XText (newline # ''    ''), n]) nodes)"
  have "concat (map (\<lambda>n. piece_tokens (Elem n)) nodes) = concat (map node_tokens ?spaced)"
    by (induction nodes) (simp_all add: piece_tokens_def)
  moreover have "list_all (flat_event q) ?spaced" using assms by (induction nodes) simp_all
  moreover have "List.map_filter (recorded_item q) ?spaced = List.map_filter (recorded_item q) nodes"
    by (induction nodes) (simp_all add: map_filter_def)
  ultimately show ?thesis by (simp add: hooq_items_nodes)
qed

lemma parsed_session:
  assumes "buffer_ok L" and "recorded L = DocumentStart # map Elem nodes" and "list_all (flat_event q) nodes"
  shows "parse q 0 (document_tokens L) =
    Inr (qarg (''requireHooqScriptVersion(%1);'' @ [newline]) (qt_number q scriptVersion) @
      serialize q (List.map_filter (recorded_item q) nodes) True)"
proof -
  have "document_tokens L = StartDocument # StartElement ''hooq'' [] #
      concat (map (\<lambda>n. piece_tokens (Elem n)) nodes) @ Characters [newline] # EndElement ''hooq'' # [EndDocument]"
    using assms(1,2) by (simp add: document_tokens_def destroyed_device comp_def) (simp add: piece_tokens_def)
  then show ?thesis
    by (simp add: parse_def parseHooq_def session_items [OF assms(3)] itemString_def processed_items_def postProcessors_def)
qed

section \<open>One step\<close>

text \<open>
  What has to be shown of what was recorded: it consists of elements without children, and the
  items of these, run by the script, are worth the actions of the user.
\<close>

definition worth ::
    "qt \<Rightarrow> 'app app_ops \<Rightarrow> bool \<Rightarrow> (qvariant \<Rightarrow> qvariant) \<Rightarrow> (int \<Rightarrow> int \<Rightarrow> int \<Rightarrow> int \<Rightarrow> int) \<Rightarrow>
     xml_node list \<Rightarrow> app_action list \<Rightarrow> bool" where
  "worth q ops x11 ev position_at nodes acts \<longleftrightarrow> list_all (flat_event q) nodes \<and>
     plays q ops x11 (concat (map (script_signals q ev position_at) (List.map_filter (recorded_item q) nodes))) acts"

lemma worth_Nil [simp]: "worth q ops x11 ev position_at [] []"
  by (simp add: worth_def map_filter_def)

lemma worth_append:
  assumes "worth q ops x11 ev position_at nodes acts" and "worth q ops x11 ev position_at nodes' acts'"
  shows "worth q ops x11 ev position_at (nodes @ nodes') (acts @ acts')"
proof -
  have "List.map_filter f (xs @ ys) = List.map_filter f xs @ List.map_filter f ys" for f :: "xml_node \<Rightarrow> item option" and xs ys
    by (simp add: map_filter_def)
  with assms show ?thesis by (simp add: worth_def plays_append)
qed

text \<open>A pause and an element whose item is worth some actions.\<close>

lemma worth_element:
  assumes "number_reads_back q" and "script_values ev" and "is_int elapsed" and "recorded_item q (XElement name atts []) = Some i"
    and "plays q ops x11 (script_signals q ev position_at i) acts"
  shows "worth q ops x11 ev position_at [msec_element q elapsed, XElement name atts []] (StartTimer elapsed # acts)"
proof -
  let ?nodes = "[msec_element q elapsed, XElement name atts []]"
  have "List.map_filter (recorded_item q) ?nodes = [method_item ''msleep'' (VInt elapsed), i]"
    using assms(4) msec_item [OF assms(1,3)] by (simp add: map_filter_def del: recorded_item.simps)
  moreover have "script_signals q ev position_at (method_item ''msleep'' (VInt elapsed)) = [SleepRequested elapsed]"
    using assms(2) by (simp add: script_signals_def scriptMsleep_def v_toInt_def)
  moreover have "plays q ops x11 ([SleepRequested elapsed] @ script_signals q ev position_at i) ([StartTimer elapsed] @ acts)"
    using plays_append [OF plays_sleep [OF assms(1,3)] assms(5)] .
  moreover have "list_all (flat_event q) ?nodes" by (simp add: msec_element_def)
  ultimately show ?thesis by (simp add: worth_def)
qed

definition step_replays ::
    "qt \<Rightarrow> 'app app_ops \<Rightarrow> bool \<Rightarrow> (qvariant \<Rightarrow> qvariant) \<Rightarrow> (int \<Rightarrow> int \<Rightarrow> int \<Rightarrow> int \<Rightarrow> int) \<Rightarrow> app_view \<Rightarrow>
     user_step \<Rightarrow> xml_node list \<Rightarrow> bool" where
  "step_replays q ops x11 ev position_at v step nodes \<longleftrightarrow>
     step_pieces q v step = Some (map Elem nodes) \<and> worth q ops x11 ev position_at nodes (step_actions q v step)"

lemma output_pieces:
  assumes "\<And>K. log_event q v elapsed receiver event K =
      outputEvent q v elapsed (Some w) name atts original (press_prepares event receiver K)"
    and "objectPath q (view_tree v) w = Some path" and "objectPath q (view_tree v) receiver = Some path'"
    and "original = None \<or> original = Some receiver"
  shows "\<exists>more cls. event_pieces q v elapsed receiver event = Some (map Elem [msec_element q elapsed,
      XElement name (atts @ [(''target'', path), (''targetClass'', cls)] @ more) []]) \<and> (original = None \<longrightarrow> more = [])"
proof -
  let ?base = "new_Logger\<lparr>l_device := []\<rparr>"
  have base: "buffer_ok (press_prepares event receiver ?base)" "recorded (press_prepares event receiver ?base) = []"
    using press_prepares_ok [where L = ?base and event = event and receiver = receiver]
    by (auto simp: buffer_ok_def recorded_def new_Logger_def)
  show ?thesis
    using assms(2-4) by (auto simp: event_pieces_def assms(1) outputEvent_def recorded_write [OF base(1)] base(2) Let_def)
qed

lemma event_step:
  assumes "number_reads_back q" and "script_values ev" and "is_int elapsed"
    and "step_pieces q v (elapsed, receiver, event) = Some (map Elem [msec_element q elapsed, XElement name atts []])"
    and "replayed_action q v receiver event = Some a"
    and "recorded_item q (XElement name atts []) = Some i" and "posts q ops x11 ev position_at i b"
    and "\<And>P. process_event q ops (new_event b) P = Inr (Break, act ops a P)"
  shows "\<exists>nodes. step_replays q ops x11 ev position_at v (elapsed, receiver, event) nodes"
proof -
  have "plays q ops x11 (script_signals q ev position_at i) [a]"
    using plays_posted [OF assms(7,8)] posts_signal [OF assms(7)] by simp
  from worth_element [OF assms(1-3,6) this] assms(4,5) show ?thesis
    by (intro exI [of _ "[msec_element q elapsed, XElement name atts []]"]) (simp add: step_replays_def step_actions_def)
qed

text \<open>What the player does with the event, when the application shows the objects that were recorded.\<close>

lemma performs_post:
  assumes "\<And>a. app_tree ops a = t" and "findObject q t path = Some x"
  shows "process_event q ops (new_event (ObjectEvent path e)) P = Inr (Break, act ops (PostEvent x e) P)"
  using assms by (simp add: process_event_def player_find_def)

lemma performs_widget:
  assumes "\<And>a. app_tree ops a = t" and "findObject q t path = Some x" and "obj_isWidget (tree_object t x)"
  shows "process_event q ops (new_event (CloseEvent path)) P = Inr (Break, act ops (CloseWidget x) P)"
    and "process_event q ops (new_event (FocusEvent path reason)) P = Inr (Break, act ops (SetFocus x reason) P)"
  using assms by (simp_all add: process_event_def player_widget_def player_find_def)

lemma element_item:
  assumes "\<And>ts. parseElement q name atts ts = Some (f ts)" and "\<And>ts. posts q ops x11 ev position_at (fst (f ts)) b"
  shows "\<exists>i. recorded_item q (XElement name atts []) = Some i \<and> posts q ops x11 ev position_at i b"
  using assms by simp

text \<open>An element that the logger writes, its reader and the event that is posted for it.\<close>

lemma logged_element:
  assumes "\<And>K. log_event q v elapsed receiver event K =
      outputEvent q v elapsed (Some receiver) name atts None (press_prepares event receiver K)"
    and "\<And>as ts. parseElement q name as ts = Some (f as ts)"
    and "\<And>cls ts. posts q ops x11 ev position_at (fst (f (atts @ [(''target'', path), (''targetClass'', cls)]) ts)) b"
  shows "\<exists>name atts. (\<forall>K. log_event q v elapsed receiver event K =
      outputEvent q v elapsed (Some receiver) name atts None (press_prepares event receiver K)) \<and>
    (\<forall>cls. \<exists>i. recorded_item q (XElement name (atts @ [(''target'', path), (''targetClass'', cls)]) []) = Some i \<and>
      posts q ops x11 ev position_at i b)"
  using assms(1) element_item [OF assms(2,3)] by blast

lemmas output_defs = log_event_def press_prepares_def parseElement_def mouse_element_def key_element_def Let_def

lemma seen_element:
  assumes "number_reads_back q" and "qt_toInt q [] = 0" and "\<And>n. qt_number q n \<noteq> ''vertical''" and "script_values ev"
    and "event_in_range e"
  shows "\<exists>name atts. (\<forall>K. log_event q v elapsed receiver (Seen e) K =
      outputEvent q v elapsed (Some receiver) name atts None (press_prepares (Seen e) receiver K)) \<and>
    (\<forall>cls. \<exists>i. recorded_item q (XElement name (atts @ [(''target'', path), (''targetClass'', cls)]) []) = Some i \<and>
      posts q ops x11 ev position_at i (ObjectEvent path (arriving_event q e)))"
proof (cases e)
  case (QMouseEvent type pos g b bs m)
  show ?thesis
    unfolding QMouseEvent arriving_event.simps
    by (rule logged_element [where f = "parseMouseEvent q (mouse_element type)" and name = "mouse_element type", OF _ _ mouse_posts [OF assms(1,4)]]; insert assms(5) QMouseEvent; cases type; simp add: output_defs)
next
  case (QKeyEvent type key m s rep count)
  show ?thesis
    unfolding QKeyEvent arriving_event.simps
    by (rule logged_element [where f = "parseKeyEvent q (key_element type)" and name = "key_element type", OF _ _ key_posts [OF assms(1,4)]]; insert assms(5) QKeyEvent; cases type; simp add: output_defs)
next
  case (QContextMenuEvent reason pos gpos m)
  show ?thesis
    unfolding QContextMenuEvent arriving_event.simps
    by (rule logged_element [where f = "parseContextMenuEvent q" and name = "''contextMenu''", OF _ _ context_menu_posts [OF assms(1,4,2)]]; insert assms(5) QContextMenuEvent; simp add: output_defs)
next
  case (QShortcutEvent keys n ambiguous)
  show ?thesis
    unfolding QShortcutEvent arriving_event.simps
    by (rule logged_element [where f = "parseShortcutEvent q" and name = "''shortcut''", OF _ _ shortcut_posts [OF assms(1,4)]]; insert assms(5) QShortcutEvent; simp add: output_defs)
next
  case (QWheelEvent pos delta bs m orient)
  show ?thesis
    unfolding QWheelEvent arriving_event.simps
    by (rule logged_element [where f = "parseWheelEvent q" and name = "''mouseWheel''", OF _ _ wheel_posts [OF assms(1,4)]]; insert assms(3,5) QWheelEvent; simp add: output_defs)
qed

lemma seen_step:
  assumes "number_reads_back q" and "qt_toInt q [] = 0" and "\<And>n. qt_number q n \<noteq> ''vertical''" and "script_values ev"
    and "\<And>a. app_tree ops a = view_tree v" and "is_int elapsed"
    and "objectPath q (view_tree v) receiver = Some path" and "findObject q (view_tree v) path = Some receiver"
    and "event_in_range e"
  shows "\<exists>nodes. step_replays q ops x11 ev position_at v (elapsed, receiver, Seen e) nodes"
proof -
  obtain name atts where log: "\<And>K. log_event q v elapsed receiver (Seen e) K =
      outputEvent q v elapsed (Some receiver) name atts None (press_prepares (Seen e) receiver K)"
    and item: "\<And>cls. \<exists>i. recorded_item q (XElement name (atts @ [(''target'', path), (''targetClass'', cls)]) []) = Some i \<and>
      posts q ops x11 ev position_at i (ObjectEvent path (arriving_event q e))"
    using seen_element [OF assms(1-4,9)] by meson
  obtain cls where pieces: "event_pieces q v elapsed receiver (Seen e) = Some (map Elem [msec_element q elapsed,
      XElement name (atts @ [(''target'', path), (''targetClass'', cls)]) []])"
    using output_pieces [OF log assms(7,7)] by auto
  from item [of cls] obtain i where
      "recorded_item q (XElement name (atts @ [(''target'', path), (''targetClass'', cls)]) []) = Some i"
      "posts q ops x11 ev position_at i (ObjectEvent path (arriving_event q e))" by blast
  from event_step [OF assms(1,4,6) _ _ this performs_post [OF assms(5,8)]] pieces show ?thesis
    by (simp add: step_pieces_def replayed_action_def del: recorded_item.simps)
qed

lemma close_step:
  assumes "number_reads_back q" and "script_values ev" and "\<And>a. app_tree ops a = view_tree v" and "is_int elapsed"
    and "objectPath q (view_tree v) receiver = Some path" and "findObject q (view_tree v) path = Some receiver"
    and "obj_isWidget (tree_object (view_tree v) receiver)"
  shows "\<exists>nodes. step_replays q ops x11 ev position_at v (elapsed, receiver, CloseSeen) nodes"
proof -
  have "log_event q v elapsed receiver CloseSeen K =
      outputEvent q v elapsed (Some receiver) ''windowClosed'' [] None (press_prepares CloseSeen receiver K)" for K
    by (simp add: log_event_def press_prepares_def Let_def)
  from output_pieces [OF this assms(5,5)] obtain cls where
      pieces: "event_pieces q v elapsed receiver CloseSeen = Some (map Elem [msec_element q elapsed,
        XElement ''windowClosed'' [(''target'', path), (''targetClass'', cls)] []])" by auto
  have "parseElement q ''windowClosed'' as ts = Some (parseCloseEvent q as ts)" for as ts
    by (simp add: parseElement_def)
  from element_item [OF this close_posts [OF assms(2)]] obtain i where
      i: "recorded_item q (XElement ''windowClosed'' [(''target'', path), (''targetClass'', cls)] []) = Some i"
        "posts q ops x11 ev position_at i (CloseEvent path)" by blast
  from event_step [OF assms(1,2,4) _ _ i performs_widget(1) [OF assms(3,6,7)]] pieces show ?thesis
    by (simp add: step_pieces_def replayed_action_def del: recorded_item.simps)
qed

lemma focus_step:
  assumes "number_reads_back q" and "script_values ev" and "\<And>a. app_tree ops a = view_tree v" and "is_int elapsed"
    and "is_int reason" and "focusObject v receiver = Some w"
    and "objectPath q (view_tree v) w = Some path" and "findObject q (view_tree v) path = Some w"
    and "obj_isWidget (tree_object (view_tree v) w)" and "objectPath q (view_tree v) receiver = Some path'"
  shows "\<exists>nodes. step_replays q ops x11 ev position_at v (elapsed, receiver, FocusIn reason) nodes"
proof -
  have "log_event q v elapsed receiver (FocusIn reason) K = outputEvent q v elapsed (Some w) ''focusChanged''
      (focusEventAttributes q reason) (Some receiver) (press_prepares (FocusIn reason) receiver K)" for K
    using assms(6) by (simp add: log_event_def press_prepares_def Let_def)
  from output_pieces [OF this assms(7,10)] obtain cls more where
      pieces: "event_pieces q v elapsed receiver (FocusIn reason) = Some (map Elem [msec_element q elapsed,
        XElement ''focusChanged'' (focusEventAttributes q reason @ [(''target'', path), (''targetClass'', cls)] @ more) []])"
    by blast
  have "parseElement q ''focusChanged'' as ts = Some (parseFocusEvent q as ts)" for as ts
    by (simp add: parseElement_def)
  from element_item [OF this focus_posts [OF assms(1,2,5)]] obtain i where
      i: "recorded_item q (XElement ''focusChanged''
          (focusEventAttributes q reason @ [(''target'', path), (''targetClass'', cls)] @ more) []) = Some i"
        "posts q ops x11 ev position_at i (FocusEvent path reason)" by blast
  from event_step [OF assms(1,2,4) _ _ i performs_widget(2) [OF assms(3,8,9)]] pieces assms(6) show ?thesis
    by (simp add: step_pieces_def replayed_action_def del: recorded_item.simps)
qed

text \<open>An event that is not recorded is worth nothing in playback either.\<close>

lemma silent_step:
  assumes "\<And>K. log_event q v elapsed receiver event K = Some K" and "replayed_action q v receiver event = None"
  shows "step_replays q ops x11 ev position_at v (elapsed, receiver, event) []"
  using assms by (simp add: step_replays_def step_pieces_def event_pieces_def step_actions_def recorded_def new_Logger_def)

lemma replayable_step:
  assumes "number_reads_back q" and "qt_toInt q [] = 0" and "\<And>n. qt_number q n \<noteq> ''vertical''" and "script_values ev"
    and "\<And>a. app_tree ops a = view_tree v" and "replayable q v (elapsed, receiver, event)"
  shows "\<exists>nodes. step_replays q ops x11 ev position_at v (elapsed, receiver, event) nodes"
proof -
  have step: "is_int elapsed" "\<not> is_drop event" using assms(6) by (simp_all add: replayable_def)
  obtain path where path: "objectPath q (view_tree v) receiver = Some path"
      "findObject q (view_tree v) path = Some receiver"
    using assms(6) by (auto simp: replayable_def addressable_def split: option.splits)
  show ?thesis
  proof (cases event)
    case (Seen e)
    with assms(6) have "event_in_range e" by (simp add: replayable_def)
    from seen_step [OF assms(1-5) step(1) path this] show ?thesis by (simp add: Seen)
  next
    case CloseSeen
    with assms(6) have "obj_isWidget (tree_object (view_tree v) receiver)" by (simp add: replayable_def)
    from close_step [OF assms(1,4,5) step(1) path this] show ?thesis by (simp add: CloseSeen)
  next
    case (FocusIn reason)
    show ?thesis
    proof (cases "focusObject v receiver")
      case None
      have "log_event q v elapsed receiver event K = Some K" for K
        using None by (simp add: FocusIn log_event_def outputEvent_def Let_def)
      then show ?thesis using None
        by (intro exI [of _ "[]"] silent_step) (simp_all add: FocusIn replayed_action_def)
    next
      case (Some w)
      with assms(6) FocusIn obtain path' where w: "is_int reason" "objectPath q (view_tree v) w = Some path'"
          "findObject q (view_tree v) path' = Some w" "obj_isWidget (tree_object (view_tree v) w)"
        by (auto simp: replayable_def addressable_def split: option.splits)
      from focus_step [OF assms(1,4,5) step(1) w(1) Some w(2-4) path(1)] show ?thesis by (simp add: FocusIn)
    qed
  next
    case (Drop pos)
    with step(2) show ?thesis by (simp add: is_drop_def)
  next
    case Canary
    have "log_event q v elapsed receiver event K = Some K" for K by (simp add: Canary log_event_def)
    then show ?thesis by (intro exI [of _ "[]"] silent_step) (simp_all add: Canary replayed_action_def)
  next
    case (OtherEvent n)
    have "log_event q v elapsed receiver event K = Some K" for K by (simp add: OtherEvent log_event_def)
    then show ?thesis by (intro exI [of _ "[]"] silent_step) (simp_all add: OtherEvent replayed_action_def)
  qed
qed

section \<open>One input\<close>

text \<open>
  An input is recorded, and what was recorded of it is worth its actions. \<open>held\<close>: a button is held
  before it.
\<close>

definition input_replays ::
    "qt \<Rightarrow> 'app app_ops \<Rightarrow> bool \<Rightarrow> (qvariant \<Rightarrow> qvariant) \<Rightarrow> (int \<Rightarrow> int \<Rightarrow> int \<Rightarrow> int \<Rightarrow> int) \<Rightarrow> app_view \<Rightarrow>
     (objid \<Rightarrow> point \<Rightarrow> point) \<Rightarrow> bool \<Rightarrow> user_input \<Rightarrow> logger \<Rightarrow> piece list \<Rightarrow> bool" where
  "input_replays q ops x11 ev position_at v geometry held x L ps \<longleftrightarrow>
     (\<exists>L' nodes. record_steps q v (input_steps x) L = Some L' \<and> log_session q L' (ps @ map Elem nodes) \<and>
        (buffering L' \<longrightarrow> held_after held x) \<and> worth q ops x11 ev position_at nodes (input_actions q v ops x11 geometry x))"

lemma plain_replays:
  assumes "number_reads_back q" and "qt_toInt q [] = 0" and "\<And>n. qt_number q n \<noteq> ''vertical''" and "script_values ev"
    and "\<And>a. app_tree ops a = view_tree v" and "valid_input q v (Plain step)"
    and "log_session q L ps" and "buffering L \<Longrightarrow> held" and "paired held [Plain step]"
  shows "input_replays q ops x11 ev position_at v geometry held (Plain step) L ps"
proof -
  obtain elapsed receiver event where step: "step = (elapsed, receiver, event)" by (cases step) auto
  have replayable: "replayable q v (elapsed, receiver, event)" using assms(6) by (simp add: step)
  obtain nodes where nodes: "step_replays q ops x11 ev position_at v (elapsed, receiver, event) nodes"
    using replayable_step [OF assms(1-5) replayable] by blast
  then have pieces: "event_pieces q v elapsed receiver event = Some (map Elem nodes)"
    by (simp add: step_replays_def step_pieces_def)
  have "\<not> is_drop event" using replayable by (simp add: replayable_def)
  from plain_logged [OF assms(7,8) assms(9) [unfolded step] pieces this] nodes show ?thesis
    unfolding input_replays_def step by (auto simp: step_replays_def)
qed

lemma drag_replays:
  assumes "number_reads_back q" and "script_values ev"
    and "\<And>a. app_tree ops a = view_tree v" and "\<And>a. app_mapToGlobal ops a = geometry"
    and "valid_input q v (DragDrop press moves release (elapsed, target, pos))"
    and "log_session q L ps" and "\<not> buffering L"
  shows "input_replays q ops x11 ev position_at v geometry held (DragDrop press moves release (elapsed, target, pos)) L ps"
proof -
  obtain source sp where origin: "drag_origin press = Some (source, sp)" and sp: "is_int (fst sp)" "is_int (snd sp)"
      and source: "shown_widget q v source"
    using assms(5) by (auto split: option.splits prod.splits)
  have target: "shown_widget q v target" "is_int (fst pos)" "is_int (snd pos)" and elapsed: "is_int elapsed"
    using assms(5) by simp_all
  obtain sourcePath where S: "objectPath q (view_tree v) source = Some sourcePath"
      "findObject q (view_tree v) sourcePath = Some source" "obj_isWidget (tree_object (view_tree v) source)"
    using source by (auto simp: shown_widget_def addressable_def split: option.splits)
  obtain targetPath where T: "objectPath q (view_tree v) target = Some targetPath"
      "findObject q (view_tree v) targetPath = Some target" "obj_isWidget (tree_object (view_tree v) target)"
    using target(1) by (auto simp: shown_widget_def addressable_def split: option.splits)
  let ?drag = "drag_element q sourcePath sp targetPath pos"
  have held: "step_pieces q v press \<noteq> None" "list_all (held_step q v) moves" "is_release (Some (snd (snd release)))"
      "step_pieces q v release \<noteq> None"
    using assms(5) by simp_all
  from drag_logged [where elapsed = elapsed and pos = pos, OF assms(6,7) origin held S(1) T(1)] obtain L' where
      L': "record_steps q v (input_steps (DragDrop press moves release (elapsed, target, pos))) L = Some L'"
        "log_session q L' (ps @ map Elem [msec_element q elapsed, ?drag])" "\<not> buffering L'"
    by auto
  obtain i where i: "recorded_item q ?drag = Some i"
      "script_signals q ev position_at i = [DragAndDropSignal sourcePath sp targetPath pos]"
    using drag_item [OF assms(1,2) sp target(2,3)] by blast
  have "performs q ops x11 (signal_element q (DragAndDropSignal sourcePath sp targetPath pos))
      (drag_actions ops x11 source sp target pos (geometry target pos))"
    by (rule player_drags [OF assms(1,3,4) S(2,3) T(2,3) sp target(2,3)])
  from plays_command [OF this] have "plays q ops x11 (script_signals q ev position_at i)
      (drag_actions ops x11 source sp target pos (geometry target pos))"
    by (simp add: i(2) is_property_def)
  from worth_element [OF assms(1,2) elapsed i(1) [unfolded drag_element_def] this] L' show ?thesis
    unfolding input_replays_def
    by (intro exI [of _ L'] exI [of _ "[msec_element q elapsed, ?drag]"]) (simp add: origin drag_element_def)
qed

lemma input_replayed:
  assumes "number_reads_back q" and "qt_toInt q [] = 0" and "\<And>n. qt_number q n \<noteq> ''vertical''" and "script_values ev"
    and "\<And>a. app_tree ops a = view_tree v" and "\<And>a. app_mapToGlobal ops a = geometry" and "valid_input q v x"
    and "log_session q L ps" and "buffering L \<Longrightarrow> held" and "\<not> (held \<and> presses x)"
  shows "input_replays q ops x11 ev position_at v geometry held x L ps"
proof (cases x)
  case (Plain step)
  then show ?thesis using plain_replays [OF assms(1-5) _ assms(8,9)] assms(7,10) by (cases step) auto
next
  case (DragDrop press moves release dropped)
  obtain elapsed target pos where dropped: "dropped = (elapsed, target, pos)" by (cases dropped) auto
  have "\<not> buffering L" using assms(9,10) DragDrop by auto
  with drag_replays [OF assms(1,4,5,6) assms(7) [unfolded DragDrop dropped] assms(8)] show ?thesis
    by (simp add: DragDrop dropped)
qed

section \<open>The whole session\<close>

definition record_inputs :: "qt \<Rightarrow> app_view \<Rightarrow> user_input list \<Rightarrow> logger option" where
  "record_inputs q v inputs = record_steps q v (concat (map input_steps inputs)) new_Logger"

lemma inputs_replayed:
  assumes "number_reads_back q" and "qt_toInt q [] = 0" and "\<And>n. qt_number q n \<noteq> ''vertical''" and "script_values ev"
    and "\<And>a. app_tree ops a = view_tree v" and "\<And>a. app_mapToGlobal ops a = geometry"
    and "list_all (valid_input q v) inputs" and "log_session q L ps" and "buffering L \<Longrightarrow> held" and "paired held inputs"
  shows "\<exists>L' nodes. record_steps q v (concat (map input_steps inputs)) L = Some L' \<and>
    log_session q L' (ps @ map Elem nodes) \<and>
    worth q ops x11 ev position_at nodes (concat (map (input_actions q v ops x11 geometry) inputs))"
  using assms(7-10)
proof (induction inputs arbitrary: L ps held)
  case Nil
  then show ?case by (intro exI [of _ L] exI [of _ "[]"]) simp
next
  case (Cons x inputs)
  have "valid_input q v x" "\<not> (held \<and> presses x)" using Cons.prems(1,4) by simp_all
  from input_replayed [OF assms(1-6) this(1) Cons.prems(2,3) this(2)] obtain L1 nodes1 where
      L1: "record_steps q v (input_steps x) L = Some L1" "log_session q L1 (ps @ map Elem nodes1)"
        "buffering L1 \<Longrightarrow> held_after held x" "worth q ops x11 ev position_at nodes1 (input_actions q v ops x11 geometry x)"
    unfolding input_replays_def by blast
  from Cons.IH [OF _ L1(2,3)] Cons.prems(1,4) obtain L' nodes where
      L': "record_steps q v (concat (map input_steps inputs)) L1 = Some L'"
        "log_session q L' ((ps @ map Elem nodes1) @ map Elem nodes)"
        "worth q ops x11 ev position_at nodes (concat (map (input_actions q v ops x11 geometry) inputs))"
    by auto
  with L1 worth_append [OF L1(4) L'(3)] show ?case
    by (intro exI [of _ L'] exI [of _ "nodes1 @ nodes"]) (simp add: record_steps_append)
qed

definition start_system :: "interpreter \<Rightarrow> bool \<Rightarrow> 'app \<Rightarrow> 'app system" where
  "start_system I unset a =
     \<lparr>sys_i = setSocket I, sys_p = new_Player unset a, sys_delivered = 0, sys_read = 0\<rparr>"

lemma started_at_rest:
  assumes "i_written (I :: interpreter) = []" and "i_wait I = NoWait"
  shows "loop q ops x11 (start_system I unset a)" and "at_rest (start_system I unset a)"
    and "p_app (sys_p (start_system I unset a)) = a" and "sent (sys_i (start_system I unset a)) = []"
proof -
  show "loop q ops x11 (start_system I unset a)"
    using assms unfolding start_system_def by (intro loop_start) simp_all
  show "at_rest (start_system I unset a)" "sent (sys_i (start_system I unset a)) = []"
    using assms sent_setSocket [of I]
    by (simp_all add: start_system_def at_rest_def ready_def player_rest_def setSocket_def put_def new_Player_def i_ack_def)
  show "p_app (sys_p (start_system I unset a)) = a" by (simp add: start_system_def new_Player_def)
qed


text \<open>An application that keeps a list of what was done to it.\<close>

definition listing_ops :: "app_action list app_ops" where
  "listing_ops = \<lparr>app_tree = (\<lambda>a. sample_tree), app_perform = (\<lambda>act a. a @ [act]),
     app_mapToGlobal = (\<lambda>a w p. p), app_focusProxy = (\<lambda>a w. None),
     app_startDragTime = 500, app_startDragDistance = 4\<rparr>"

text \<open>A click, a drag from one button to the other, and the window is closed.\<close>

definition sample_inputs :: "user_input list" where
  "sample_inputs =
     [Plain (7, 0, Seen (QMouseEvent MouseButtonPress (3, 4) None 1 1 0)),
      Plain (5, 0, Seen (QMouseEvent MouseButtonRelease (3, 4) None 1 0 0)),
      DragDrop (2, 1, Seen (QMouseEvent MouseButtonPress (1, 1) None 1 1 0))
        [(6, 1, Seen (QMouseEvent MouseMove (1, 9) None 0 1 0))]
        (3, 2, Seen (QMouseEvent MouseButtonRelease (5, 5) None 1 0 0)) (4, 2, (5, 5)),
      Plain (9, 0, CloseSeen)]"


end
