(* ===== verification/Test_Files.thy ===== *)
theory Test_Files
  imports Script_Items Qt_Decimal
begin

text \<open>
  Where the tests are kept: the paths of \<open>hooq/Locations.cpp\<close> and the list of the tests of a test
  set in \<open>hooq/TestModel.cpp\<close>, over an explicit file system. Text codecs, \<open>QDir::cleanPath\<close> and
  the location of application data come from Qt and the platform; they are the record
  \<open>platform\<close>.
\<close>

section \<open>The file system\<close>

type_synonym bytes = "8 word list"

text \<open>
  \<open>d_files\<close>: the contents of the files by path; \<open>d_dirs\<close>: the directories; \<open>d_locked\<close>: paths that
  cannot be opened.
\<close>

record disk =
  d_files :: "bytes qmap"
  d_dirs :: "qtext list"
  d_locked :: "qtext list"

abbreviation slash :: char where "slash \<equiv> CHR ''/''"

definition file_exists :: "disk \<Rightarrow> qtext \<Rightarrow> bool" where
  "file_exists d p \<longleftrightarrow> qm_contains (d_files d) p \<or> p \<in> set (d_dirs d)"

definition read_file :: "disk \<Rightarrow> qtext \<Rightarrow> bytes option" where
  "read_file d p = (if p \<in> set (d_locked d) then None else map_of (d_files d) p)"

text \<open>The directory of a file: the path up to the last slash, \<open>.\<close> when there is none.\<close>

definition file_dir :: "qtext \<Rightarrow> qtext" where
  "file_dir p = (if slash \<in> set p then rev (tl (dropWhile (\<lambda>c. c \<noteq> slash) (rev p))) else ''.'')"

definition can_write :: "disk \<Rightarrow> qtext \<Rightarrow> bool" where
  "can_write d p \<longleftrightarrow> p \<noteq> [] \<and> p \<notin> set (d_locked d) \<and> p \<notin> set (d_dirs d) \<and> file_dir p \<in> set (d_dirs d)"

definition write_file :: "qtext \<Rightarrow> bytes \<Rightarrow> disk \<Rightarrow> disk" where
  "write_file p b d = d\<lparr>d_files := qm_insert p b (d_files d)\<rparr>"

text \<open>\<open>mkpath\<close>: the directory and all above it, the path without a slash at its end.\<close>

definition strip_slash :: "qtext \<Rightarrow> qtext" where
  "strip_slash p = (if p \<noteq> [] \<and> last p = slash then butlast p else p)"

definition mkpath :: "qtext \<Rightarrow> disk \<Rightarrow> disk" where
  "mkpath p d =
     (let parts = qsplit [slash] (strip_slash p)
      in d\<lparr>d_dirs := d_dirs d @ map (\<lambda>k. qjoin [slash] (take k parts)) [1..<Suc (length parts)]\<rparr>)"

text \<open>
  \<open>QDir(dir).entryList(QDir::Files)\<close>, \<open>dir\<close> with a slash at its end: the names of the files in the
  directory, without hidden ones.
\<close>

definition entryList :: "disk \<Rightarrow> qtext \<Rightarrow> qtext list" where
  "entryList d dir = filter (\<lambda>n. slash \<notin> set n \<and> n \<noteq> [] \<and> hd n \<noteq> CHR ''.'')
     (map (\<lambda>p. drop (length dir) p) (filter (prefix dir) (map fst (d_files d))))"

lemma map_of_files_write: "map_of (d_files (write_file p b d)) = (map_of (d_files d))(p \<mapsto> b)"
  by (simp add: write_file_def qvmap.lookup_insert)

lemma write_file_frame [simp]:
  "d_dirs (write_file p b d) = d_dirs d" "d_locked (write_file p b d) = d_locked d"
  by (simp_all add: write_file_def)

lemma read_write: "read_file (write_file p b d) x =
    (if x = p \<and> p \<notin> set (d_locked d) then Some b else read_file d x)"
  by (simp add: read_file_def map_of_files_write)

section \<open>The contract of the file system\<close>

text \<open>
  What the components that store scripts rely on: a file that can be written reads back what was
  written, other files stay, and writing a file does not change which files can be written.
\<close>

locale file_store =
  fixes fetch :: "'s \<Rightarrow> 'p \<Rightarrow> 'b option"
    and put :: "'p \<Rightarrow> 'b \<Rightarrow> 's \<Rightarrow> 's"
    and writable :: "'s \<Rightarrow> 'p \<Rightarrow> bool"
  assumes fetch_put: "writable s p \<Longrightarrow> fetch (put p b s) p = Some b"
    and fetch_other: "x \<noteq> p \<Longrightarrow> fetch (put p b s) x = fetch s x"
    and writable_put: "writable (put p b s) x = writable s x"
begin

lemma fetch_put_other: "x \<notin> fst ` set ps \<Longrightarrow> fetch (fold (\<lambda>(p, b). put p b) ps s) x = fetch s x"
proof (induction ps arbitrary: s)
  case (Cons a ps)
  then show ?case by (cases a) (simp add: fetch_other)
qed simp

lemma fetch_put_all:
  "distinct (map fst ps) \<Longrightarrow> (p, b) \<in> set ps \<Longrightarrow> writable s p \<Longrightarrow>
    fetch (fold (\<lambda>(p, b). put p b) ps s) p = Some b"
proof (induction ps arbitrary: s)
  case (Cons a ps)
  obtain x c where a: "a = (x, c)" by fastforce
  show ?case
  proof (cases "x = p")
    case True
    with Cons.prems a have "c = b" "p \<notin> fst ` set ps" by (auto intro: rev_image_eqI)
    with Cons.prems(3) a True show ?thesis by (simp add: fetch_put_other fetch_put)
  next
    case False
    with Cons.prems Cons.IH [of "put x c s"] a show ?thesis by (simp add: writable_put)
  qed
qed simp

end

interpretation files: file_store read_file write_file can_write
  by unfold_locales (simp_all add: read_write can_write_def)

lemma mkpath_frame [simp]: "d_files (mkpath p d) = d_files d" "d_locked (mkpath p d) = d_locked d"
  by (simp_all add: mkpath_def Let_def)

lemma read_mkpath [simp]: "read_file (mkpath p d) x = read_file d x"
  by (simp add: read_file_def)

lemma in_entryList:
  "n \<in> set (entryList d dir) \<longleftrightarrow>
     dir @ n \<in> set (map fst (d_files d)) \<and> slash \<notin> set n \<and> n \<noteq> [] \<and> hd n \<noteq> CHR ''.''"
proof -
  let ?K = "set (map fst (d_files d))"
  have "n \<in> drop (length dir) ` {p \<in> ?K. prefix dir p} \<longleftrightarrow> dir @ n \<in> ?K"
  proof
    assume "dir @ n \<in> ?K"
    then have "dir @ n \<in> {p \<in> ?K. prefix dir p}" by simp
    then have "drop (length dir) (dir @ n) \<in> drop (length dir) ` {p \<in> ?K. prefix dir p}" by (rule imageI)
    then show "n \<in> drop (length dir) ` {p \<in> ?K. prefix dir p}" by simp
  qed (auto simp: prefix_def intro: rev_image_eqI)
  then show ?thesis by (simp add: entryList_def del: set_map) (simp add: conj_commute)
qed

lemma distinct_entryList: "qm_ok (d_files d) \<Longrightarrow> distinct (entryList d dir)"
proof -
  assume "qm_ok (d_files d)"
  then have "distinct (map fst (d_files d))" by (simp add: qm_ok_def strict_sorted_iff)
  moreover have "inj_on (\<lambda>p. drop (length dir) p) (Set.filter (prefix dir) (set (map fst (d_files d))))"
    by (auto simp: inj_on_def prefix_def)
  ultimately show ?thesis
    unfolding entryList_def by (auto simp: distinct_map intro: inj_on_subset)
qed

lemma file_dir_append: "slash \<notin> set n \<Longrightarrow> file_dir (dir @ slash # n) = dir"
proof -
  assume "slash \<notin> set n"
  then have "dropWhile (\<lambda>c. c \<noteq> slash) (rev n) = []" by (auto simp: dropWhile_eq_Nil_conv)
  then show ?thesis by (simp add: file_dir_def dropWhile_append)
qed

section \<open>Locations\<close>

record platform =
  cleanPath :: "qtext \<Rightarrow> qtext"
  storageLocation :: qtext
  toUtf8 :: "qtext \<Rightarrow> bytes"
  fromUtf8 :: "bytes \<Rightarrow> qtext"
  toHex :: "bytes \<Rightarrow> qtext"
  fromHex :: "qtext \<Rightarrow> bytes"

definition testSetsLocation :: "platform \<Rightarrow> qtext" where
  "testSetsLocation w = cleanPath w (storageLocation w @ ''/tests'')"

definition testSetLocation :: "platform \<Rightarrow> qtext \<Rightarrow> qtext" where
  "testSetLocation w testSet =
     (if testSet = [] then [] else cleanPath w (testSetsLocation w @ qarg ''/%1/'' testSet))"

definition scriptPath :: "platform \<Rightarrow> disk \<Rightarrow> qtext \<Rightarrow> qtext \<Rightarrow> qtext" where
  "scriptPath w d testSet testName =
     (let qs = cleanPath w (qarg (qarg ''%1/%2.qs'' (testSetLocation w testSet)) testName)
      in if file_exists d qs then qs
         else cleanPath w (qarg (qarg ''%1/%2.hs'' (testSetLocation w testSet)) (toHex w (toUtf8 w testName))))"

text \<open>
  The settings: a key is the path of the groups and the name of the value, with \<open>QSettings\<close>
  joining groups by slashes.
\<close>

type_synonym settings = "qtext qmap"

definition application_key :: "qtext \<Rightarrow> qtext" where
  "application_key testSet = ''Test Sets/'' @ testSet @ ''/application''"

definition applicationPath :: "settings \<Rightarrow> qtext \<Rightarrow> qstring" where
  "applicationPath s testSet = map_of s (application_key testSet)"

definition setApplicationPath :: "qtext \<Rightarrow> qtext \<Rightarrow> settings \<Rightarrow> settings" where
  "setApplicationPath testSet application s =
     (if testSet = [] then s else qm_insert (application_key testSet) application s)"

section \<open>TestModel\<close>

record test_model =
  tm_items :: "qtext list"
  tm_testSet :: qtext
  tm_watched :: "qtext list"

definition new_TestModel :: test_model where
  "new_TestModel = \<lparr>tm_items = [], tm_testSet = [], tm_watched = []\<rparr>"

definition lower_suffix :: "qtext \<Rightarrow> qtext \<Rightarrow> bool" where
  "lower_suffix e n \<longleftrightarrow> suffix e (map ascii_lower n)"

text \<open>The name filters of \<open>entryList\<close> do not distinguish upper and lower case.\<close>

definition test_entries :: "disk \<Rightarrow> qtext \<Rightarrow> qtext list" where
  "test_entries d dir = filter (\<lambda>n. lower_suffix ''.qs'' n \<or> lower_suffix ''.hs'' n) (entryList d (dir @ [slash]))"

definition chop :: "nat \<Rightarrow> qtext \<Rightarrow> qtext" where
  "chop k s = take (length s - k) s"

definition test_item :: "platform \<Rightarrow> qtext \<Rightarrow> qtext list" where
  "test_item w item =
     (if suffix ''.qs'' item then [chop 3 item]
      else if suffix ''.hs'' item then [fromUtf8 w (fromHex w (chop 3 item))]
      else [])"

definition setTestSet :: "platform \<Rightarrow> qtext \<Rightarrow> disk \<Rightarrow> test_model \<Rightarrow> test_model \<times> disk" where
  "setTestSet w testSet d M =
     (let M1 = M\<lparr>tm_testSet := testSet\<rparr> in
      if testSet = [] then (M1, d)
      else
        let dir = testSetLocation w testSet;
            d1 = (if dir \<in> set (d_dirs d) then d else mkpath dir d);
            M2 = (if dir \<in> set (tm_watched M1) then M1 else M1\<lparr>tm_watched := tm_watched M1 @ [dir]\<rparr>)
        in (M2\<lparr>tm_items := concat (map (test_item w) (test_entries d1 dir))\<rparr>, d1))"

definition rescan :: "platform \<Rightarrow> disk \<Rightarrow> test_model \<Rightarrow> test_model \<times> disk" where
  "rescan w d M = setTestSet w (tm_testSet M) d M"

definition stopWatching :: "platform \<Rightarrow> qtext \<Rightarrow> test_model \<Rightarrow> test_model" where
  "stopWatching w testSet M = M\<lparr>tm_watched := filter (\<lambda>p. p \<noteq> testSetLocation w testSet) (tm_watched M)\<rparr>"

datatype item_role = DisplayRole | SizeHintRole | ToolTipRole | FilePathRole | ScriptNameRole | OtherRole

datatype cell = NoCell | CText qtext | CSize int int

definition tm_data :: "platform \<Rightarrow> disk \<Rightarrow> test_model \<Rightarrow> nat \<Rightarrow> nat \<Rightarrow> item_role \<Rightarrow> cell" where
  "tm_data w d M row column role =
     (if length (tm_items M) \<le> row then NoCell
      else if role = FilePathRole then CText (scriptPath w d (tm_testSet M) (tm_items M ! row))
      else if role = ScriptNameRole then CText (tm_items M ! row)
      else if column = 0 then (if role = DisplayRole then CText (tm_items M ! row) else NoCell)
      else if column = 1 then
        (if role = SizeHintRole then CSize 32 32 else if role = ToolTipRole then CText ''Run Test'' else NoCell)
      else if column = 2 then
        (if role = SizeHintRole then CSize 32 32 else if role = ToolTipRole then CText ''Edit Test'' else NoCell)
      else NoCell)"

definition tm_headerData :: "nat \<Rightarrow> item_role \<Rightarrow> cell" where
  "tm_headerData col role =
     (if role \<noteq> DisplayRole then NoCell
      else if col = 0 then CText ''Name''
      else if col = 1 then CText ''Run''
      else if col = 2 then CText ''Edit''
      else NoCell)"

section \<open>A new test is found again\<close>

text \<open>
  A path that \<open>QDir::cleanPath\<close> has nothing to do for: no empty part but the first, no dots.
\<close>

definition clean :: "qtext \<Rightarrow> bool" where
  "clean p \<longleftrightarrow> hd (qsplit [slash] p) \<notin> {''.'', ''..''} \<and> p \<noteq> [] \<and>
     (\<forall>c \<in> set (tl (qsplit [slash] p)). c \<notin> {[], ''.'', ''..''})"

definition hex_digit :: "char \<Rightarrow> bool" where
  "hex_digit c \<longleftrightarrow> c \<in> set ''0123456789abcdef''"

definition platform_documented :: "platform \<Rightarrow> bool" where
  "platform_documented w \<longleftrightarrow>
     (\<forall>p. clean p \<longrightarrow> cleanPath w p = p \<and> cleanPath w (p @ [slash]) = p) \<and>
     clean (storageLocation w) \<and> percent \<notin> set (storageLocation w) \<and>
     (\<forall>s. fromUtf8 w (toUtf8 w s) = s) \<and> toUtf8 w [] = [] \<and>
     (\<forall>b. fromHex w (toHex w b) = b \<and> (\<forall>c \<in> set (toHex w b). hex_digit c)) \<and> toHex w [] = []"

text \<open>A name that is one part of a path.\<close>

definition part_name :: "qtext \<Rightarrow> bool" where
  "part_name n \<longleftrightarrow> slash \<notin> set n \<and> n \<notin> {[], ''.'', ''..''}"

lemma qsplit_snoc: "slash \<notin> set n \<Longrightarrow> qsplit [slash] (p @ slash # n) = qsplit [slash] p @ [n]"
proof (induction p)
  case Nil
  then have "qsplit [slash] n = [n]" by (induction n) auto
  then show ?case by simp
next
  case (Cons c p)
  then show ?case by (cases "qsplit [slash] p") auto
qed

lemma clean_snoc: "clean p \<Longrightarrow> part_name n \<Longrightarrow> clean (p @ slash # n)"
proof -
  assume "clean p" and "part_name n"
  moreover have "hd (qsplit [slash] p @ [n]) = hd (qsplit [slash] p)"
    and "tl (qsplit [slash] p @ [n]) = tl (qsplit [slash] p) @ [n]" by simp_all
  ultimately show ?thesis by (auto simp: clean_def part_name_def qsplit_snoc)
qed

lemma qarg_directory: "qarg ''/%1/'' a = ''/'' @ a @ ''/''"
  by (simp add: qt_text)

lemma qarg_script:
  assumes "percent \<notin> set a"
  shows "qarg (qarg ''%1/%2.qs'' a) b = a @ ''/'' @ b @ ''.qs''" (is ?qs)
    and "qarg (qarg ''%1/%2.hs'' a) b = a @ ''/'' @ b @ ''.hs''" (is ?hs)
proof -
  have "qarg ''%1/%2.qs'' a = a @ ''/%2.qs''" "qarg ''%1/%2.hs'' a = a @ ''/%2.hs''"
    by (simp_all add: qt_text)
  then show ?qs ?hs using assms by (simp_all add: qarg_append) (simp_all add: qt_text)
qed

lemma testSetLocation_plain:
  assumes "platform_documented w" and "part_name testSet"
  shows "testSetLocation w testSet = storageLocation w @ ''/tests/'' @ testSet"
    and "clean (testSetLocation w testSet)"
proof -
  have tests: "clean (storageLocation w @ slash # ''tests'')"
    using assms(1) by (intro clean_snoc) (simp_all add: platform_documented_def part_name_def)
  then have sets: "testSetsLocation w = storageLocation w @ ''/tests''"
    using assms(1) by (simp add: testSetsLocation_def platform_documented_def)
  have "clean ((storageLocation w @ slash # ''tests'') @ slash # testSet)"
    using tests assms(2) by (rule clean_snoc)
  then have c: "clean (storageLocation w @ ''/tests/'' @ testSet)" by simp
  then have "cleanPath w ((storageLocation w @ ''/tests/'' @ testSet) @ [slash]) = storageLocation w @ ''/tests/'' @ testSet"
    using assms(1) unfolding platform_documented_def by blast
  then show "testSetLocation w testSet = storageLocation w @ ''/tests/'' @ testSet"
    using assms(2) by (simp add: testSetLocation_def sets qarg_directory part_name_def)
  with c show "clean (testSetLocation w testSet)" by simp
qed

lemma part_name_suffix: "slash \<notin> set n \<Longrightarrow> n \<noteq> [] \<Longrightarrow> part_name (n @ ''.qs'') \<and> part_name (n @ ''.hs'')"
  by (auto simp: part_name_def append_eq_Cons_conv)

text \<open>The two paths a test can have.\<close>

lemma scriptPath_plain:
  assumes "platform_documented w" and "part_name testSet" and "percent \<notin> set testSet"
    and "t \<noteq> []" and "slash \<notin> set t"
  shows "scriptPath w d testSet t =
    (let dir = testSetLocation w testSet in
     if file_exists d (dir @ ''/'' @ t @ ''.qs'') then dir @ ''/'' @ t @ ''.qs''
     else dir @ ''/'' @ toHex w (toUtf8 w t) @ ''.hs'')" (is ?path)
    and "toHex w (toUtf8 w t) \<noteq> []" (is ?hex) and "slash \<notin> set (toHex w (toUtf8 w t))" (is ?slash)
proof -
  let ?dir = "testSetLocation w testSet"
  let ?h = "toHex w (toUtf8 w t)"
  have dir: "?dir = storageLocation w @ ''/tests/'' @ testSet" "clean ?dir"
    using testSetLocation_plain [OF assms(1,2)] by simp_all
  have "percent \<notin> set ?dir" using assms(1,3) dir(1) by (simp add: platform_documented_def)
  note args = qarg_script [OF this]
  have "\<forall>c \<in> set ?h. hex_digit c" using assms(1) by (simp add: platform_documented_def)
  then show slash: ?slash by (auto simp: hex_digit_def)
  have "fromUtf8 w (fromHex w ?h) = t" "fromUtf8 w (fromHex w []) = []"
    using assms(1) unfolding platform_documented_def by metis+
  with assms(4) show hex: ?hex by auto
  have "clean (?dir @ slash # (t @ ''.qs''))" "clean (?dir @ slash # (?h @ ''.hs''))"
    using dir(2) part_name_suffix assms(4,5) slash hex by (blast intro: clean_snoc)+
  then show ?path using assms(1) by (simp add: scriptPath_def args platform_documented_def Let_def)
qed

lemma chop_append [simp]: "length e = k \<Longrightarrow> chop k (s @ e) = s"
  by (simp add: chop_def)

lemma test_item_hs: "test_item w (h @ ''.hs'') = [fromUtf8 w (fromHex w h)]"
  by (simp add: test_item_def suffix_def append_eq_append_conv2 append_eq_Cons_conv)

lemma hs_matches: "lower_suffix ''.hs'' (h @ ''.hs'')"
  by (simp add: lower_suffix_def suffix_def ascii_lower_def ascii_upper_def)

lemma file_exists_write: "file_exists (write_file p b d) x \<longleftrightarrow> x = p \<or> file_exists d x"
  using qm_insert_keys [of p b "d_files d"] by (simp add: file_exists_def qm_contains_def write_file_def)

lemma length_qjoin_take: "length (qjoin sep (take k ps)) \<le> length (qjoin sep ps)"
proof (cases "take k ps = [] \<or> drop k ps = []")
  case True
  then show ?thesis by auto
next
  case False
  then have "qjoin sep (take k ps @ drop k ps) = qjoin sep (take k ps) @ sep @ qjoin sep (drop k ps)"
    by (intro qjoin_append) simp_all
  then have "length (qjoin sep ps) = length (qjoin sep (take k ps)) + length sep + length (qjoin sep (drop k ps))"
    by simp
  then show ?thesis by simp
qed

lemma mkpath_dirs: "x \<in> set (d_dirs (mkpath p d)) \<Longrightarrow> x \<in> set (d_dirs d) \<or> length x \<le> length p"
proof -
  assume "x \<in> set (d_dirs (mkpath p d))"
  then consider "x \<in> set (d_dirs d)"
    | k where "x = qjoin [slash] (take k (qsplit [slash] (strip_slash p)))"
    by (auto simp: mkpath_def Let_def)
  then show ?thesis
  proof cases
    case (2 k)
    have "length x \<le> length (strip_slash p)"
      using 2 length_qjoin_take [of "[slash]" k "qsplit [slash] (strip_slash p)"] by (simp add: qjoin_qsplit)
    also have "\<dots> \<le> length p" by (simp add: strip_slash_def)
    finally show ?thesis by simp
  qed simp
qed

text \<open>
  C25. A new test is found again: a script saved under the path that \<open>Locations\<close> gives for a test
  of any name is listed by the test model under that name, and the path the model gives for the
  listed test is the path it was saved under. (The name must not be empty and must not hold a
  slash; no test of the old kind has the name.)
\<close>

theorem new_test_found_again:
  assumes "platform_documented w" and "part_name testSet" and "percent \<notin> set testSet"
    and "t \<noteq> []" and "slash \<notin> set t"
    and "\<not> file_exists d (testSetLocation w testSet @ ''/'' @ t @ ''.qs'')"
  shows "\<exists>M' d' row. setTestSet w testSet (write_file (scriptPath w d testSet t) b d) M = (M', d') \<and>
    row < length (tm_items M') \<and> tm_data w d' M' row 0 DisplayRole = CText t \<and>
    tm_data w d' M' row 0 FilePathRole = CText (scriptPath w d testSet t)"
proof -
  let ?dir = "testSetLocation w testSet"
  let ?h = "toHex w (toUtf8 w t)"
  let ?qs = "?dir @ ''/'' @ t @ ''.qs''"
  let ?d = "write_file (scriptPath w d testSet t) b d"
  obtain M' d' where set: "setTestSet w testSet ?d M = (M', d')" by fastforce
  have ts: "testSet \<noteq> []" using assms(2) by (simp add: part_name_def)
  note plain = scriptPath_plain [OF assms(1-5)]
  have path: "scriptPath w d testSet t = ?dir @ ''/'' @ ?h @ ''.hs''" using plain(1) assms(6) by (simp add: Let_def)
  have d': "d' = (if ?dir \<in> set (d_dirs ?d) then ?d else mkpath ?dir ?d)"
    and M': "tm_testSet M' = testSet" "tm_items M' = concat (map (test_item w) (test_entries d' ?dir))"
    using set ts by (auto simp: setTestSet_def Let_def split: if_splits)
  have no_qs: "\<not> file_exists d' ?qs"
  proof
    assume "file_exists d' ?qs"
    then have "file_exists ?d ?qs"
      using d' mkpath_dirs [of ?qs ?dir ?d] by (auto simp: file_exists_def split: if_splits)
    then show False using assms(6) path by (simp add: file_exists_write)
  qed
  have "(?dir @ [slash]) @ (?h @ ''.hs'') \<in> set (map fst (d_files d'))"
    using d' path qm_insert_keys [of "scriptPath w d testSet t" b "d_files d"] by (auto simp: write_file_def)
  moreover have "\<forall>c \<in> set ?h. hex_digit c" using assms(1) by (simp add: platform_documented_def)
  then have "hex_digit (hd ?h)" using plain(2) by simp
  then have "hd ?h \<noteq> CHR ''.''" by (auto simp: hex_digit_def)
  ultimately have "?h @ ''.hs'' \<in> set (test_entries d' ?dir)"
    using plain(2,3) hs_matches by (simp add: test_entries_def in_entryList)
  moreover have "fromUtf8 w (fromHex w ?h) = t" using assms(1) by (simp add: platform_documented_def)
  ultimately have "t \<in> set (tm_items M')" using test_item_hs [of w ?h] by (force simp: M')
  then obtain row where row: "row < length (tm_items M')" "tm_items M' ! row = t"
    by (auto simp: in_set_conv_nth)
  have "scriptPath w d' testSet t = scriptPath w d testSet t"
    using plain(1) [of d'] no_qs path by (simp add: Let_def)
  with row set M'(1) show ?thesis by (intro exI [of _ M'] exI [of _ d'] exI [of _ row]) (simp add: tm_data_def)
qed

section \<open>A concrete platform\<close>

text \<open>UTF-8 for the characters of one byte, and hexadecimal text.\<close>

definition utf8_char :: "char \<Rightarrow> bytes" where
  "utf8_char c = (let n = of_char c :: nat in
     if n < 128 then [of_nat n] else [of_nat (192 + n div 64), of_nat (128 + n mod 64)])"

fun utf8_decode :: "bytes \<Rightarrow> qtext" where
  "utf8_decode [] = []"
| "utf8_decode (b # bs) =
     (if unat b < 128 then char_of (unat b) # utf8_decode bs
      else case bs of [] \<Rightarrow> [] | c # cs \<Rightarrow> char_of ((unat b - 192) * 64 + (unat c - 128)) # utf8_decode cs)"

lemma of_char_less: "(of_char c :: nat) < 256"
  using of_char_mod_256 [of c, where ?'a = nat] by (metis mod_less_divisor zero_less_numeral)

lemma unat_of_nat_byte: "n < 256 \<Longrightarrow> unat (of_nat n :: 8 word) = n"
  by (simp add: unat_of_nat take_bit_nat_eq_self)

lemma utf8_reads_back: "utf8_decode (concat (map utf8_char s)) = s"
proof (induction s)
  case (Cons c s)
  have n: "(of_char c :: nat) < 256" by (rule of_char_less)
  show ?case
  proof (cases "(of_char c :: nat) < 128")
    case True
    with Cons n show ?thesis by (simp add: utf8_char_def Let_def unat_of_nat_byte)
  next
    case False
    have "unat (of_nat (192 + of_char c div 64) :: 8 word) = 192 + of_char c div 64"
      "unat (of_nat (128 + of_char c mod 64) :: 8 word) = 128 + of_char c mod 64"
      using n by (intro unat_of_nat_byte; linarith)+
    with False Cons show ?thesis by (simp add: utf8_char_def Let_def del: of_nat_add)
  qed
qed simp

definition hex_char :: "nat \<Rightarrow> char" where
  "hex_char n = ''0123456789abcdef'' ! n"

definition hex_value :: "char \<Rightarrow> nat" where
  "hex_value c = (let n = of_char c :: nat in if 97 \<le> n then n - 87 else n - 48)"

definition hex_text :: "bytes \<Rightarrow> qtext" where
  "hex_text bs = concat (map (\<lambda>b. [hex_char (unat b div 16), hex_char (unat b mod 16)]) bs)"

fun hex_bytes :: "qtext \<Rightarrow> bytes" where
  "hex_bytes (c # e # s) = of_nat (16 * hex_value c + hex_value e) # hex_bytes s"
| "hex_bytes _ = []"

lemma less_16_cases: "n < 16 \<Longrightarrow> n \<in> {0, 1, 2, 3, 4, 5, 6, 7, 8, 9, 10, 11, 12, 13, 14, 15 :: nat}"
  unfolding insert_iff empty_iff by presburger

lemma hex_value_char: "n < 16 \<Longrightarrow> hex_value (hex_char n) = n \<and> hex_digit (hex_char n)"
  by (drule less_16_cases) (auto simp: hex_char_def hex_value_def hex_digit_def)

lemma byte_halves: "unat (b :: 8 word) div 16 < 16" "unat b mod 16 < 16"
  using unsigned_less [of b, where ?'a = nat] by auto

lemma hex_reads_back: "hex_bytes (hex_text bs) = bs"
proof (induction bs)
  case (Cons b bs)
  have "16 * (unat b div 16) + unat b mod 16 = unat b" by (rule mult_div_mod_eq)
  with Cons show ?case
    using byte_halves [of b] by (simp add: hex_text_def hex_value_char del: of_nat_add)
qed (simp add: hex_text_def)

lemma hex_text_digits: "c \<in> set (hex_text bs) \<Longrightarrow> hex_digit c"
  using byte_halves by (auto simp: hex_text_def hex_value_char)

definition tidy_path :: "qtext \<Rightarrow> qtext" where
  "tidy_path p = (if clean p then p else if clean (strip_slash p) then strip_slash p else p)"

definition sample_platform :: platform where
  "sample_platform = \<lparr>cleanPath = tidy_path, storageLocation = ''/home/me/hooq'',
     toUtf8 = concat \<circ> map utf8_char, fromUtf8 = utf8_decode, toHex = hex_text, fromHex = hex_bytes\<rparr>"

lemma not_clean_slash: "\<not> clean (p @ [slash])"
proof -
  have "tl (qsplit [slash] p @ [[]]) = tl (qsplit [slash] p) @ [[]]" by simp
  then show ?thesis using qsplit_snoc [of "[]" p] by (simp add: clean_def)
qed

lemma sample_platform_documented: "platform_documented sample_platform"
proof -
  have "clean ''/home/me/hooq''" by code_simp
  moreover have "tidy_path (p @ [slash]) = p" if "clean p" for p
    using that by (simp add: tidy_path_def not_clean_slash strip_slash_def)
  ultimately show ?thesis
    by (simp add: platform_documented_def sample_platform_def utf8_reads_back hex_reads_back hex_text_digits)
       (simp add: tidy_path_def hex_text_def)
qed

definition empty_disk :: disk where
  "empty_disk = \<lparr>d_files = [], d_dirs = [''.''], d_locked = []\<rparr>"

theorem new_test_found_again_witness:
  "\<exists>M' d' row. setTestSet sample_platform ''editor''
      (write_file (scriptPath sample_platform empty_disk ''editor'' ''open a file'') [] empty_disk) new_TestModel = (M', d') \<and>
    row < length (tm_items M') \<and> tm_data sample_platform d' M' row 0 DisplayRole = CText ''open a file'' \<and>
    tm_data sample_platform d' M' row 0 FilePathRole =
      CText (scriptPath sample_platform empty_disk ''editor'' ''open a file'')"
  by (rule new_test_found_again [OF sample_platform_documented])
     (simp_all add: part_name_def file_exists_def empty_disk_def qm_contains_def)

end
