(* ===== verification/Test_Backup.thy ===== *)
theory Test_Backup
  imports Test_Files "HOL-Library.Monad_Syntax"
begin

text \<open>
  Backups of test sets: \<open>hooq/TestSetBackup.cpp\<close> and the command line program
  \<open>hooqbackup/main.cpp\<close>. \<open>QDataStream\<close>, \<open>qCompress\<close> and \<open>qUncompress\<close> are the record
  \<open>archive_ops\<close>: \<open>getString\<close> and \<open>getBytes\<close> return what was read and the rest of the stream.
\<close>

record archive_ops =
  putString :: "qstring \<Rightarrow> bytes"
  getString :: "bytes \<Rightarrow> qstring \<times> bytes"
  putBytes :: "bytes \<Rightarrow> bytes"
  getBytes :: "bytes \<Rightarrow> bytes \<times> bytes"
  qCompress :: "bytes \<Rightarrow> bytes"
  qUncompress :: "bytes \<Rightarrow> bytes"

definition m_magic :: bytes where
  "m_magic = [0x25, 0x48, 0x6F, 0x6F, 0x71, 0x00, 0x55, 0xAA, 0xFF]"

section \<open>TestSetBackup\<close>

text \<open>The loop over the files of the directory; \<open>None\<close> when one of them cannot be opened.\<close>

fun pack_files :: "archive_ops \<Rightarrow> disk \<Rightarrow> qtext \<Rightarrow> qtext list \<Rightarrow> bytes option" where
  "pack_files a d directory [] = Some []"
| "pack_files a d directory (n # ns) = (case read_file d (directory @ n) of
     None \<Rightarrow> None
   | Some b \<Rightarrow> map_option (\<lambda>r. putString a (Some n) @ putBytes a b @ r) (pack_files a d directory ns))"

definition backup :: "archive_ops \<Rightarrow> qtext \<Rightarrow> qtext \<Rightarrow> qtext \<Rightarrow> disk \<Rightarrow> bool \<times> disk" where
  "backup a testSet path rootDirectory d =
     (if \<not> can_write d path then (False, d)
      else
        let d1 = write_file path m_magic d;
            directory = rootDirectory @ ''/'' @ testSet @ ''/''
        in case pack_files a d1 directory (entryList d1 directory) of
             None \<Rightarrow> (False, d1)
           | Some packed \<Rightarrow>
               (True, write_file path (m_magic @ qCompress a (putString a (Some testSet) @ packed)) d1))"

text \<open>What the three readers begin with: the uncompressed stream of a file with the magic number.\<close>

definition open_backup :: "archive_ops \<Rightarrow> qtext \<Rightarrow> disk \<Rightarrow> bytes option" where
  "open_backup a path d = (case read_file d path of
     None \<Rightarrow> None
   | Some b \<Rightarrow>
       if length b < length m_magic then None
       else if take (length m_magic) b \<noteq> m_magic then None
       else Some (qUncompress a (drop (length m_magic) b)))"

definition identify :: "archive_ops \<Rightarrow> qtext \<Rightarrow> disk \<Rightarrow> qstring" where
  "identify a path d = (case open_backup a path d of
     None \<Rightarrow> None | Some stream \<Rightarrow> fst (getString a stream))"

text \<open>
  The loop over the tests of an archive. The outer \<open>option\<close> says whether the loop ends, the inner
  one whether the archive is accepted.
\<close>

partial_function (option) read_tests ::
    "archive_ops \<Rightarrow> bytes \<Rightarrow> (qtext \<times> bytes) list \<Rightarrow> (qtext \<times> bytes) list option option" where
  "read_tests a stream tests =
     (if stream = [] then Some (Some tests)
      else
        let testName = qs_text (fst (getString a stream)); rest = snd (getString a stream)
        in if rest = [] \<or> \<not> suffix ''.qs'' testName then Some None
           else read_tests a (snd (getBytes a rest)) (tests @ [(testName, fst (getBytes a rest))]))"

definition backup_list :: "archive_ops \<Rightarrow> qtext \<Rightarrow> disk \<Rightarrow> qtext list option" where
  "backup_list a path d = (case open_backup a path d of
     None \<Rightarrow> Some []
   | Some stream \<Rightarrow>
       if qs_isEmpty (fst (getString a stream)) then Some []
       else do {
         tests \<leftarrow> read_tests a (snd (getString a stream)) [];
         Some (case tests of None \<Rightarrow> [] | Some ts \<Rightarrow> map fst ts)
       })"

text \<open>Writing the tests in the order of the \<open>QMap\<close>; it stops at a file that cannot be opened.\<close>

fun write_tests :: "qtext \<Rightarrow> (qtext \<times> bytes) list \<Rightarrow> disk \<Rightarrow> bool \<times> disk" where
  "write_tests directoryPath [] d = (True, d)"
| "write_tests directoryPath ((n, b) # ts) d =
     (if can_write d (directoryPath @ n) then write_tests directoryPath ts (write_file (directoryPath @ n) b d)
      else (False, d))"

definition restore :: "archive_ops \<Rightarrow> qtext \<Rightarrow> qtext \<Rightarrow> disk \<Rightarrow> (qstring \<times> disk) option" where
  "restore a path rootDirectory d = (case open_backup a path d of
     None \<Rightarrow> Some (None, d)
   | Some stream \<Rightarrow>
       let testSet = fst (getString a stream) in
       if qs_isEmpty testSet then Some (None, d)
       else do {
         tests \<leftarrow> read_tests a (snd (getString a stream)) [];
         (case tests of
            None \<Rightarrow> Some (None, d)
          | Some ts \<Rightarrow>
              let directoryPath = rootDirectory @ ''/'' @ qs_text testSet @ ''/'';
                  written = write_tests directoryPath (fold (\<lambda>(n, b). qm_insert n b) ts []) (mkpath directoryPath d)
              in Some (if fst written then testSet else None, snd written))
       })"

section \<open>hooqbackup\<close>

text \<open>The exit code, the lines written, and the disk afterwards.\<close>

definition usage :: "qtext \<Rightarrow> qtext list" where
  "usage program =
     [''Syntax: '' @ program @ '' OPERATION FILE'', ''Operations:'',
      CHR 0x09 # ''identify'' @ CHR 0x09 # ''identify the test set in FILE'',
      CHR 0x09 # ''list    '' @ CHR 0x09 # ''list all the tests in FILE'',
      CHR 0x09 # ''extract '' @ CHR 0x09 # ''extract the contents of FILE'',
      CHR 0x09 # ''create  '' @ CHR 0x09 # ''create FILE.hqt from the contents of FILE/'']"

definition quoted :: "qtext \<Rightarrow> qtext" where
  "quoted s = CHR 0x27 # s @ [CHR 0x27]"

definition not_a_backup :: "qtext \<Rightarrow> qtext" where
  "not_a_backup file = ''File '' @ quoted file @ '' is not a valid hooq backup file.''"

definition hooqbackup_main ::
    "archive_ops \<Rightarrow> qtext list \<Rightarrow> disk \<Rightarrow> (int \<times> qtext list \<times> disk) option" where
  "hooqbackup_main a arguments d = (case arguments of
     [program, operation, file] \<Rightarrow>
       if \<not> file_exists d file then Some (2, [''File does not exist.''], d)
       else if operation = ''identify'' then
         (let testSet = identify a file d in
          if qs_isEmpty testSet then Some (3, [not_a_backup file], d)
          else Some (0, [''File '' @ quoted file @ '' contains test set '' @ quoted (qs_text testSet)], d))
       else if operation = ''list'' then
         (if qs_isEmpty (identify a file d) then Some (3, [not_a_backup file], d)
          else do {
            tests \<leftarrow> backup_list a file d;
            Some (0, map (chop 3) tests, d)
          })
       else if operation = ''extract'' then do {
         r \<leftarrow> restore a file ''.'' d;
         Some (if qs_isEmpty (fst r) then (3, [not_a_backup file], snd r)
               else (0, [''Extracted test set to '' @ qs_text (fst r) @ ''/''], snd r))
       }
       else if operation = ''create'' then
         (let r = backup a file (file @ ''.hqt'') ''.'' d
          in Some (if fst r then (0, [''Created '' @ file @ ''.hqt''], snd r)
                   else (3, [''Could not create backup.''], snd r)))
       else Some (1, [''Unknown command '' @ quoted operation], d)
   | _ \<Rightarrow> Some (1, usage (case arguments of [] \<Rightarrow> [] | p # _ \<Rightarrow> p), d))"

section \<open>What the data stream promises\<close>

text \<open>
  A text and an array of bytes of a size Qt can hold read back; reading takes something from a
  stream that is not at its end, and gives the null string at its end; a compressed array
  uncompresses to itself.
\<close>

definition stream_reads_back :: "archive_ops \<Rightarrow> bool" where
  "stream_reads_back a \<longleftrightarrow>
     (\<forall>s r. length s < 2 ^ 30 \<longrightarrow> getString a (putString a (Some s) @ r) = (Some s, r)) \<and>
     (\<forall>b r. length b < 2 ^ 31 \<longrightarrow> getBytes a (putBytes a b @ r) = (b, r)) \<and>
     (\<forall>s. putString a s \<noteq> []) \<and> (\<forall>b. putBytes a b \<noteq> []) \<and>
     (\<forall>b. length b < 2 ^ 31 \<longrightarrow> qUncompress a (qCompress a b) = b)"

definition stream_consumes :: "archive_ops \<Rightarrow> bool" where
  "stream_consumes a \<longleftrightarrow>
     (\<forall>s. s \<noteq> [] \<longrightarrow> length (snd (getString a s)) < length s) \<and>
     (\<forall>s. length (snd (getBytes a s)) \<le> length s)"

definition empty_stream_null :: "archive_ops \<Rightarrow> bool" where
  "empty_stream_null a \<longleftrightarrow> qUncompress a [] = [] \<and> getString a [] = (None, [])"

text \<open>The sizes of a test set are within what Qt can hold.\<close>

definition backup_fits :: "archive_ops \<Rightarrow> qtext \<Rightarrow> qtext \<Rightarrow> disk \<Rightarrow> bool" where
  "backup_fits a testSet directory d \<longleftrightarrow>
     length testSet < 2 ^ 30 \<and>
     (\<forall>n \<in> set (entryList d directory). length n < 2 ^ 30 \<and>
        (\<exists>b. read_file d (directory @ n) = Some b \<and> length b < 2 ^ 31)) \<and>
     (\<forall>packed. pack_files a d directory (entryList d directory) = Some packed \<longrightarrow>
        length (putString a (Some testSet) @ packed) < 2 ^ 31)"

section \<open>Lemmas\<close>

lemma m_magic_length [simp]: "length m_magic = 9"
  by (simp add: m_magic_def)

lemma open_backup_magic:
  "path \<notin> set (d_locked d) \<Longrightarrow> open_backup a path (write_file path (m_magic @ b) d) = Some (qUncompress a b)"
  by (simp add: open_backup_def read_write)

lemma filter_keys_insert: "\<not> P k \<Longrightarrow> filter P (map fst (qm_insert k v m)) = filter P (map fst m)"
  by (induction k v m rule: qm_insert.induct) auto

lemma entryList_write: "\<not> prefix dir path \<Longrightarrow> entryList (write_file path b d) dir = entryList d dir"
  using filter_keys_insert [of "prefix dir" path b "d_files d"] by (simp add: entryList_def write_file_def)

lemma pack_files_cong:
  "(\<And>n. n \<in> set ns \<Longrightarrow> read_file d (dir @ n) = read_file d' (dir @ n)) \<Longrightarrow>
    pack_files a d dir ns = pack_files a d' dir ns"
  by (induction ns) (auto split: option.splits)

lemma pack_files_Some:
  "(\<And>n. n \<in> set ns \<Longrightarrow> \<exists>b. read_file d (dir @ n) = Some b) \<Longrightarrow> \<exists>u. pack_files a d dir ns = Some u"
  by (induction ns) (auto split: option.splits)

text \<open>The tests of an archive: names and contents.\<close>

definition packed_tests :: "disk \<Rightarrow> qtext \<Rightarrow> qtext list \<Rightarrow> (qtext \<times> bytes) list" where
  "packed_tests d dir ns = map (\<lambda>n. (n, the (read_file d (dir @ n)))) ns"

lemma read_tests_Cons:
  assumes "stream_reads_back a" and "length n < 2 ^ 30" and "length b < 2 ^ 31"
  shows "read_tests a (putString a (Some n) @ putBytes a b @ r) tests =
    (if suffix ''.qs'' n then read_tests a r (tests @ [(n, b)]) else Some None)"
  using assms by (subst read_tests.simps) (simp add: stream_reads_back_def Let_def)

lemma read_packed:
  assumes "stream_reads_back a" and "pack_files a d dir ns = Some u"
    and "\<And>n. n \<in> set ns \<Longrightarrow> length n < 2 ^ 30 \<and> length (the (read_file d (dir @ n))) < 2 ^ 31"
  shows "read_tests a u tests =
    Some (if \<forall>n \<in> set ns. suffix ''.qs'' n then Some (tests @ packed_tests d dir ns) else None)"
  using assms(2,3)
proof (induction ns arbitrary: u tests)
  case Nil
  then show ?case by (simp add: read_tests.simps packed_tests_def)
next
  case (Cons n ns)
  from Cons.prems(1) obtain b r where b: "read_file d (dir @ n) = Some b"
    and r: "pack_files a d dir ns = Some r" and u: "u = putString a (Some n) @ putBytes a b @ r"
    by (auto split: option.splits)
  have "read_tests a u tests = (if suffix ''.qs'' n then read_tests a r (tests @ [(n, b)]) else Some None)"
    unfolding u using Cons.prems(2) [of n] b by (intro read_tests_Cons assms(1)) simp_all
  also have "read_tests a r (tests @ [(n, b)]) =
      Some (if \<forall>n \<in> set ns. suffix ''.qs'' n then Some ((tests @ [(n, b)]) @ packed_tests d dir ns) else None)"
    using Cons.prems(2) by (intro Cons.IH [OF r]) simp
  finally show ?case using b by (simp add: packed_tests_def)
qed

text \<open>What a successful backup leaves in the file.\<close>

lemma backup_written:
  assumes "stream_reads_back a" and "can_write d path" and "dir = rootDirectory @ ''/'' @ testSet @ ''/''"
    and "\<not> prefix dir path" and "backup_fits a testSet dir d"
  obtains packed d1 where "backup a testSet path rootDirectory d = (True, d1)"
    and "pack_files a d dir (entryList d dir) = Some packed"
    and "open_backup a path d1 = Some (putString a (Some testSet) @ packed)"
    and "getString a (putString a (Some testSet) @ packed) = (Some testSet, packed)"
    and "\<And>x. x \<noteq> path \<Longrightarrow> read_file d1 x = read_file d x"
proof -
  let ?d = "write_file path m_magic d"
  let ?ns = "entryList d dir"
  have other: "read_file ?d (dir @ n) = read_file d (dir @ n)" for n
    using assms(4) by (auto simp: read_write)
  have "\<exists>b. read_file d (dir @ n) = Some b" if "n \<in> set ?ns" for n
    using assms(5) that by (auto simp: backup_fits_def)
  then obtain packed where packed: "pack_files a d dir ?ns = Some packed"
    using pack_files_Some by blast
  have "pack_files a ?d dir (entryList ?d dir) = Some packed"
    using packed pack_files_cong [of ?ns ?d dir d a] other by (simp add: entryList_write [OF assms(4)])
  then have "backup a testSet path rootDirectory d =
      (True, write_file path (m_magic @ qCompress a (putString a (Some testSet) @ packed)) ?d)" (is "_ = (True, ?d1)")
    using assms(2,3) by (simp add: backup_def Let_def)
  moreover have "path \<notin> set (d_locked ?d)" using assms(2) by (simp add: can_write_def)
  then have "open_backup a path ?d1 = Some (putString a (Some testSet) @ packed)"
    using assms(1,5) packed by (simp add: open_backup_magic stream_reads_back_def backup_fits_def)
  moreover have "getString a (putString a (Some testSet) @ packed) = (Some testSet, packed)"
    using assms(1,5) by (simp add: stream_reads_back_def backup_fits_def)
  moreover have "read_file ?d1 x = read_file d x" if "x \<noteq> path" for x
    using that by (simp add: read_write)
  ultimately show ?thesis using that packed by blast
qed

lemma packed_sizes:
  "backup_fits a testSet dir d \<Longrightarrow> n \<in> set (entryList d dir) \<Longrightarrow>
    length n < 2 ^ 30 \<and> length (the (read_file d (dir @ n))) < 2 ^ 31"
  by (fastforce simp: backup_fits_def)

text \<open>Writing tests of different names: they are there afterwards, everything else is as before.\<close>

lemma write_tests_fold:
  "(\<And>n. n \<in> set (map fst ts) \<Longrightarrow> can_write d (dir @ n)) \<Longrightarrow>
    write_tests dir ts d = (True, fold (\<lambda>(p, b). write_file p b) (map (\<lambda>(n, b). (dir @ n, b)) ts) d)"
  by (induction dir ts d rule: write_tests.induct) (auto simp: files.writable_put)

lemma write_tests_ok:
  assumes "distinct (map fst ts)" and "\<And>n. n \<in> set (map fst ts) \<Longrightarrow> can_write d (dir @ n)"
  shows "\<exists>d'. write_tests dir ts d = (True, d') \<and>
    (\<forall>n b. map_of ts n = Some b \<longrightarrow> read_file d' (dir @ n) = Some b) \<and>
    (\<forall>x. (\<forall>n \<in> set (map fst ts). x \<noteq> dir @ n) \<longrightarrow> read_file d' x = read_file d x)"
proof -
  let ?ps = "map (\<lambda>(n, b). (dir @ n, b)) ts"
  let ?d = "fold (\<lambda>(p, b). write_file p b) ?ps d"
  have "distinct (map fst ?ps)"
    using assms(1) by (simp add: split_beta comp_def distinct_map [of fst] distinct_map inj_on_def)
  then have "read_file ?d (dir @ n) = Some b" if "map_of ts n = Some b" for n b
  proof (rule files.fetch_put_all)
    show "(dir @ n, b) \<in> set ?ps" using map_of_SomeD [OF that] by force
    show "can_write d (dir @ n)" using map_of_SomeD [OF that] by (intro assms(2)) force
  qed
  moreover have "read_file ?d x = read_file d x" if "\<forall>n \<in> set (map fst ts). x \<noteq> dir @ n" for x
    using that by (intro files.fetch_put_other) auto
  ultimately show ?thesis using write_tests_fold [OF assms(2)] by auto
qed

lemma packed_names: "map fst (packed_tests d dir ns) = ns"
  by (simp add: packed_tests_def comp_def)

text \<open>The \<open>QMap\<close> that \<open>restore\<close> collects: the files of the directory with their contents.\<close>

lemma packed_tests_map:
  fixes d dir
  defines "ns \<equiv> entryList d dir"
  defines "m \<equiv> fold (\<lambda>(n, b). qm_insert n b) (packed_tests d dir ns) []"
  assumes "qm_ok (d_files d)" and "backup_fits a testSet dir d"
  shows "distinct (map fst m)" and "set (map fst m) = set ns"
    and "n \<in> set ns \<Longrightarrow> map_of m n = read_file d (dir @ n)"
proof -
  let ?ts = "packed_tests d dir ns"
  have distinct: "distinct (map fst ?ts)"
    unfolding packed_names ns_def using assms(3) by (rule distinct_entryList)
  have look: "map_of m = map_of ?ts" using map_of_fold_insert [OF distinct] by (simp add: m_def)
  show "distinct (map fst m)"
    using qvmap.fold_insert_ok [of "[]" ?ts] by (simp add: m_def qm_ok_def strict_sorted_iff)
  show "set (map fst m) = set ns"
    using look dom_map_of_conv_image_fst [of m] dom_map_of_conv_image_fst [of ?ts] packed_names
    by (metis set_map)
  show "map_of m n = read_file d (dir @ n)" if "n \<in> set ns"
  proof -
    have "map_of ?ts n = Some (the (read_file d (dir @ n)))"
      using that distinct by (intro map_of_is_SomeI) (auto simp: packed_tests_def)
    with that assms(4) look show ?thesis by (auto simp: backup_fits_def ns_def)
  qed
qed

section \<open>Properties\<close>

text \<open>
  C26. A backup is restored: for a test set of scripts named \<open>.qs\<close>, \<open>backup\<close> succeeds, the file is
  identified as a backup of the test set and lists the scripts, and \<open>restore\<close> into any directory
  that can be written brings back every script with its contents and changes no other file.
\<close>

theorem backup_restored:
  assumes "stream_reads_back a" and "qm_ok (d_files d)" and "can_write d path"
    and "dir = rootDirectory @ ''/'' @ testSet @ ''/''" and "\<not> prefix dir path"
    and "backup_fits a testSet dir d" and "testSet \<noteq> []"
    and "\<forall>n \<in> set (entryList d dir). suffix ''.qs'' n"
  shows "\<exists>d1. backup a testSet path rootDirectory d = (True, d1) \<and>
    identify a path d1 = Some testSet \<and> backup_list a path d1 = Some (entryList d dir) \<and>
    (\<forall>root. let dir' = root @ ''/'' @ testSet @ ''/'' in
      (\<forall>n \<in> set (entryList d dir). can_write (mkpath dir' d1) (dir' @ n)) \<longrightarrow>
      (\<exists>d2. restore a path root d1 = Some (Some testSet, d2) \<and>
        (\<forall>n \<in> set (entryList d dir). read_file d2 (dir' @ n) = read_file d (dir @ n)) \<and>
        (\<forall>x. (\<forall>n \<in> set (entryList d dir). x \<noteq> dir' @ n) \<longrightarrow> read_file d2 x = read_file d1 x)))"
proof -
  let ?ns = "entryList d dir"
  let ?ts = "packed_tests d dir ?ns"
  obtain packed d1 where b: "backup a testSet path rootDirectory d = (True, d1)"
      "pack_files a d dir ?ns = Some packed" "open_backup a path d1 = Some (putString a (Some testSet) @ packed)"
      "getString a (putString a (Some testSet) @ packed) = (Some testSet, packed)"
    using backup_written [OF assms(1,3-6)] by metis
  have tests: "read_tests a packed [] = Some (Some ?ts)"
    using read_packed [OF assms(1) b(2), of "[]"] packed_sizes [OF assms(6)] assms(8) by simp
  let ?m = "fold (\<lambda>(n, b). qm_insert n b) ?ts []"
  note packed_map = packed_tests_map [OF assms(2,6)]
  have "\<exists>d2. restore a path root d1 = Some (Some testSet, d2) \<and>
      (\<forall>n \<in> set ?ns. read_file d2 (dir' @ n) = read_file d (dir @ n)) \<and>
      (\<forall>x. (\<forall>n \<in> set ?ns. x \<noteq> dir' @ n) \<longrightarrow> read_file d2 x = read_file d1 x)"
    if dir': "dir' = root @ ''/'' @ testSet @ ''/''" and free: "\<forall>n \<in> set ?ns. can_write (mkpath dir' d1) (dir' @ n)" for root dir'
  proof -
    obtain d2 where d2: "write_tests dir' ?m (mkpath dir' d1) = (True, d2)"
        "\<And>n b. map_of ?m n = Some b \<Longrightarrow> read_file d2 (dir' @ n) = Some b"
        "\<And>x. \<forall>n \<in> set ?ns. x \<noteq> dir' @ n \<Longrightarrow> read_file d2 x = read_file (mkpath dir' d1) x"
      using write_tests_ok [OF packed_map(1), of "mkpath dir' d1" dir'] free unfolding packed_map(2) by blast
    have "read_file d2 (dir' @ n) = read_file d (dir @ n)" if "n \<in> set ?ns" for n
      using d2(2) packed_map(3) [OF that] that assms(6) by (fastforce simp: backup_fits_def)
    moreover have "restore a path root d1 = Some (Some testSet, d2)"
      using b(3,4) tests d2(1) assms(7) dir' by (simp add: restore_def Let_def)
    ultimately show ?thesis using d2(3) by auto
  qed
  moreover have "identify a path d1 = Some testSet" using b(3,4) by (simp add: identify_def)
  moreover have "backup_list a path d1 = Some ?ns" using b(3,4) tests assms(7) by (simp add: backup_list_def packed_names)
  ultimately show ?thesis using b(1) by (intro exI [of _ d1]) (auto simp: Let_def)
qed

text \<open>
  C27. A test set with any other file cannot be restored: \<open>backup\<close> stores all files of the
  directory and succeeds, but the archive then lists no tests and \<open>restore\<close> refuses it. The
  scripts of new tests end in \<open>.hs\<close>.
\<close>

theorem other_files_spoil_backup:
  assumes "stream_reads_back a" and "can_write d path"
    and "dir = rootDirectory @ ''/'' @ testSet @ ''/''" and "\<not> prefix dir path"
    and "backup_fits a testSet dir d" and "testSet \<noteq> []"
    and "\<exists>n \<in> set (entryList d dir). \<not> suffix ''.qs'' n"
  shows "\<exists>d1. backup a testSet path rootDirectory d = (True, d1) \<and> identify a path d1 = Some testSet \<and>
    backup_list a path d1 = Some [] \<and> restore a path root d1 = Some (None, d1)"
proof -
  obtain packed d1 where b: "backup a testSet path rootDirectory d = (True, d1)"
      "pack_files a d dir (entryList d dir) = Some packed"
      "open_backup a path d1 = Some (putString a (Some testSet) @ packed)"
      "getString a (putString a (Some testSet) @ packed) = (Some testSet, packed)"
    using backup_written [OF assms(1-5)] by metis
  have "read_tests a packed [] = Some None"
    using read_packed [OF assms(1) b(2), of "[]"] packed_sizes [OF assms(5)] assms(7) by auto
  with b assms(6) show ?thesis
    by (intro exI [of _ d1]) (simp add: identify_def backup_list_def restore_def)
qed

text \<open>
  A backup that failed half way is not taken for one: the file it leaves behind is neither
  identified nor restored.
\<close>

lemma failed_backup_not_identified:
  assumes "empty_stream_null a" and "can_write d path" and "backup a testSet path rootDirectory d = (False, d1)"
  shows "identify a path d1 = None \<and> backup_list a path d1 = Some [] \<and> restore a path root d1 = Some (None, d1)"
proof -
  have "d1 = write_file path m_magic d"
    using assms(2,3) by (auto simp: backup_def Let_def split: option.splits)
  moreover have "path \<notin> set (d_locked d)" using assms(2) by (simp add: can_write_def)
  ultimately have "open_backup a path d1 = Some []"
    using open_backup_magic [of path d a "[]"] assms(1) by (simp add: empty_stream_null_def)
  with assms(1) show ?thesis
    by (simp add: identify_def backup_list_def restore_def empty_stream_null_def)
qed

lemma read_tests_returns: "stream_consumes a \<Longrightarrow> \<exists>r. read_tests a stream tests = Some r"
proof (induction "length stream" arbitrary: stream tests rule: less_induct)
  case less
  show ?case
  proof (cases "stream = []")
    case False
    let ?rest = "snd (getString a stream)"
    have "length (snd (getBytes a ?rest)) \<le> length ?rest" and "length ?rest < length stream"
      using less.prems False by (simp_all add: stream_consumes_def)
    then have "length (snd (getBytes a ?rest)) < length stream" by simp
    from less.hyps [OF this less.prems] False show ?thesis
      by (subst read_tests.simps) (simp add: Let_def)
  qed (simp add: read_tests.simps)
qed

lemma backup_list_returns: "stream_consumes a \<Longrightarrow> \<exists>r. backup_list a path d = Some r"
proof (cases "open_backup a path d")
  case (Some stream)
  assume "stream_consumes a"
  then obtain r where "read_tests a (snd (getString a stream)) [] = Some r" using read_tests_returns by blast
  with Some show ?thesis by (simp add: backup_list_def)
qed (simp add: backup_list_def)

lemma restore_returns: "stream_consumes a \<Longrightarrow> \<exists>r. restore a path root d = Some r"
proof (cases "open_backup a path d")
  case (Some stream)
  assume "stream_consumes a"
  then obtain r where "read_tests a (snd (getString a stream)) [] = Some r" using read_tests_returns by blast
  with Some show ?thesis by (cases r) (simp_all add: restore_def Let_def)
qed (simp add: restore_def)

lemma wrong_arguments: "length arguments \<noteq> 3 \<Longrightarrow> \<exists>out. hooqbackup_main a arguments d = Some (1, out, d)"
  by (cases arguments; cases "tl arguments"; cases "tl (tl arguments)"; cases "tl (tl (tl arguments))")
     (simp_all add: hooqbackup_main_def)


section \<open>A concrete data stream\<close>

text \<open>Lengths of four bytes, the most significant first; characters of two bytes.\<close>

definition be32 :: "nat \<Rightarrow> bytes" where
  "be32 n = [of_nat (n div 16777216 mod 256), of_nat (n div 65536 mod 256), of_nat (n div 256 mod 256), of_nat (n mod 256)]"

definition read32 :: "bytes \<Rightarrow> nat" where
  "read32 bs = foldl (\<lambda>n b. 256 * n + unat b) 0 (take 4 bs)"

fun utf16_decode :: "bytes \<Rightarrow> qtext" where
  "utf16_decode (h # l # bs) = char_of (unat l) # utf16_decode bs"
| "utf16_decode _ = []"

definition utf16 :: "qtext \<Rightarrow> bytes" where
  "utf16 s = concat (map (\<lambda>c. [0, of_nat (of_char c)]) s)"

definition take_block :: "bytes \<Rightarrow> (bytes \<times> bytes) option" where
  "take_block bs =
     (let n = read32 bs; r = drop 4 bs
      in if length bs < 4 \<or> length r < n then None else Some (take n r, drop n r))"

definition sample_archive :: archive_ops where
  "sample_archive = \<lparr>
     putString = (\<lambda>s. case s of None \<Rightarrow> be32 4294967295 | Some t \<Rightarrow> be32 (2 * length t) @ utf16 t),
     getString = (\<lambda>bs. if take 4 bs = be32 4294967295 then (None, drop 4 bs)
       else case take_block bs of None \<Rightarrow> (None, []) | Some (b, r) \<Rightarrow> (Some (utf16_decode b), r)),
     putBytes = (\<lambda>b. be32 (length b) @ b),
     getBytes = (\<lambda>bs. case take_block bs of None \<Rightarrow> ([], []) | Some (b, r) \<Rightarrow> (b, r)),
     qCompress = id,
     qUncompress = id\<rparr>"

lemma read32_be32:
  assumes "n < 4294967296"
  shows "read32 (be32 n @ r) = n"
proof -
  have "n div 256 div 256 = n div 65536" "n div 65536 div 256 = n div 16777216"
    by (simp_all add: div_mult2_eq [symmetric])
  moreover have small: "n div 16777216 < 256" using assms by linarith
  then have top: "n div 16777216 mod 256 = n div 16777216" by (rule mod_less)
  ultimately have "n div 16777216 mod 256 * 16777216 + n div 65536 mod 256 * 65536 + n div 256 mod 256 * 256 + n mod 256 = n"
    using div_mult_mod_eq [of n 256] div_mult_mod_eq [of "n div 256" 256] div_mult_mod_eq [of "n div 65536" 256]
    by linarith
  then show ?thesis by (simp add: read32_def be32_def unat_of_nat_byte top small algebra_simps)
qed

lemma length_be32 [simp]: "length (be32 n) = 4"
  by (simp add: be32_def)

lemma length_utf16 [simp]: "length (utf16 s) = 2 * length s"
  by (induction s) (simp_all add: utf16_def)

lemma utf16_reads_back: "utf16_decode (utf16 s) = s"
  by (induction s) (simp_all add: utf16_def unat_of_nat_byte of_char_less)

lemma take_block_block: "length b < 4294967296 \<Longrightarrow> take_block (be32 (length b) @ b @ r) = Some (b, r)"
  by (simp add: take_block_def read32_be32)

lemma be32_not_null: "n < 4294967295 \<Longrightarrow> be32 n \<noteq> be32 4294967295"
  using read32_be32 [of n "[]"] read32_be32 [of 4294967295 "[]"] by auto

lemma sample_archive_reads_back: "stream_reads_back sample_archive"
proof -
  have "getString sample_archive (putString sample_archive (Some s) @ r) = (Some s, r)" if "length s < 2 ^ 30" for s r
    using that take_block_block [of "utf16 s" r] be32_not_null [of "2 * length s"]
    by (simp add: sample_archive_def utf16_reads_back)
  moreover have "getBytes sample_archive (putBytes sample_archive b @ r) = (b, r)" if "length b < 2 ^ 31" for b r
    using that take_block_block [of b r] by (simp add: sample_archive_def)
  ultimately show ?thesis
    by (simp add: stream_reads_back_def) (simp add: sample_archive_def be32_def split: option.split)
qed

lemma take_block_rest: "take_block bs = Some (b, r) \<Longrightarrow> length r < length bs"
  by (auto simp: take_block_def Let_def split: if_splits)

lemma sample_archive_consumes: "stream_consumes sample_archive"
proof -
  have "length (drop 4 s) < length s" if "s \<noteq> []" for s :: bytes using that by simp
  then show ?thesis
    by (auto simp: stream_consumes_def sample_archive_def dest: take_block_rest split: option.split
        intro: less_imp_le)
qed

lemma sample_archive_empty: "empty_stream_null sample_archive"
  by (simp add: empty_stream_null_def sample_archive_def take_block_def be32_def)

text \<open>A test set with two scripts, and one with a script of a new test beside them.\<close>

definition two_scripts :: disk where
  "two_scripts = \<lparr>d_files = [(''./set/a.qs'', [1, 2]), (''./set/b.qs'', [])], d_dirs = [''.'', ''./set''], d_locked = []\<rparr>"

definition with_new_test :: disk where
  "with_new_test = \<lparr>d_files = [(''./set/61.hs'', [3]), (''./set/a.qs'', [1, 2])], d_dirs = [''.'', ''./set''], d_locked = []\<rparr>"

lemma sample_entries:
  "entryList two_scripts ''./set/'' = [''a.qs'', ''b.qs'']" "entryList with_new_test ''./set/'' = [''61.hs'', ''a.qs'']"
  by code_simp+

lemma sample_reads:
  "read_file two_scripts ''./set/a.qs'' = Some [1, 2]" "read_file two_scripts ''./set/b.qs'' = Some []"
  "read_file with_new_test ''./set/61.hs'' = Some [3]" "read_file with_new_test ''./set/a.qs'' = Some [1, 2]"
  by code_simp+

lemma sample_lengths:
  "length (putString sample_archive (Some t)) = 4 + 2 * length t" "length (putBytes sample_archive b) = 4 + length b"
  by (simp_all add: sample_archive_def)

lemma sample_fits:
  "backup_fits sample_archive ''set'' ''./set/'' two_scripts" "backup_fits sample_archive ''set'' ''./set/'' with_new_test"
  unfolding backup_fits_def sample_entries by (auto simp: sample_reads sample_lengths)

lemma sample_writable: "can_write two_scripts ''set.hqt''" "can_write with_new_test ''set.hqt''"
  by code_simp+

theorem backup_restored_witness:
  "\<exists>d1 d2. backup sample_archive ''set'' ''set.hqt'' ''.'' two_scripts = (True, d1) \<and>
    identify sample_archive ''set.hqt'' d1 = Some ''set'' \<and>
    restore sample_archive ''set.hqt'' ''copy'' d1 = Some (Some ''set'', d2) \<and>
    read_file d2 ''copy/set/a.qs'' = Some [1, 2]"
proof -
  have ok: "qm_ok (d_files two_scripts)" by code_simp
  have "\<not> prefix ''./set/'' ''set.hqt''" by code_simp
  moreover have "\<forall>n \<in> set (entryList two_scripts ''./set/''). suffix ''.qs'' n" by code_simp
  ultimately obtain d1 where b: "backup sample_archive ''set'' ''set.hqt'' ''.'' two_scripts = (True, d1)"
      "identify sample_archive ''set.hqt'' d1 = Some ''set''"
    and r: "\<And>root. let dir' = root @ ''/'' @ ''set'' @ ''/'' in
      (\<forall>n \<in> {''a.qs'', ''b.qs''}. can_write (mkpath dir' d1) (dir' @ n)) \<longrightarrow>
      (\<exists>d2. restore sample_archive ''set.hqt'' root d1 = Some (Some ''set'', d2) \<and>
        (\<forall>n \<in> {''a.qs'', ''b.qs''}. read_file d2 (dir' @ n) = read_file two_scripts (''./set/'' @ n)) \<and>
        (\<forall>x. (\<forall>n \<in> {''a.qs'', ''b.qs''}. x \<noteq> dir' @ n) \<longrightarrow> read_file d2 x = read_file d1 x))"
    using backup_restored [OF sample_archive_reads_back ok sample_writable(1), of "''./set/''" "''.''" "''set''"]
      sample_fits(1) unfolding sample_entries by auto
  have "d_dirs d1 = [''.'', ''./set'']" "d_locked d1 = []"
    using b(1) by (auto simp: backup_def two_scripts_def Let_def split: if_splits option.splits)
  then have "\<forall>n \<in> {''a.qs'', ''b.qs''}. can_write (mkpath (''copy'' @ ''/'' @ ''set'' @ ''/'') d1) ((''copy'' @ ''/'' @ ''set'' @ ''/'') @ n)"
    by (simp add: can_write_def mkpath_def strip_slash_def file_dir_def)
  with r [of "''copy''"] obtain d2 where "restore sample_archive ''set.hqt'' ''copy'' d1 = Some (Some ''set'', d2)"
      "read_file d2 ''copy/set/a.qs'' = read_file two_scripts ''./set/a.qs''"
    unfolding Let_def by auto
  with b show ?thesis by (auto simp: sample_reads)
qed

theorem other_files_spoil_backup_witness:
  "\<exists>d1. backup sample_archive ''set'' ''set.hqt'' ''.'' with_new_test = (True, d1) \<and>
    identify sample_archive ''set.hqt'' d1 = Some ''set'' \<and>
    backup_list sample_archive ''set.hqt'' d1 = Some [] \<and> restore sample_archive ''set.hqt'' ''.'' d1 = Some (None, d1)"
proof -
  have "\<not> prefix ''./set/'' ''set.hqt''" by code_simp
  moreover have "\<exists>n \<in> set (entryList with_new_test ''./set/''). \<not> suffix ''.qs'' n" by code_simp
  ultimately show ?thesis
    using other_files_spoil_backup [OF sample_archive_reads_back sample_writable(2) _ _ sample_fits(2), of "''.''" "''.''"]
    by simp
qed


end
