(* ===== verification/Object_Info.thy ===== *)
theory Object_Info
  imports Xml_Parse
begin

text \<open>
  The properties of an object on their way from the application to the script: the dump that
  \<open>injectedHooq/XmlPropertyDumper.cpp\<close> writes and its reader \<open>ObjectInformation::fromXml\<close>
  (\<open>hooq/ObjectInformation.cpp\<close>), and the value that \<open>Interpreter::fetchProperty\<close> takes from it.

  What is written is a list of XML tokens. The texts of floating-point numbers are Qt's:
  \<open>double_text\<close> (\<open>QVariant::toString\<close>) and \<open>text_double\<close> (\<open>QString::toDouble\<close>), over any type of
  such numbers.
\<close>

section \<open>Properties\<close>

datatype 'd prop_value =
    PBool bool
  | PInt int
  | PDouble 'd
  | PString qtext
  | POther

text \<open>A property of the meta-object: its name, the name of its type, and its value at the object.\<close>

record 'd meta_property =
  prop_name :: qtext
  prop_typeName :: qtext
  prop_read :: "'d prop_value"

record 'd double_ops =
  double_text :: "'d \<Rightarrow> qtext"
  text_double :: "qtext \<Rightarrow> 'd"

section \<open>XmlPropertyDumper\<close>

definition writeProperty :: "'d meta_property \<Rightarrow> qtext \<Rightarrow> xml_stream" where
  "writeProperty p value =
     [StartElement ''property'' [(''name'', prop_name p), (''type'', prop_typeName p)]] @
     (if value = [] then [] else [Characters value]) @ [EndElement ''property'']"

definition dump_property :: "qt \<Rightarrow> 'd double_ops \<Rightarrow> 'd meta_property \<Rightarrow> xml_stream" where
  "dump_property q f p = (case prop_read p of
     PBool b \<Rightarrow> writeProperty p (if b then ''true'' else ''false'')
   | PInt n \<Rightarrow> writeProperty p (qt_number q n)
   | PDouble x \<Rightarrow> writeProperty p (double_text f x)
   | PString s \<Rightarrow> writeProperty p s
   | POther \<Rightarrow> [])"

text \<open>\<open>None\<close>: the path of the object does not end.\<close>

definition dump :: "qt \<Rightarrow> 'd double_ops \<Rightarrow> qtree \<Rightarrow> objid \<Rightarrow> 'd meta_property list \<Rightarrow> xml_stream option" where
  "dump q f t x properties =
     map_option (\<lambda>path.
       [StartDocument, StartElement ''object'' [(''name'', objectName q t x), (''path'', path),
          (''class'', obj_className (tree_object t x))]] @
       concat (map (dump_property q f) properties) @ [EndElement ''object'', EndDocument])
     (objectPath q t x)"

section \<open>ObjectInformation\<close>

record 'd object_information =
  info_className :: qtext
  info_name :: qtext
  info_path :: qtext
  info_properties :: "'d prop_value qmap"

definition new_ObjectInformation :: "'d object_information" where
  "new_ObjectInformation = \<lparr>info_className = [], info_name = [], info_path = [], info_properties = []\<rparr>"

text \<open>The value of a \<open>property\<close> element; \<open>None\<close> for a type name it does not know.\<close>

definition property_value :: "qt \<Rightarrow> 'd double_ops \<Rightarrow> qtext \<Rightarrow> qtext \<Rightarrow> 'd prop_value option" where
  "property_value q f typeName value =
     (if typeName = ''bool'' then Some (PBool (value = ''true''))
      else if typeName = ''QString'' then Some (PString value)
      else if typeName = ''int'' then Some (PInt (qt_toInt q value))
      else if typeName = ''double'' then Some (PDouble (text_double f value))
      else None)"

definition read_property ::
    "qt \<Rightarrow> 'd double_ops \<Rightarrow> attributes \<Rightarrow> qtext \<Rightarrow> 'd object_information \<Rightarrow> 'd object_information" where
  "read_property q f atts value info =
     (case property_value q f (qs_text (attr atts ''type'')) value of
        None \<Rightarrow> info
      | Some v \<Rightarrow> info\<lparr>info_properties := qm_insert (qs_text (attr atts ''name'')) v (info_properties info)\<rparr>)"

text \<open>The loop over the tokens.\<close>

function read_information ::
    "qt \<Rightarrow> 'd double_ops \<Rightarrow> xml_stream \<Rightarrow> 'd object_information \<Rightarrow> 'd object_information" where
  "read_information q f [] info = info"
| "read_information q f (t # ts) info = (case t of
     StartElement name atts \<Rightarrow>
       if name = ''object'' then
         read_information q f ts (info\<lparr>info_name := qs_text (attr atts ''name''),
           info_path := qs_text (attr atts ''path''), info_className := qs_text (attr atts ''class'')\<rparr>)
       else if name = ''property'' then
         read_information q f (snd (readElementText ts)) (read_property q f atts (fst (readElementText ts)) info)
       else read_information q f (snd (readElementText ts)) info
   | _ \<Rightarrow> read_information q f ts info)"
  by pat_completeness auto
termination
  by (relation "measure (\<lambda>(q, f, ts, info). length ts)") (auto simp: less_Suc_eq_le readElementText_length)

definition fromXml :: "qt \<Rightarrow> 'd double_ops \<Rightarrow> xml_stream \<Rightarrow> 'd object_information" where
  "fromXml q f ts = read_information q f ts new_ObjectInformation"

text \<open>\<open>m_dumpedObject->properties().value(name)\<close> in \<open>fetchProperty\<close>: \<open>None\<close> is an invalid variant.\<close>

definition property_of :: "'d object_information \<Rightarrow> qtext \<Rightarrow> 'd prop_value option" where
  "property_of info name = map_of (info_properties info) name"

section \<open>What arrives\<close>

text \<open>What is left of a property on the other side, by its type name.\<close>

definition arrives :: "qt \<Rightarrow> 'd double_ops \<Rightarrow> 'd meta_property \<Rightarrow> (qtext \<times> 'd prop_value) list" where
  "arrives q f p = (case prop_read p of
     PBool b \<Rightarrow> if prop_typeName p = ''bool'' then [(prop_name p, PBool b)] else []
   | PInt n \<Rightarrow> if prop_typeName p = ''int'' then [(prop_name p, PInt n)] else []
   | PDouble x \<Rightarrow> if prop_typeName p = ''double'' then [(prop_name p, PDouble (text_double f (double_text f x)))] else []
   | PString s \<Rightarrow> if prop_typeName p = ''QString'' then [(prop_name p, PString s)] else []
   | POther \<Rightarrow> [])"

text \<open>
  The type name belongs to the value, or (for an enumeration, which Qt reports as an integer) is
  none of the four names that the reader knows.
\<close>

definition well_typed :: "'d meta_property \<Rightarrow> bool" where
  "well_typed p = (let n = prop_typeName p in case prop_read p of
     PBool b \<Rightarrow> n = ''bool''
   | PInt i \<Rightarrow> is_int i \<and> (n = ''int'' \<or> n \<notin> {''bool'', ''QString'', ''double''})
   | PDouble x \<Rightarrow> n = ''double''
   | PString s \<Rightarrow> n = ''QString''
   | POther \<Rightarrow> True)"

lemma readElementText_value:
  "readElementText ((if v = [] then [] else [Characters v]) @ EndElement n # ts) = (v, ts)"
  by simp

lemma read_written_property:
  "read_information q f (writeProperty p value @ ts) info =
     read_information q f ts (read_property q f [(''name'', prop_name p), (''type'', prop_typeName p)] value info)"
  by (simp add: writeProperty_def)

lemma read_dumped_property:
  assumes "number_reads_back q" and "well_typed p"
  shows "read_information q f (dump_property q f p @ ts) info =
    read_information q f ts (info\<lparr>info_properties := fold (\<lambda>(k, v). qm_insert k v) (arrives q f p) (info_properties info)\<rparr>)"
proof (cases "prop_read p")
  case (PInt n)
  with assms show ?thesis
    by (cases "prop_typeName p = ''int''")
       (simp_all add: dump_property_def read_written_property read_property_def property_value_def
         arrives_def well_typed_def attr_def Let_def)
qed (use assms in \<open>simp_all add: dump_property_def read_written_property read_property_def property_value_def
    arrives_def well_typed_def attr_def Let_def\<close>)

lemma read_dumped_properties:
  assumes "number_reads_back q" and "\<forall>p \<in> set ps. well_typed p"
  shows "read_information q f (concat (map (dump_property q f) ps) @ ts) info =
    read_information q f ts
      (info\<lparr>info_properties := fold (\<lambda>(k, v). qm_insert k v) (concat (map (arrives q f) ps)) (info_properties info)\<rparr>)"
  using assms(2)
proof (induction ps arbitrary: info)
  case (Cons p ps)
  then show ?case by (simp add: read_dumped_property [OF assms(1)])
qed simp

lemma arrives_names: "map fst (arrives q f p) \<in> {[], [prop_name p]}"
  by (simp add: arrives_def split: prop_value.split)

lemma names_arrive: "set (map fst (concat (map (arrives q f) ps))) \<subseteq> prop_name ` set ps"
proof (induction ps)
  case (Cons p ps)
  then show ?case using arrives_names [of q f p] by auto
qed simp

lemma distinct_arrives: "distinct (map prop_name ps) \<Longrightarrow> distinct (map fst (concat (map (arrives q f) ps)))"
proof (induction ps)
  case (Cons p ps)
  have "prop_name p \<notin> set (map fst (concat (map (arrives q f) ps)))"
    using Cons.prems names_arrive [of q f ps] by auto
  with Cons arrives_names [of q f p] show ?case by (auto simp del: set_map set_concat)
qed simp

lemma arrives_lookup:
  "distinct (map prop_name ps) \<Longrightarrow> p \<in> set ps \<Longrightarrow>
    map_of (concat (map (arrives q f) ps)) (prop_name p) = map_of (arrives q f p) (prop_name p)"
proof (induction ps)
  case (Cons r ps)
  have foreign: "map_of (arrives q f r) k = None" if "k \<noteq> prop_name r" for k
    using arrives_names [of q f r] that by (cases "arrives q f r") auto
  show ?case
  proof (cases "p = r")
    case True
    have "prop_name r \<notin> set (map fst (concat (map (arrives q f) ps)))"
      using Cons.prems(1) names_arrive [of q f ps] by auto
    then have "map_of (concat (map (arrives q f) ps)) (prop_name r) = None"
      by (simp add: map_of_eq_None_iff)
    with True show ?thesis by (simp add: map_add_def split: option.split)
  next
    case False
    with Cons.prems have "p \<in> set ps" and "prop_name p \<noteq> prop_name r" by (auto simp: image_iff)
    with False Cons foreign [of "prop_name p"] show ?thesis by (simp add: map_add_def split: option.split)
  qed
qed simp

lemma fromXml_dump:
  assumes "number_reads_back q" and "\<forall>p \<in> set ps. well_typed p" and "dump q f t x ps = Some ts"
    and "objectPath q t x = Some path"
  shows "fromXml q f ts = \<lparr>info_className = obj_className (tree_object t x), info_name = objectName q t x,
      info_path = path, info_properties = qm_of (concat (map (arrives q f) ps))\<rparr>"
  using assms(3,4)
  by (auto simp: dump_def fromXml_def new_ObjectInformation_def attr_def qm_of_def
      read_dumped_properties [OF assms(1,2)])

lemma dumped_property:
  assumes "number_reads_back q" and "\<forall>p \<in> set ps. well_typed p" and "distinct (map prop_name ps)"
    and "dump q f t x ps = Some ts" and "p \<in> set ps"
  shows "property_of (fromXml q f ts) (prop_name p) =
    (case prop_read p of
       PInt n \<Rightarrow> if prop_typeName p = ''int'' then Some (PInt n) else None
     | PDouble d \<Rightarrow> Some (PDouble (text_double f (double_text f d)))
     | POther \<Rightarrow> None
     | v \<Rightarrow> Some v)"
proof -
  obtain path where path: "objectPath q t x = Some path" using assms(4) by (auto simp: dump_def)
  note info = fromXml_dump [OF assms(1,2,4) path]
  have distinct: "distinct (map fst (concat (map (arrives q f) ps)))"
    using assms(3) by (rule distinct_arrives)
  have "property_of (fromXml q f ts) (prop_name p) = map_of (arrives q f p) (prop_name p)"
    using arrives_lookup [OF assms(3,5), of q f] map_of_fold_insert [OF distinct, of "[]"]
    by (simp add: info property_of_def qm_of_def)
  also have "\<dots> = (case prop_read p of
       PInt n \<Rightarrow> if prop_typeName p = ''int'' then Some (PInt n) else None
     | PDouble d \<Rightarrow> Some (PDouble (text_double f (double_text f d)))
     | POther \<Rightarrow> None
     | v \<Rightarrow> Some v)"
    using assms(2,5) by (auto simp: arrives_def well_typed_def Let_def split: prop_value.split)
  finally show ?thesis .
qed

text \<open>
  C29. The properties of a dumped or picked object arrive: \<open>fromXml\<close> reads from what \<open>dump\<close> writes
  the name, path and class of the object, and a script that asks for a property of type \<open>bool\<close>,
  \<open>int\<close>, \<open>QString\<close> or \<open>double\<close> gets its value at the object (a \<open>double\<close> as exact as its text
  is); for an enumeration or any other type it gets nothing.
\<close>

theorem dumped_properties_arrive:
  assumes "number_reads_back q" and "\<forall>p \<in> set ps. well_typed p" and "distinct (map prop_name ps)"
    and "dump q f t x ps = Some ts"
  shows "objectPath q t x = Some (info_path (fromXml q f ts)) \<and>
    info_name (fromXml q f ts) = objectName q t x \<and>
    info_className (fromXml q f ts) = obj_className (tree_object t x) \<and>
    (\<forall>p \<in> set ps. property_of (fromXml q f ts) (prop_name p) =
      (case prop_read p of
         PInt n \<Rightarrow> if prop_typeName p = ''int'' then Some (PInt n) else None
       | PDouble d \<Rightarrow> Some (PDouble (text_double f (double_text f d)))
       | POther \<Rightarrow> None
       | v \<Rightarrow> Some v))"
proof -
  obtain path where path: "objectPath q t x = Some path" using assms(4) by (auto simp: dump_def)
  with fromXml_dump [OF assms(1,2,4) path] dumped_property [OF assms] show ?thesis by simp
qed

definition text_doubles :: "qtext double_ops" where
  "text_doubles = \<lparr>double_text = id, text_double = id\<rparr>"

definition sample_properties :: "qtext meta_property list" where
  "sample_properties =
     [\<lparr>prop_name = ''visible'', prop_typeName = ''bool'', prop_read = PBool True\<rparr>,
      \<lparr>prop_name = ''width'', prop_typeName = ''int'', prop_read = PInt 640\<rparr>,
      \<lparr>prop_name = ''policy'', prop_typeName = ''Policy'', prop_read = PInt 2\<rparr>]"

theorem dumped_properties_arrive_witness:
  "\<exists>ts. dump qt_decimal text_doubles sample_tree 0 sample_properties = Some ts \<and>
     property_of (fromXml qt_decimal text_doubles ts) ''width'' = Some (PInt 640) \<and>
     property_of (fromXml qt_decimal text_doubles ts) ''policy'' = None"
proof -
  have "objectPath qt_decimal sample_tree 0 \<noteq> None" by code_simp
  then obtain ts where ts: "dump qt_decimal text_doubles sample_tree 0 sample_properties = Some ts"
    by (auto simp: dump_def)
  have "\<forall>p \<in> set sample_properties. well_typed p"
    by (simp add: sample_properties_def well_typed_def is_int_def)
  moreover have "distinct (map prop_name sample_properties)" by (simp add: sample_properties_def)
  ultimately have "\<forall>p \<in> set sample_properties. property_of (fromXml qt_decimal text_doubles ts) (prop_name p) =
      (case prop_read p of
         PInt n \<Rightarrow> if prop_typeName p = ''int'' then Some (PInt n) else None
       | PDouble d \<Rightarrow> Some (PDouble (text_double text_doubles (double_text text_doubles d)))
       | POther \<Rightarrow> None
       | v \<Rightarrow> Some v)"
    using dumped_properties_arrive [OF qt_decimal_reads_back _ _ ts] by blast
  then show ?thesis using ts by (simp add: sample_properties_def)
qed

end
