(* ===== verification/Script_Editor.thy ===== *)
theory Script_Editor
  imports Test_Files Object_Info Hooq_Interpreter
begin

text \<open>
  The script editor (\<open>hooq/ScriptEditor.cpp\<close>) with the breakpoints and highlighted line of its
  text widget (\<open>uilib/CodeEditor.cpp\<close>): the script on disk and in the editor, breakpoints and
  pausing, errors of a run, and the lines inserted for picked properties. The answer to a message
  box is an argument. A slot that waits while the editor is paused leaves a state with
  \<open>e_paused\<close>; \<open>e_resume\<close> holds the line it goes on with.
\<close>

section \<open>State\<close>

datatype editor_mode = Headless | Interactive

datatype editor_signal = StartRequested | ExceptionThrown qtext "qtext list"

record editor =
  e_text :: qtext
  e_dirty :: bool
  e_filePath :: qstring
  e_mode :: editor_mode
  e_paused :: bool
  e_currentLine :: int
  e_resume :: "int option"
  e_breakpoints :: "int list"
  e_highlight :: "int option"
  e_backtraceShown :: bool
  e_errorShown :: bool
  e_errorText :: qtext
  e_aborted :: bool
  e_signals :: "editor_signal list"

definition new_ScriptEditor :: editor where
  "new_ScriptEditor = \<lparr>e_text = [], e_dirty = False, e_filePath = None, e_mode = Interactive,
     e_paused = False, e_currentLine = -1, e_resume = None, e_breakpoints = [], e_highlight = None,
     e_backtraceShown = False, e_errorShown = False, e_errorText = [], e_aborted = False, e_signals = []\<rparr>"

definition toggleBreakpoint :: "int \<Rightarrow> editor \<Rightarrow> editor" where
  "toggleBreakpoint line E =
     (if line \<in> set (e_breakpoints E) then E\<lparr>e_breakpoints := filter (\<lambda>l. l \<noteq> line) (e_breakpoints E)\<rparr>
      else E\<lparr>e_breakpoints := line # e_breakpoints E\<rparr>)"

definition clearBreakpoints :: "editor \<Rightarrow> editor" where
  "clearBreakpoints E = E\<lparr>e_breakpoints := []\<rparr>"

definition clearLineHighlight :: "editor \<Rightarrow> editor" where
  "clearLineHighlight E = E\<lparr>e_highlight := None\<rparr>"

definition highlightLine :: "int \<Rightarrow> editor \<Rightarrow> editor" where
  "highlightLine line E = E\<lparr>e_highlight := Some line\<rparr>"

section \<open>reset\<close>

abbreviation (input) BacktraceUi :: nat where "BacktraceUi \<equiv> 0"
abbreviation (input) Breakpoints :: nat where "Breakpoints \<equiv> 1"
abbreviation (input) CurrentLineUi :: nat where "CurrentLineUi \<equiv> 2"
abbreviation (input) ErrorUi :: nat where "ErrorUi \<equiv> 3"
abbreviation (input) DirtyState :: nat where "DirtyState \<equiv> 4"

text \<open>The features are the bits of an \<open>int\<close>.\<close>

definition RuntimeFeatures :: flags where "RuntimeFeatures = 0b01101"
definition DirtyFeature :: flags where "DirtyFeature = 0b10000"
definition AllFeatures :: flags where "AllFeatures = -1"

definition reset :: "flags \<Rightarrow> editor \<Rightarrow> editor" where
  "reset features E =
     (if features = 0 then E
      else
        let E1 = (if bit features BacktraceUi then E\<lparr>e_backtraceShown := False\<rparr> else E);
            E2 = (if bit features Breakpoints then clearBreakpoints E1 else E1);
            E3 = (if bit features CurrentLineUi then clearLineHighlight E2 else E2);
            E4 = (if bit features ErrorUi then E3\<lparr>e_errorShown := False\<rparr> else E3)
        in if bit features DirtyState then E4\<lparr>e_dirty := False\<rparr> else E4)"

definition markAsDirty :: "editor \<Rightarrow> editor" where
  "markAsDirty E = E\<lparr>e_dirty := True\<rparr>"

section \<open>Files\<close>

text \<open>Typing: the text widget reports every change of its text.\<close>

definition edit_text :: "qtext \<Rightarrow> editor \<Rightarrow> editor" where
  "edit_text s E = markAsDirty (E\<lparr>e_text := s\<rparr>)"

text \<open>\<open>save\<close> does not look at whether the file could be opened.\<close>

definition save :: "platform \<Rightarrow> editor \<Rightarrow> disk \<Rightarrow> editor \<times> disk" where
  "save w E d =
     (let path = qs_text (e_filePath E);
          d' = (if can_write d path then write_file path (toUtf8 w (e_text E)) d else d)
      in (reset DirtyFeature E, d'))"

text \<open>\<open>revert\<close> clears \<open>m_filePath\<close> and then calls \<open>open(m_filePath)\<close>, which returns at its first test.\<close>

definition revert :: "editor \<Rightarrow> editor" where
  "revert E = (reset DirtyFeature E)\<lparr>e_filePath := None\<rparr>"

datatype answer = Save | Discard | Cancel

definition shouldCancelDocumentChange ::
    "platform \<Rightarrow> answer \<Rightarrow> editor \<Rightarrow> disk \<Rightarrow> bool \<times> editor \<times> disk" where
  "shouldCancelDocumentChange w a E d =
     (if \<not> e_dirty E then (False, E, d)
      else if e_filePath E = None then (False, reset DirtyFeature E, d)
      else case a of
        Cancel \<Rightarrow> (True, E, d)
      | Discard \<Rightarrow> (False, revert E, d)
      | Save \<Rightarrow> (False, save w E d))"

definition file_text :: "platform \<Rightarrow> disk \<Rightarrow> qtext \<Rightarrow> qtext" where
  "file_text w d path = fromUtf8 w (case read_file d path of None \<Rightarrow> [] | Some b \<Rightarrow> b)"

definition open_script :: "platform \<Rightarrow> answer \<Rightarrow> qtext \<Rightarrow> editor \<Rightarrow> disk \<Rightarrow> bool \<times> editor \<times> disk" where
  "open_script w a path E d =
     (if qs_eq (Some path) (e_filePath E) then (True, E, d)
      else
        let (cancelled, E1, d1) = shouldCancelDocumentChange w a E d
        in if cancelled then (False, E1, d1)
           else (True, reset AllFeatures (edit_text (file_text w d1 path) (E1\<lparr>e_filePath := Some path\<rparr>)), d1))"

text \<open>\<open>closeEvent\<close>: whether the window closes.\<close>

definition closeEvent :: "platform \<Rightarrow> answer \<Rightarrow> editor \<Rightarrow> disk \<Rightarrow> bool \<times> editor \<times> disk" where
  "closeEvent w a E d =
     (let (cancelled, E1, d1) = shouldCancelDocumentChange w a E d
      in if cancelled then (False, E1, d1) else (True, E1\<lparr>e_filePath := None\<rparr>, d1))"

section \<open>Running\<close>

definition setPaused :: "bool \<Rightarrow> editor \<Rightarrow> editor" where
  "setPaused b E = E\<lparr>e_paused := b\<rparr>"

text \<open>\<open>pause()\<close> up to the loop that waits while the editor is paused.\<close>

definition pause :: "editor \<Rightarrow> editor" where
  "pause E = (if e_mode E = Interactive then setPaused True E else E\<lparr>e_aborted := True\<rparr>)"

text \<open>\<open>raiseError\<close>; the script context is given by the line numbers and the lines of its backtrace.\<close>

definition raiseError :: "int list \<Rightarrow> qtext list \<Rightarrow> qtext \<Rightarrow> editor \<Rightarrow> editor" where
  "raiseError contextLines backtrace text E =
     (let E1 = (if e_mode E = Interactive
                then highlightLine (lineNumber contextLines)
                       (E\<lparr>e_errorText := text, e_errorShown := True, e_backtraceShown := True\<rparr>)
                else E)
      in E1\<lparr>e_signals := e_signals E1 @ [ExceptionThrown text backtrace]\<rparr>)"

definition exceptionThrow :: "int list \<Rightarrow> qtext list \<Rightarrow> qtext \<Rightarrow> bool \<Rightarrow> editor \<Rightarrow> editor" where
  "exceptionThrow contextLines backtrace exc hasHandler E =
     (if \<not> hasHandler then raiseError contextLines backtrace (qarg ''Uncaught exception: %1'' exc) E else E)"

definition handleApplicationExit :: "int list \<Rightarrow> qtext list \<Rightarrow> editor \<Rightarrow> editor" where
  "handleApplicationExit contextLines backtrace E =
     raiseError contextLines backtrace ''Application unexpectedly exit.'' E"

definition monospace :: qtext where
  "monospace = ''<span style='' @ [CHR 0x27] @ ''font-family: monospace'' @ [CHR 0x27] @ ''>%1</span>''"

definition editor_objectNotFound :: "int list \<Rightarrow> qtext list \<Rightarrow> qtext \<Rightarrow> editor \<Rightarrow> editor" where
  "editor_objectNotFound contextLines backtrace path E =
     pause (raiseError contextLines backtrace
       (qarg (''Object not found: '' @ [CHR 0x27] @ monospace @ [CHR 0x27]) path) E)"

definition pauseOnLine :: "int \<Rightarrow> editor \<Rightarrow> editor" where
  "pauseOnLine line E = pause (highlightLine line E)"

definition positionChange :: "int \<Rightarrow> editor \<Rightarrow> editor" where
  "positionChange line E =
     (let E1 = reset RuntimeFeatures E in
      if e_currentLine E1 \<noteq> line \<and> line \<in> set (e_breakpoints E1) \<and> e_mode E1 = Interactive
      then (pauseOnLine line E1)\<lparr>e_resume := Some line\<rparr>
      else E1\<lparr>e_currentLine := line\<rparr>)"

text \<open>The rest of \<open>positionChange\<close>, when the loop of \<open>pause\<close> sees that the editor is not paused any more.\<close>

definition resume :: "editor \<Rightarrow> editor" where
  "resume E = (case e_resume E of
     Some line \<Rightarrow> if e_paused E then E else (clearLineHighlight E)\<lparr>e_currentLine := line, e_resume := None\<rparr>
   | None \<Rightarrow> E)"

definition run :: "editor \<Rightarrow> editor" where
  "run E =
     (let E1 = reset RuntimeFeatures E
      in if e_paused E1 then setPaused False E1 else E1\<lparr>e_signals := e_signals E1 @ [StartRequested]\<rparr>)"

definition stop :: "editor \<Rightarrow> editor" where
  "stop E = reset RuntimeFeatures (setPaused False (E\<lparr>e_aborted := True\<rparr>))"

section \<open>Lines for picked properties\<close>

definition escapeValue :: "qt \<Rightarrow> 'd prop_value \<Rightarrow> qtext" where
  "escapeValue q v = (case v of
     PBool b \<Rightarrow> if b then ''true'' else ''false''
   | PInt n \<Rightarrow> qt_number q n
   | PString s \<Rightarrow> qarg ([dquote] @ ''%1'' @ [dquote]) (escapeString s)
   | _ \<Rightarrow> [])"

text \<open>The position of a block of the document; 0 for one that does not exist.\<close>

definition block_position :: "qtext \<Rightarrow> int \<Rightarrow> nat" where
  "block_position s n =
     (let blocks = qsplit [newline] s
      in if 0 \<le> n \<and> n < int (length blocks)
         then sum_list (map (\<lambda>b. length b + 1) (take (nat n) blocks)) else 0)"

definition insertLine :: "qtext \<Rightarrow> editor \<Rightarrow> editor" where
  "insertLine s E =
     (let k = block_position (e_text E) (e_currentLine E)
      in edit_text (take k (e_text E) @ s @ drop k (e_text E)) E)"

definition fetch_template :: qtext where
  "fetch_template = ''objectFromPath('' @ [dquote] @ ''%1'' @ [dquote] @ '').property('' @ [dquote] @ ''%2'' @
     [dquote] @ '')'' @ [newline]"

definition compare_template :: qtext where
  "compare_template = ''compare(objectFromPath('' @ [dquote] @ ''%1'' @ [dquote] @ '').property('' @ [dquote] @
     ''%2'' @ [dquote] @ ''), %3);'' @ [newline]"

definition insertPropertyFetch :: "qtext \<Rightarrow> qtext \<Rightarrow> editor \<Rightarrow> editor" where
  "insertPropertyFetch path property E = insertLine (qarg (qarg fetch_template path) property) E"

definition insertPropertyAssert :: "qt \<Rightarrow> qtext \<Rightarrow> qtext \<Rightarrow> 'd prop_value \<Rightarrow> editor \<Rightarrow> editor" where
  "insertPropertyAssert q path property v E =
     insertLine (qarg (qarg (qarg compare_template path) property) (escapeValue q v)) E"

section \<open>The script in the editor and on disk\<close>

lemma dirty_feature:
  "reset DirtyFeature E = E\<lparr>e_dirty := False\<rparr>"
proof -
  have bits: "bit DirtyFeature n = (n = 4)" if "n \<le> 4" for n
  proof -
    from that have "n \<in> {0, 1, 2, 3, 4}" by auto
    then show ?thesis by (auto simp: DirtyFeature_def bit_simps)
  qed
  then show ?thesis by (simp add: reset_def Let_def bits) (simp add: DirtyFeature_def)
qed

lemma all_features:
  "reset AllFeatures E = E\<lparr>e_backtraceShown := False, e_breakpoints := [], e_highlight := None,
     e_errorShown := False, e_dirty := False\<rparr>"
  by (simp add: reset_def AllFeatures_def Let_def clearBreakpoints_def clearLineHighlight_def)

lemma runtime_features:
  "reset RuntimeFeatures E = E\<lparr>e_backtraceShown := False, e_highlight := None, e_errorShown := False\<rparr>"
proof -
  have bits: "bit RuntimeFeatures n = (n \<in> {0, 2, 3})" if "n \<le> 4" for n
  proof -
    from that have "n \<in> {0, 1, 2, 3, 4}" by auto
    then show ?thesis by (auto simp: RuntimeFeatures_def bit_simps)
  qed
  then show ?thesis by (simp add: reset_def Let_def bits clearLineHighlight_def) (simp add: RuntimeFeatures_def)
qed

lemmas editor_features = dirty_feature all_features runtime_features

text \<open>What a file dialog, a message box or a script run does to the editor, step by step.\<close>

definition savable :: "editor \<Rightarrow> disk \<Rightarrow> bool" where
  "savable E d \<longleftrightarrow> (\<forall>p. e_filePath E = Some p \<longrightarrow> can_write d p)"

inductive editing :: "platform \<Rightarrow> editor \<Rightarrow> disk \<Rightarrow> bool" for w where
  ed_start: "editing w new_ScriptEditor d"
| ed_edit: "editing w E d \<Longrightarrow> editing w (edit_text s E) d"
| ed_save: "editing w E d \<Longrightarrow> savable E d \<Longrightarrow> save w E d = (E', d') \<Longrightarrow> editing w E' d'"
| ed_open: "editing w E d \<Longrightarrow> a = Save \<longrightarrow> savable E d \<Longrightarrow> open_script w a path E d = (b, E', d') \<Longrightarrow>
    editing w E' d'"
| ed_close: "editing w E d \<Longrightarrow> a = Save \<longrightarrow> savable E d \<Longrightarrow> closeEvent w a E d = (b, E', d') \<Longrightarrow>
    editing w E' d'"
| ed_revert: "editing w E d \<Longrightarrow> editing w (revert E) d"
| ed_insert: "editing w E d \<Longrightarrow> editing w (insertLine s E) d"
| ed_position: "editing w E d \<Longrightarrow> editing w (positionChange line E) d"
| ed_resume: "editing w E d \<Longrightarrow> editing w (resume E) d"
| ed_run: "editing w E d \<Longrightarrow> editing w (run E) d"
| ed_stop: "editing w E d \<Longrightarrow> editing w (stop E) d"
| ed_exception: "editing w E d \<Longrightarrow> editing w (exceptionThrow ls bt e handled E) d"
| ed_not_found: "editing w E d \<Longrightarrow> editing w (editor_objectNotFound ls bt path E) d"
| ed_breakpoint: "editing w E d \<Longrightarrow> editing w (toggleBreakpoint line E) d"

definition shows_file :: "platform \<Rightarrow> editor \<Rightarrow> disk \<Rightarrow> bool" where
  "shows_file w E d \<longleftrightarrow> e_dirty E \<or> (\<forall>p. e_filePath E = Some p \<longrightarrow> e_text E = file_text w d p)"

lemma shows_file_cong:
  "e_dirty E' = e_dirty E \<Longrightarrow> e_filePath E' = e_filePath E \<Longrightarrow> e_text E' = e_text E \<Longrightarrow>
    shows_file w E' d = shows_file w E d"
  by (simp add: shows_file_def)

text \<open>What a run of a script does to the editor leaves the text and the file alone.\<close>

lemmas editor_run_defs = positionChange_def resume_def run_def stop_def exceptionThrow_def
  editor_objectNotFound_def toggleBreakpoint_def raiseError_def pause_def pauseOnLine_def setPaused_def
  highlightLine_def clearLineHighlight_def editor_features

lemma run_keeps_file:
  "shows_file w (positionChange line E) d = shows_file w E d"
  "shows_file w (resume E) d = shows_file w E d"
  "shows_file w (run E) d = shows_file w E d"
  "shows_file w (stop E) d = shows_file w E d"
  "shows_file w (exceptionThrow ls bt e handled E) d = shows_file w E d"
  "shows_file w (editor_objectNotFound ls bt path E) d = shows_file w E d"
  "shows_file w (toggleBreakpoint line E) d = shows_file w E d"
  by (rule shows_file_cong; simp add: editor_run_defs Let_def split: option.split)+

lemma typing_shows_file:
  "shows_file w new_ScriptEditor d" "shows_file w (edit_text s E) d" "shows_file w (insertLine s E) d"
  "shows_file w (revert E) d"
  by (simp_all add: shows_file_def new_ScriptEditor_def edit_text_def markAsDirty_def insertLine_def Let_def revert_def)

lemma save_shows_file:
  assumes "\<And>s. fromUtf8 w (toUtf8 w s) = s" and "savable E d" and "save w E d = (E', d')"
  shows "shows_file w E' d'"
proof (cases "e_filePath E")
  case (Some p)
  with assms show ?thesis
    by (auto simp: shows_file_def save_def Let_def dirty_feature file_text_def savable_def files.fetch_put)
qed (use assms(3) in \<open>auto simp: shows_file_def save_def Let_def dirty_feature\<close>)

lemma change_shows_file:
  assumes "\<And>s. fromUtf8 w (toUtf8 w s) = s" and "a = Save \<longrightarrow> savable E d" and "shows_file w E d"
    and "shouldCancelDocumentChange w a E d = (c, E', d')"
  shows "shows_file w E' d'"
proof (cases "e_dirty E \<and> e_filePath E \<noteq> None \<and> a = Save")
  case True
  with assms(4) have "save w E d = (E', d')"
    by (auto simp: shouldCancelDocumentChange_def)
  with assms(1,2) True show ?thesis by (blast intro: save_shows_file)
next
  case False
  with assms(3,4) show ?thesis
    by (auto simp: shouldCancelDocumentChange_def shows_file_def dirty_feature revert_def
        split: if_splits answer.splits)
qed

lemma open_shows_file:
  assumes "\<And>s. fromUtf8 w (toUtf8 w s) = s" and "a = Save \<longrightarrow> savable E d" and "shows_file w E d"
    and "open_script w a path E d = (b, E', d')"
  shows "shows_file w E' d'"
proof (cases "qs_eq (Some path) (e_filePath E)")
  case False
  obtain c E1 d1 where c: "shouldCancelDocumentChange w a E d = (c, E1, d1)" by (metis prod_cases3)
  from change_shows_file [OF assms(1-3) c] assms(4) False c show ?thesis
    by (auto simp: open_script_def shows_file_def all_features edit_text_def markAsDirty_def split: if_splits)
qed (use assms(3,4) in \<open>simp add: open_script_def\<close>)


text \<open>
  \<open>Discard Changes\<close> discards nothing: the edited text stays, only the file is forgotten.
  What is typed afterwards is lost without a question at the next \<open>open\<close>, whatever the answer
  to the question would be, and cannot be saved.
\<close>

lemma discard_keeps_text:
  "e_text (revert E) = e_text E \<and> \<not> e_dirty (revert E) \<and> e_filePath (revert E) = None \<and>
   snd (save w (edit_text s (revert E)) d) = d \<and>
   open_script w Save (c # path) (edit_text s (revert E)) d =
     (True, reset AllFeatures ((revert E)\<lparr>e_text := file_text w d (c # path), e_filePath := Some (c # path)\<rparr>), d)"
  by (simp add: revert_def dirty_feature save_def Let_def can_write_def edit_text_def markAsDirty_def
      open_script_def shouldCancelDocumentChange_def all_features)

text \<open>A script that is opened, changed and saved.\<close>

definition editor_disk :: disk where
  "editor_disk = \<lparr>d_files = [(''./a.qs'', [0x61])], d_dirs = [''.''], d_locked = []\<rparr>"


text \<open>The parts of the template for a comparison.\<close>

definition compare_path :: qtext where
  "compare_path = ''compare(objectFromPath('' @ [dquote]"

definition compare_name :: qtext where
  "compare_name = [dquote] @ '').property('' @ [dquote]"

definition compare_value :: qtext where
  "compare_value = [dquote] @ ''), ''"

definition compare_end :: qtext where
  "compare_end = '');'' @ [newline]"

lemmas compare_parts = compare_path_def compare_name_def compare_value_def compare_end_def

lemma compare_parts_plain [simp]:
  "percent \<notin> set compare_path" "percent \<notin> set compare_name" "percent \<notin> set compare_value" "percent \<notin> set compare_end"
  "compare_name \<noteq> []" "compare_value \<noteq> []" "compare_end \<noteq> []"
  "digit_value (hd compare_name) = None" "digit_value (hd compare_value) = None" "digit_value (hd compare_end) = None"
  by (simp_all add: compare_parts digit_value_def)

lemma compare_template_parts:
  "compare_template = compare_path @ percent # CHR ''1'' # compare_name @ percent # CHR ''2'' # compare_value @
     percent # CHR ''3'' # compare_end"
  by (simp add: compare_template_def compare_parts)

lemma compare_filled:
  assumes "percent \<notin> set path" and "percent \<notin> set name"
  shows "qarg (qarg (qarg compare_template path) name) v =
    compare_path @ path @ compare_name @ name @ compare_value @ v @ compare_end"
proof -
  let ?three = "percent # CHR ''3'' # compare_end"
  let ?two = "percent # CHR ''2'' # compare_value @ ?three"
  let ?one = "percent # CHR ''1'' # compare_name @ ?two"
  have three: "lowest_marker ?three = Some 3"
    by (rule lowest_marker_digit) (simp_all add: lowest_marker_plain)
  have two: "lowest_marker ?two = Some 2"
    by (rule lowest_marker_digit) (simp_all add: lowest_marker_append three del: lowest_marker.simps)
  have 3: "qarg ?three v = v @ compare_end"
    by (rule qarg_first_marker [where n = 3]) (simp_all add: lowest_marker_plain)
  have 2: "qarg ?two name = name @ compare_value @ ?three"
    by (rule qarg_first_marker [where n = 2]) (simp_all add: lowest_marker_append three del: lowest_marker.simps)
  have 1: "qarg ?one path = path @ compare_name @ ?two"
    by (rule qarg_first_marker [where n = 1]) (simp_all add: lowest_marker_append two del: lowest_marker.simps)
  have "qarg compare_template path = (compare_path @ path @ compare_name) @ ?two"
    unfolding compare_template_parts by (subst qarg_append) (simp_all add: 1)
  moreover have "qarg ((compare_path @ path @ compare_name) @ ?two) name =
      (compare_path @ path @ compare_name @ name @ compare_value) @ ?three"
    using assms(1) by (subst qarg_append) (simp_all add: 2)
  moreover have "qarg ((compare_path @ path @ compare_name @ name @ compare_value) @ ?three) v =
      (compare_path @ path @ compare_name @ name @ compare_value) @ v @ compare_end"
    using assms by (subst qarg_append) (simp_all add: 3)
  ultimately show ?thesis by simp
qed

text \<open>
  The line inserted for a picked property compares with the value that was picked: its
  argument is the constant \<open>true\<close> or \<open>false\<close>, the number, or a string literal that reads back as
  the text, whatever characters the text has. (The path and the name must not hold a percent
  sign.) For a \<open>double\<close> there is no argument at all.
\<close>

lemma picked_value_compared:
  assumes "percent \<notin> set path" and "percent \<notin> set name"
  shows "insertPropertyAssert q path name v E =
      insertLine (compare_path @ path @ compare_name @ name @ compare_value @ escapeValue q v @ compare_end) E \<and>
    (case v of
       PBool b \<Rightarrow> escapeValue q v = (if b then ''true'' else ''false'')
     | PInt n \<Rightarrow> escapeValue q v = qt_number q n
     | PString s \<Rightarrow> \<exists>r. escapeValue q v @ compare_end = dquote # r \<and> scan_literal r = Some (s, compare_end)
     | _ \<Rightarrow> escapeValue q v = [])"
proof -
  have "qarg ([dquote] @ ''%1'' @ [dquote]) a = [dquote] @ a @ [dquote]" for a
    by (simp add: qt_text)
  then have "escapeValue q (PString s) = dquote # escapeString s @ [dquote]" for s
    by (simp add: escapeValue_def)
  then show ?thesis
    using compare_filled [OF assms, of "escapeValue q v"]
    by (auto simp: insertPropertyAssert_def scan_escapeString_rest escapeValue_def split: prop_value.split)
qed

end
