(* ===== verification/Main_Window.thy ===== *)
theory Main_Window
  imports Script_Editor Test_Backup Script_Processors
begin

text \<open>
  The main window (\<open>hooq/MainWindow.cpp\<close>): test sets and their settings, recording a test, running
  one test or all of them, and the results (\<open>hooq/TestResult.cpp\<close>, \<open>hooq/TestResultsModel.cpp\<close>,
  \<open>hooq/TestResultsDialog.cpp\<close>). What the user answers in a dialog is an argument. A run of a
  script ends before \<open>Interpreter::run\<close> returns; what it throws is the parameter \<open>outcome\<close>, which
  gives for a mode of the editor and a script the errors that the editor reports, in order.
\<close>

section \<open>Results\<close>

record test_result =
  tr_backtrace :: "qtext list"
  tr_error :: qtext
  tr_name :: qtext
  tr_passed :: bool

definition passed_result :: "qtext \<Rightarrow> test_result" where
  "passed_result name = \<lparr>tr_backtrace = [], tr_error = [], tr_name = name, tr_passed = True\<rparr>"

definition failed_result :: "qtext \<Rightarrow> qtext \<Rightarrow> qtext list \<Rightarrow> test_result" where
  "failed_result name err backtrace = \<lparr>tr_backtrace = backtrace, tr_error = err, tr_name = name, tr_passed = False\<rparr>"

datatype result_role = RDisplay | RBackground | RBold | RButtonEnabled | RBacktrace | RError | RTestName

datatype result_cell = RNothing | RText qtext | RColour bool | RBool bool | RTexts "qtext list"

text \<open>\<open>TestResultsModel::data\<close>; the colour \<open>True\<close> is green. Sizes come from the font and are left out.\<close>

definition results_data :: "test_result list \<Rightarrow> nat \<Rightarrow> nat \<Rightarrow> result_role \<Rightarrow> result_cell" where
  "results_data results row column role =
     (if length results \<le> row then RNothing
      else
        let result = results ! row in
        case role of
          RBackground \<Rightarrow> RColour (tr_passed result)
        | RBold \<Rightarrow> if \<not> tr_passed result then RBool True else RNothing
        | RDisplay \<Rightarrow>
            if column = 0 then RText (tr_name result)
            else if column = 1 then RText (if tr_passed result then ''Passed'' else ''FAILED'')
            else RNothing
        | RButtonEnabled \<Rightarrow> RBool (\<not> tr_passed result)
        | RBacktrace \<Rightarrow> RTexts (tr_backtrace result)
        | RError \<Rightarrow> RText (tr_error result)
        | RTestName \<Rightarrow> RText (tr_name result))"

definition results_headerData :: "nat \<Rightarrow> result_role \<Rightarrow> result_cell" where
  "results_headerData col role =
     (if role \<noteq> RDisplay then RNothing
      else if col = 0 then RText ''Test''
      else if col = 1 then RText ''Result''
      else if col = 2 then RText ''Information''
      else RNothing)"

text \<open>\<open>TestResultsDialog::setResults\<close>: the maximum and the value of the progress bar, and the model.\<close>

record results_dialog =
  rd_maximum :: nat
  rd_value :: nat
  rd_results :: "test_result list"

fun count_passing :: "test_result list \<Rightarrow> nat" where
  "count_passing [] = 0"
| "count_passing (r # rs) = (if tr_passed r then Suc (count_passing rs) else count_passing rs)"

definition setResults :: "test_result list \<Rightarrow> results_dialog" where
  "setResults results = \<lparr>rd_maximum = length results, rd_value = count_passing results, rd_results = results\<rparr>"

section \<open>State\<close>

record main_window =
  mw_editor :: editor
  mw_model :: test_model
  mw_disk :: disk
  mw_settings :: settings
  mw_arrays :: "qtext list qmap"
  mw_applicationPath :: qtext
  mw_arguments :: "qtext list"
  mw_sets :: "qtext list"
  mw_index :: int
  mw_testName :: qtext
  mw_testRunning :: bool
  mw_testResult :: test_result
  mw_testResults :: "test_result list"
  mw_dialog :: results_dialog

text \<open>The text that the combo box of test sets shows.\<close>

definition currentText :: "main_window \<Rightarrow> qtext" where
  "currentText M = (if 0 \<le> mw_index M \<and> mw_index M < int (length (mw_sets M)) then mw_sets M ! nat (mw_index M) else [])"

fun find_text :: "qtext \<Rightarrow> qtext list \<Rightarrow> int" where
  "find_text s [] = -1"
| "find_text s (x # xs) = (if x = s then 0 else let i = find_text s xs in if i = -1 then -1 else i + 1)"

section \<open>Settings of a test set\<close>

definition arguments_key :: "qtext \<Rightarrow> qtext" where
  "arguments_key testSet = ''Test Sets/'' @ testSet @ ''/arguments''"

definition saveApplicationArguments :: "qtext \<Rightarrow> qtext list \<Rightarrow> main_window \<Rightarrow> main_window" where
  "saveApplicationArguments testSet arguments M =
     M\<lparr>mw_arrays := qm_insert (arguments_key testSet) arguments (mw_arrays M)\<rparr>"

definition applicationArguments :: "qtext \<Rightarrow> main_window \<Rightarrow> qtext list" where
  "applicationArguments testSet M =
     (case map_of (mw_arrays M) (arguments_key testSet) of None \<Rightarrow> [] | Some arguments \<Rightarrow> arguments)"

definition mw_setApplicationPath :: "qtext \<Rightarrow> main_window \<Rightarrow> main_window" where
  "mw_setApplicationPath path M =
     M\<lparr>mw_settings := setApplicationPath (tm_testSet (mw_model M)) path (mw_settings M), mw_applicationPath := path\<rparr>"

definition mw_setTestSet :: "platform \<Rightarrow> qtext \<Rightarrow> main_window \<Rightarrow> main_window" where
  "mw_setTestSet w testSet M =
     (let (model, d) = setTestSet w testSet (mw_disk M) (mw_model M);
          M1 = M\<lparr>mw_model := model, mw_disk := d, mw_applicationPath := qs_text (applicationPath (mw_settings M) testSet)\<rparr>
      in M1\<lparr>mw_arguments := applicationArguments testSet M1\<rparr>)"

text \<open>The answer of the dialog for a test set: name, application and arguments; \<open>None\<close> when cancelled.\<close>

type_synonym set_answer = "(qtext \<times> qtext \<times> qtext list) option"

definition addTestSet :: "platform \<Rightarrow> set_answer \<Rightarrow> main_window \<Rightarrow> main_window" where
  "addTestSet w a M = (case a of
     None \<Rightarrow> M
   | Some (newName, application, arguments) \<Rightarrow>
       if newName = [] then M
       else
         let M1 = M\<lparr>mw_sets := mw_sets M @ [newName]\<rparr>;
             M2 = M1\<lparr>mw_index := find_text newName (mw_sets M1)\<rparr>;
             M3 = mw_setApplicationPath application (mw_setTestSet w newName M2)
         in saveApplicationArguments newName arguments (M3\<lparr>mw_arguments := arguments\<rparr>))"

definition editTestSet :: "set_answer \<Rightarrow> main_window \<Rightarrow> main_window" where
  "editTestSet a M = (case a of
     None \<Rightarrow> M
   | Some (name, application, arguments) \<Rightarrow>
       saveApplicationArguments name arguments ((mw_setApplicationPath application M)\<lparr>mw_arguments := arguments\<rparr>))"

text \<open>\<open>importTestSet\<close>; \<open>None\<close> when reading the archive does not end. The dialog may be cancelled: its fields are read all the same.\<close>

definition importTestSet ::
    "platform \<Rightarrow> archive_ops \<Rightarrow> qtext \<Rightarrow> qtext \<times> qtext list \<Rightarrow> main_window \<Rightarrow> main_window option" where
  "importTestSet w a filePath entered M =
     (if filePath = [] then Some M
      else map_option (\<lambda>(testSet, d).
        let M1 = M\<lparr>mw_disk := d\<rparr>; name = qs_text testSet in
        if qs_isEmpty testSet then M1
        else if find_text name (mw_sets M1) \<noteq> -1
          then mw_setTestSet w name (M1\<lparr>mw_index := find_text name (mw_sets M1)\<rparr>)
        else
          let M2 = M1\<lparr>mw_sets := mw_sets M1 @ [name]\<rparr>;
              M3 = M2\<lparr>mw_index := find_text name (mw_sets M2)\<rparr>;
              M4 = mw_setApplicationPath (fst entered) (mw_setTestSet w name M3)
          in saveApplicationArguments name (snd entered) (M4\<lparr>mw_arguments := snd entered\<rparr>))
        (restore a filePath (testSetsLocation w) (mw_disk M)))"

definition exportCurrentSet :: "platform \<Rightarrow> archive_ops \<Rightarrow> qtext \<Rightarrow> main_window \<Rightarrow> bool \<times> main_window" where
  "exportCurrentSet w a filePath M =
     (if filePath = [] then (True, M)
      else let r = backup a (currentText M) filePath (testSetsLocation w) (mw_disk M)
           in (fst r, M\<lparr>mw_disk := snd r\<rparr>))"

definition remove_file :: "qtext \<Rightarrow> disk \<Rightarrow> disk" where
  "remove_file p d = (if p \<in> set (d_locked d) then d else d\<lparr>d_files := qm_remove p (d_files d)\<rparr>)"

text \<open>\<open>rmdir\<close> removes an empty directory.\<close>

definition rmdir :: "qtext \<Rightarrow> disk \<Rightarrow> disk" where
  "rmdir p d =
     (if list_ex (\<lambda>x. prefix (p @ [slash]) x) (map fst (d_files d) @ d_dirs d) then d
      else d\<lparr>d_dirs := filter (\<lambda>x. x \<noteq> p) (d_dirs d)\<rparr>)"

definition removeTestSet :: "platform \<Rightarrow> bool \<Rightarrow> main_window \<Rightarrow> main_window" where
  "removeTestSet w confirmed M =
     (if \<not> confirmed then M
      else
        let currentSet = currentText M;
            sets = take (nat (mw_index M)) (mw_sets M) @ drop (nat (mw_index M) + 1) (mw_sets M);
            path = testSetLocation w currentSet;
            d = rmdir path (fold (\<lambda>f. remove_file (path @ [slash] @ f)) (entryList (mw_disk M) (path @ [slash])) (mw_disk M));
            M1 = M\<lparr>mw_model := stopWatching w currentSet (mw_model M), mw_sets := sets,
              mw_index := min (mw_index M) (int (length sets) - 1), mw_disk := d\<rparr>
        in mw_setTestSet w (currentText M1) M1)"

definition item_path :: "platform \<Rightarrow> main_window \<Rightarrow> nat \<Rightarrow> qtext" where
  "item_path w M row = (case tm_data w (mw_disk M) (mw_model M) row 0 FilePathRole of CText p \<Rightarrow> p | _ \<Rightarrow> [])"

definition item_name :: "platform \<Rightarrow> main_window \<Rightarrow> nat \<Rightarrow> qtext" where
  "item_name w M row = (case tm_data w (mw_disk M) (mw_model M) row 0 ScriptNameRole of CText p \<Rightarrow> p | _ \<Rightarrow> [])"

definition deleteCurrentTest :: "platform \<Rightarrow> bool \<Rightarrow> nat \<Rightarrow> main_window \<Rightarrow> main_window" where
  "deleteCurrentTest w confirmed row M =
     (if length (tm_items (mw_model M)) \<le> row \<or> \<not> confirmed then M
      else M\<lparr>mw_disk := remove_file (item_path w M row) (mw_disk M)\<rparr>)"

section \<open>Recording\<close>

record record_options =
  ro_includeXml :: bool
  ro_ignoreQtInternalWidgets :: bool
  ro_ignoreMouseMovements :: bool
  ro_simplifyMouseMovements :: bool
  ro_simplifyStrings :: bool
  ro_objectVariables :: bool
  ro_stringVariables :: bool

definition record_flags :: "record_options \<Rightarrow> flags" where
  "record_flags r =
     (if ro_ignoreQtInternalWidgets r then opt_FilterQtInternals else 0) OR
     (if ro_ignoreMouseMovements r then opt_SkipMouseMovements else 0) OR
     (if ro_simplifyMouseMovements r then opt_SimplifyMouseMovements else 0) OR
     (if ro_simplifyStrings r then opt_SimplifyStrings else 0) OR
     (if ro_objectVariables r then opt_ObjectVariables else 0) OR
     (if ro_stringVariables r then opt_StringVariables else 0)"

definition ascii_bytes :: "qtext \<Rightarrow> bytes" where
  "ascii_bytes s = map (\<lambda>c. of_nat (of_char c)) s"

text \<open>\<open>xml\<close>: the recorded document; \<open>tokens\<close>: what the XML reader makes of it.\<close>

definition finishRecording ::
    "qt \<Rightarrow> platform \<Rightarrow> (bytes \<Rightarrow> xml_stream) \<Rightarrow> record_options \<Rightarrow> bytes \<Rightarrow> main_window \<Rightarrow> script_error + main_window" where
  "finishRecording q w tokens r xml M =
     (let path = scriptPath w (mw_disk M) (tm_testSet (mw_model M)) (mw_testName M);
          comment = (if ro_includeXml r then ascii_bytes (''/*'' @ [newline]) @ xml @ ascii_bytes (''*/'' @ [newline]) else [])
      in map_sum id (\<lambda>script.
           M\<lparr>mw_disk := (if can_write (mw_disk M) path then write_file path (comment @ toUtf8 w script) (mw_disk M) else mw_disk M),
             mw_testName := []\<rparr>)
         (parse q (record_flags r) (tokens xml)))"

text \<open>Whether the button that starts a recording is enabled.\<close>

definition addTestEnabled :: "main_window \<Rightarrow> bool" where
  "addTestEnabled M \<longleftrightarrow> tm_testSet (mw_model M) \<noteq> [] \<and> mw_testName M \<noteq> [] \<and> mw_applicationPath M \<noteq> [] \<and>
     file_exists (mw_disk M) (mw_applicationPath M)"

section \<open>Running tests\<close>

definition logException :: "qtext \<Rightarrow> qtext list \<Rightarrow> main_window \<Rightarrow> main_window" where
  "logException exc backtrace M = M\<lparr>mw_testResult := failed_result (tr_name (mw_testResult M)) exc backtrace\<rparr>"

text \<open>An error of the script: the editor shows it and tells the window.\<close>

definition report_error :: "qtext \<times> qtext list \<Rightarrow> main_window \<Rightarrow> main_window" where
  "report_error e M = logException (fst e) (snd e) (M\<lparr>mw_editor := raiseError [] (snd e) (fst e) (mw_editor M)\<rparr>)"

definition testFinished :: "main_window \<Rightarrow> main_window" where
  "testFinished M = M\<lparr>mw_testRunning := False, mw_testResults := mw_testResults M @ [mw_testResult M]\<rparr>"

definition script_contents :: "disk \<Rightarrow> qtext \<Rightarrow> bytes" where
  "script_contents d path = (case read_file d path of None \<Rightarrow> [] | Some b \<Rightarrow> b)"

definition editTestScript :: "platform \<Rightarrow> answer \<Rightarrow> nat \<Rightarrow> main_window \<Rightarrow> bool \<times> main_window" where
  "editTestScript w a row M =
     (let (opened, E, d) = open_script w a (item_path w M row) (mw_editor M) (mw_disk M)
      in (opened, M\<lparr>mw_editor := E, mw_disk := d\<rparr>))"

definition runTestScript ::
    "platform \<Rightarrow> (editor_mode \<Rightarrow> bytes \<Rightarrow> (qtext \<times> qtext list) list) \<Rightarrow> answer \<Rightarrow> nat \<Rightarrow> main_window \<Rightarrow> main_window" where
  "runTestScript w outcome a row M =
     (let (opened, M1) = editTestScript w a row M in
      if \<not> opened then M1
      else
        let M2 = M1\<lparr>mw_testRunning := True, mw_testResult := passed_result (item_name w M1 row)\<rparr>
        in testFinished (fold report_error
             (outcome (e_mode (mw_editor M2)) (script_contents (mw_disk M2) (item_path w M2 row))) M2))"

definition runEditorTest ::
    "platform \<Rightarrow> (editor_mode \<Rightarrow> bytes \<Rightarrow> (qtext \<times> qtext list) list) \<Rightarrow> answer \<Rightarrow> main_window \<Rightarrow> main_window" where
  "runEditorTest w outcome a M =
     (case find (\<lambda>i. qs_eq (Some (item_path w M i)) (e_filePath (mw_editor M))) [0..<length (tm_items (mw_model M))] of
        None \<Rightarrow> M
      | Some i \<Rightarrow> runTestScript w outcome a i M)"

definition setMode :: "editor_mode \<Rightarrow> main_window \<Rightarrow> main_window" where
  "setMode m M = M\<lparr>mw_editor := (mw_editor M)\<lparr>e_mode := m\<rparr>\<rparr>"

definition runAllTests ::
    "platform \<Rightarrow> (editor_mode \<Rightarrow> bytes \<Rightarrow> (qtext \<times> qtext list) list) \<Rightarrow> (nat \<Rightarrow> answer) \<Rightarrow> main_window \<Rightarrow> main_window" where
  "runAllTests w outcome a M =
     (let M1 = setMode Headless (M\<lparr>mw_testResults := []\<rparr>);
          M2 = fold (\<lambda>i. runTestScript w outcome (a i) i) [0..<length (tm_items (mw_model M1))] M1;
          M3 = setMode Interactive M2
      in M3\<lparr>mw_dialog := setResults (mw_testResults M3)\<rparr>)"

section \<open>Every test is reported\<close>

text \<open>The result a test should have.\<close>

definition expected_result ::
    "(editor_mode \<Rightarrow> bytes \<Rightarrow> (qtext \<times> qtext list) list) \<Rightarrow> bytes \<Rightarrow> qtext \<Rightarrow> test_result" where
  "expected_result outcome script name =
     (let errors = outcome Headless script
      in if errors = [] then passed_result name
         else failed_result name (fst (last errors)) (snd (last errors)))"

lemma raiseError_frame [simp]:
  "e_dirty (raiseError ls bt text E) = e_dirty E" "e_mode (raiseError ls bt text E) = e_mode E"
  by (simp_all add: raiseError_def highlightLine_def Let_def)

lemma report_error_frame [simp]:
  "mw_model (report_error e M) = mw_model M" "mw_disk (report_error e M) = mw_disk M"
  "mw_testResults (report_error e M) = mw_testResults M"
  "e_dirty (mw_editor (report_error e M)) = e_dirty (mw_editor M)"
  "e_mode (mw_editor (report_error e M)) = e_mode (mw_editor M)"
  "mw_testResult (report_error e M) = failed_result (tr_name (mw_testResult M)) (fst e) (snd e)"
  by (simp_all add: report_error_def logException_def)

lemma report_errors_frame [simp]:
  "mw_model (fold report_error es M) = mw_model M" "mw_disk (fold report_error es M) = mw_disk M"
  "mw_testResults (fold report_error es M) = mw_testResults M"
  "e_dirty (mw_editor (fold report_error es M)) = e_dirty (mw_editor M)"
  "e_mode (mw_editor (fold report_error es M)) = e_mode (mw_editor M)"
  by (induction es arbitrary: M) simp_all

lemma report_errors_result:
  "mw_testResult (fold report_error es M) =
     (if es = [] then mw_testResult M
      else failed_result (tr_name (mw_testResult M)) (fst (last es)) (snd (last es)))"
proof (induction es arbitrary: M)
  case (Cons e es)
  then show ?case by (simp add: failed_result_def)
qed simp

lemma open_unmodified:
  assumes "\<not> e_dirty E"
  shows "\<exists>E'. open_script w a path E d = (True, E', d) \<and> \<not> e_dirty E' \<and> e_mode E' = e_mode E"
  using assms by (simp add: open_script_def shouldCancelDocumentChange_def all_features edit_text_def markAsDirty_def)

lemma item_path_row:
  "row < length (tm_items (mw_model M)) \<Longrightarrow>
    item_path w M row = scriptPath w (mw_disk M) (tm_testSet (mw_model M)) (tm_items (mw_model M) ! row)"
  "row < length (tm_items (mw_model M)) \<Longrightarrow> item_name w M row = tm_items (mw_model M) ! row"
  by (simp_all add: item_path_def item_name_def tm_data_def)

lemma item_frame [simp]:
  "item_path w (M\<lparr>mw_editor := E\<rparr>) row = item_path w M row" "item_name w (M\<lparr>mw_editor := E\<rparr>) row = item_name w M row"
  "item_path w (M\<lparr>mw_testRunning := b, mw_testResult := r\<rparr>) row = item_path w M row"
  by (simp_all add: item_path_def item_name_def)

text \<open>One test, run while the editor has no unsaved changes.\<close>

lemma runTestScript_unmodified:
  assumes "\<not> e_dirty (mw_editor M)" and "e_mode (mw_editor M) = Headless" and "row < length (tm_items (mw_model M))"
    and def: "M' = runTestScript w outcome a row M"
  shows "mw_model M' = mw_model M" and "mw_disk M' = mw_disk M" and "\<not> e_dirty (mw_editor M')"
    and "e_mode (mw_editor M') = Headless"
    and "mw_testResults M' = mw_testResults M @
      [expected_result outcome (script_contents (mw_disk M) (item_path w M row)) (tm_items (mw_model M) ! row)]"
proof -
  obtain E where E: "open_script w a (item_path w M row) (mw_editor M) (mw_disk M) = (True, E, mw_disk M)"
      "\<not> e_dirty E" "e_mode E = Headless"
    using open_unmodified [OF assms(1), of w a "item_path w M row" "mw_disk M"] assms(2) by auto
  let ?M = "M\<lparr>mw_editor := E, mw_testRunning := True, mw_testResult := passed_result (tm_items (mw_model M) ! row)\<rparr>"
  have M': "M' = testFinished (fold report_error
      (outcome Headless (script_contents (mw_disk M) (item_path w M row))) ?M)"
    using E assms(3) by (simp add: def runTestScript_def editTestScript_def item_path_row)
  show "mw_model M' = mw_model M" "mw_disk M' = mw_disk M" "\<not> e_dirty (mw_editor M')" "e_mode (mw_editor M') = Headless"
    using E(2,3) by (simp_all add: M' testFinished_def)
  show "mw_testResults M' = mw_testResults M @
      [expected_result outcome (script_contents (mw_disk M) (item_path w M row)) (tm_items (mw_model M) ! row)]"
    by (simp add: M' testFinished_def report_errors_result expected_result_def passed_result_def failed_result_def Let_def)
qed

lemma run_rows:
  assumes "\<not> e_dirty (mw_editor M)" and "e_mode (mw_editor M) = Headless"
    and "\<forall>i \<in> set rows. i < length (tm_items (mw_model M))"
  shows "mw_testResults (fold (\<lambda>i. runTestScript w outcome (a i) i) rows M) = mw_testResults M @ map (\<lambda>i. expected_result outcome
      (script_contents (mw_disk M) (item_path w M i)) (tm_items (mw_model M) ! i)) rows"
  using assms
proof (induction rows arbitrary: M)
  case (Cons i rows)
  let ?M = "runTestScript w outcome (a i) i M"
  have "i < length (tm_items (mw_model M))" using Cons.prems by simp
  note one = runTestScript_unmodified [OF Cons.prems(1,2) this refl, of w outcome "a i"]
  have same: "item_path w ?M j = item_path w M j" for j by (simp add: item_path_def one)
  have "mw_testResults (fold (\<lambda>i. runTestScript w outcome (a i) i) rows ?M) = mw_testResults ?M @
      map (\<lambda>i. expected_result outcome (script_contents (mw_disk ?M) (item_path w ?M i)) (tm_items (mw_model ?M) ! i)) rows"
    using Cons.prems one by (intro Cons.IH) simp_all
  then show ?case using one by (simp add: same)
qed simp

text \<open>
  C36. \<open>Run All\<close> reports every test: when the editor has no unsaved changes, the results dialog
  shows one row per test of the test set, in the order of the list, with the test's name; it says
  \<open>Passed\<close> exactly when the script ran without an error, and otherwise shows the last error; the
  progress bar counts the tests that passed.
\<close>

theorem run_all_reports_every_test:
  assumes "\<not> e_dirty (mw_editor M)"
    and "tests = tm_items (mw_model M)" and "script = (\<lambda>t. script_contents (mw_disk M) (scriptPath w (mw_disk M) (tm_testSet (mw_model M)) t))"
  shows "let D = mw_dialog (runAllTests w outcome a M) in
    rd_results D = map (\<lambda>t. expected_result outcome (script t) t) tests \<and>
    rd_maximum D = length tests \<and>
    rd_value D = length (filter (\<lambda>t. outcome Headless (script t) = []) tests) \<and>
    (\<forall>i < length tests. results_data (rd_results D) i 0 RDisplay = RText (tests ! i) \<and>
       results_data (rd_results D) i 1 RDisplay =
         RText (if outcome Headless (script (tests ! i)) = [] then ''Passed'' else ''FAILED''))"
proof -
  let ?M = "setMode Headless (M\<lparr>mw_testResults := []\<rparr>)"
  have frame: "mw_model ?M = mw_model M" "mw_disk ?M = mw_disk M" "item_path w ?M i = item_path w M i" for i
    by (simp_all add: setMode_def item_path_def)
  have "mw_testResults (fold (\<lambda>i. runTestScript w outcome (a i) i) [0..<length tests] ?M) =
      map (\<lambda>i. expected_result outcome (script_contents (mw_disk M) (item_path w M i)) (tests ! i)) [0..<length tests]"
    using run_rows [of ?M "[0..<length tests]" w outcome a] assms(1,2) by (simp add: frame) (simp add: setMode_def)
  also have "\<dots> = map (\<lambda>t. expected_result outcome (script t) t) (map ((!) tests) [0..<length tests])"
    using assms(2,3) by (simp add: item_path_row)
  finally have results: "mw_testResults (fold (\<lambda>i. runTestScript w outcome (a i) i) [0..<length tests] ?M) =
      map (\<lambda>t. expected_result outcome (script t) t) tests" by (simp add: map_nth)
  have passed: "tr_passed (expected_result outcome b t) \<longleftrightarrow> outcome Headless b = []" "tr_name (expected_result outcome b t) = t" for b t
    by (simp_all add: expected_result_def passed_result_def failed_result_def Let_def)
  have "count_passing (map (\<lambda>t. expected_result outcome (script t) t) ts) =
      length (filter (\<lambda>t. outcome Headless (script t) = []) ts)" for ts
    by (induction ts) (simp_all add: passed)
  moreover have "mw_dialog (runAllTests w outcome a M) = setResults (map (\<lambda>t. expected_result outcome (script t) t) tests)"
    using results assms(2) by (simp add: runAllTests_def frame Let_def) (simp add: setMode_def)
  ultimately show ?thesis by (simp add: setResults_def results_data_def passed Let_def)
qed

definition sample_window :: main_window where
  "sample_window = \<lparr>mw_editor = new_ScriptEditor,
     mw_model = \<lparr>tm_items = [''first'', ''second''], tm_testSet = ''set'', tm_watched = []\<rparr>,
     mw_disk = empty_disk, mw_settings = [], mw_arrays = [], mw_applicationPath = [], mw_arguments = [],
     mw_sets = [''set''], mw_index = 0, mw_testName = [], mw_testRunning = False,
     mw_testResult = passed_result [], mw_testResults = [], mw_dialog = setResults []\<rparr>"

theorem run_all_reports_every_test_witness:
  "results_data (rd_results (mw_dialog (runAllTests sample_platform (\<lambda>m b. [(''failed'', [])]) (\<lambda>i. Cancel) sample_window))) 1 1 RDisplay
     = RText ''FAILED''"
proof -
  have "\<not> e_dirty (mw_editor sample_window)" by (simp add: sample_window_def new_ScriptEditor_def)
  from run_all_reports_every_test [OF this refl refl, of sample_platform "\<lambda>m b. [(''failed'', [])]" "\<lambda>i. Cancel"]
  have "\<forall>i < length (tm_items (mw_model sample_window)). results_data (rd_results (mw_dialog
      (runAllTests sample_platform (\<lambda>m b. [(''failed'', [])]) (\<lambda>i. Cancel) sample_window))) i 1 RDisplay = RText ''FAILED''"
    unfolding Let_def by auto
  moreover have "1 < length (tm_items (mw_model sample_window))" by (simp add: sample_window_def)
  ultimately show ?thesis by blast
qed

text \<open>The settings of a test set are there again when it is chosen again.\<close>

lemma test_set_settings_kept:
  assumes "n \<noteq> []"
  shows "let M' = mw_setTestSet w n (mw_setTestSet w other (addTestSet w (Some (n, application, arguments)) M))
    in mw_applicationPath M' = application \<and> mw_arguments M' = arguments"
  using assms
  by (simp add: Let_def mw_setTestSet_def addTestSet_def saveApplicationArguments_def mw_setApplicationPath_def
      applicationArguments_def applicationPath_def setApplicationPath_def setTestSet_def qvmap.insert_same
      split: prod.split)

end
