(* ===== verification/Script_Search.thy ===== *)
theory Script_Search
  imports Script_Editor
begin

text \<open>
  Searching and replacing in the script editor (\<open>ScriptEditor::search\<close>, \<open>findNext\<close> and \<open>replace\<close>,
  \<open>uilib/ReplaceDialog.cpp\<close>). \<open>QTextDocument::find\<close> is the parameter \<open>finder\<close>: from flags, a text
  to look for, the document and a position it gives the selection of the next match, \<open>None\<close> for a
  null cursor.
\<close>

type_synonym finder = "flags \<Rightarrow> qtext \<Rightarrow> qtext \<Rightarrow> nat \<Rightarrow> (nat \<times> nat) option"

section \<open>ReplaceDialog\<close>

record replace_dialog =
  rd_find :: qtext
  rd_replace :: qtext
  rd_caseInsensitive :: bool
  rd_wholeWords :: bool

definition FindCaseSensitively :: flags where "FindCaseSensitively = 2"
definition FindWholeWords :: flags where "FindWholeWords = 4"

definition dialog_flags :: "replace_dialog \<Rightarrow> flags" where
  "dialog_flags D =
     (let flags = (if \<not> rd_caseInsensitive D then FindCaseSensitively else 0)
      in if rd_wholeWords D then flags OR FindWholeWords else flags)"

section \<open>search and findNext\<close>

text \<open>What searching keeps: \<open>m_searchString\<close> and the cursor of the text widget (anchor and end).\<close>

record searching =
  m_searchString :: qtext
  s_cursor :: "nat \<times> nat"

definition findNext :: "finder \<Rightarrow> qtext \<Rightarrow> searching \<Rightarrow> searching" where
  "findNext F document S =
     (if m_searchString S = [] then S
      else case F 0 (m_searchString S) document (snd (s_cursor S)) of
        None \<Rightarrow> S
      | Some selection \<Rightarrow> S\<lparr>s_cursor := selection\<rparr>)"

text \<open>The answer to the input dialog; \<open>None\<close> when it is cancelled.\<close>

definition search :: "finder \<Rightarrow> qtext \<Rightarrow> qtext option \<Rightarrow> searching \<Rightarrow> searching" where
  "search F document input S = (case input of
     None \<Rightarrow> S | Some result \<Rightarrow> findNext F document (S\<lparr>m_searchString := result\<rparr>))"

section \<open>replace\<close>

text \<open>The loop: \<open>pos\<close> is the cursor. The outer \<open>option\<close> says whether the loop ends.\<close>

partial_function (option) replace_loop ::
    "finder \<Rightarrow> flags \<Rightarrow> qtext \<Rightarrow> qtext \<Rightarrow> nat \<Rightarrow> editor \<Rightarrow> editor option" where
  "replace_loop F flags sub rep pos E = (case F flags sub (e_text E) pos of
     None \<Rightarrow> Some E
   | Some (s, e) \<Rightarrow>
       replace_loop F flags sub rep (s + length rep)
         (edit_text (take s (e_text E) @ rep @ drop e (e_text E)) E))"

text \<open>\<open>None\<close>: the dialog was not accepted.\<close>

definition replace :: "finder \<Rightarrow> replace_dialog option \<Rightarrow> editor \<Rightarrow> editor option" where
  "replace F dialog E = (case dialog of
     None \<Rightarrow> Some E
   | Some D \<Rightarrow> replace_loop F (dialog_flags D) (rd_find D) (rd_replace D) 0 E)"

section \<open>What QTextDocument::find promises\<close>

text \<open>A match lies behind the position and is not empty.\<close>

definition finds_forward :: "finder \<Rightarrow> bool" where
  "finds_forward F \<longleftrightarrow> (\<forall>flags sub text pos s e. F flags sub text pos = Some (s, e) \<longrightarrow>
     pos \<le> s \<and> s < e \<and> e \<le> length text)"

text \<open>With \<open>FindCaseSensitively\<close> alone, a text within one line is found at its next occurrence.\<close>

definition occurs_at :: "qtext \<Rightarrow> qtext \<Rightarrow> nat \<Rightarrow> bool" where
  "occurs_at sub text s \<longleftrightarrow> sub \<noteq> [] \<and> prefix sub (drop s text)"

definition next_occurrence :: "qtext \<Rightarrow> qtext \<Rightarrow> nat \<Rightarrow> (nat \<times> nat) option" where
  "next_occurrence sub text pos =
     map_option (\<lambda>s. (s, s + length sub)) (find (occurs_at sub text) [pos..<length text])"

definition finds_exactly :: "finder \<Rightarrow> bool" where
  "finds_exactly F \<longleftrightarrow> (\<forall>sub text pos. newline \<notin> set sub \<longrightarrow>
     F FindCaseSensitively sub text pos = next_occurrence sub text pos)"

section \<open>The loop ends\<close>

lemma replace_loop_ends:
  assumes "finds_forward F"
  shows "\<exists>E'. replace_loop F flags sub rep pos E = Some E'"
proof (induction "length (e_text E) - pos" arbitrary: pos E rule: less_induct)
  case less
  show ?case
  proof (cases "F flags sub (e_text E) pos")
    case None
    then show ?thesis by (simp add: replace_loop.simps)
  next
    case (Some m)
    obtain s e where m: "m = (s, e)" by fastforce
    let ?E = "edit_text (take s (e_text E) @ rep @ drop e (e_text E)) E"
    have "pos \<le> s" "s < e" "e \<le> length (e_text E)"
      using assms Some m by (auto simp: finds_forward_def)
    then have "length (e_text ?E) - (s + length rep) < length (e_text E) - pos"
      by (simp add: edit_text_def markAsDirty_def)
    from less [OF this] Some m show ?thesis by (subst replace_loop.simps) simp
  qed
qed

section \<open>Replacing is QString::replace\<close>

lemma qreplace_absent:
  "(\<And>i. i < length s \<Longrightarrow> \<not> occurs_at sub s i) \<Longrightarrow> qreplace sub rep s = s"
proof (induction s)
  case (Cons c cs)
  have "\<not> occurs_at sub cs i" if "i < length cs" for i
    using Cons.prems [of "Suc i"] that by (simp add: occurs_at_def)
  with Cons.IH Cons.prems [of 0] show ?case by (auto simp: occurs_at_def qreplace.simps)
qed (simp add: qreplace.simps)

lemma qreplace_first:
  "sub \<noteq> [] \<Longrightarrow> (\<And>i. i < length pre \<Longrightarrow> \<not> occurs_at sub (pre @ sub @ post) i) \<Longrightarrow>
    qreplace sub rep (pre @ sub @ post) = pre @ rep @ qreplace sub rep post"
proof (induction pre)
  case Nil
  then show ?case by (cases sub) (simp_all add: qreplace.simps)
next
  case (Cons c pre)
  have "\<not> occurs_at sub (pre @ sub @ post) i" if "i < length pre" for i
    using Cons.prems(2) [of "Suc i"] that by (simp add: occurs_at_def)
  with Cons.IH Cons.prems(1) Cons.prems(2) [of 0] show ?case by (auto simp: occurs_at_def qreplace.simps)
qed

lemma occurs_at_append: "occurs_at sub (before @ rest) (length before + i) = occurs_at sub rest i"
  by (simp add: occurs_at_def)

lemma next_occurrence_None:
  assumes "next_occurrence sub (before @ rest) (length before) = None"
  shows "qreplace sub rep rest = rest"
proof (rule qreplace_absent)
  fix i assume "i < length rest"
  then have "length before + i \<in> set [length before..<length (before @ rest)]" by simp
  with assms show "\<not> occurs_at sub rest i"
    unfolding occurs_at_append [of sub before rest, symmetric] by (simp add: next_occurrence_def find_None_iff)
qed

lemma next_occurrence_Some:
  assumes "next_occurrence sub (before @ rest) (length before) = Some (s, e)"
  obtains pre post where "rest = pre @ sub @ post" and "s = length before + length pre" and "e = s + length sub"
    and "qreplace sub rep rest = pre @ rep @ qreplace sub rep post"
proof -
  let ?text = "before @ rest"
  obtain k where k: "k < length rest" "s = length before + k" "occurs_at sub rest k"
      "\<And>i. i < k \<Longrightarrow> \<not> occurs_at sub rest i" and e: "e = s + length sub"
  proof -
    from assms obtain j where j: "j < length [length before..<length ?text]"
        "occurs_at sub ?text ([length before..<length ?text] ! j)"
        "[length before..<length ?text] ! j = s"
        "\<forall>i < j. \<not> occurs_at sub ?text ([length before..<length ?text] ! i)" "e = s + length sub"
      by (auto simp: next_occurrence_def find_Some_iff)
    show thesis
      by (rule that [of j]) (use j in \<open>simp_all add: occurs_at_append\<close>)
  qed
  from k(3) obtain post where post: "drop k rest = sub @ post" and sub: "sub \<noteq> []"
    by (auto simp: occurs_at_def prefix_def)
  have rest: "rest = take k rest @ sub @ post" by (simp flip: post)
  have "qreplace sub rep (take k rest @ sub @ post) = take k rest @ rep @ qreplace sub rep post"
    using sub k(4) by (intro qreplace_first) (simp_all flip: rest)
  with that [OF rest] k(1,2) e rest show thesis by simp
qed

lemma edit_text_edit [simp]:
  "e_text (edit_text s E) = s" "edit_text s (edit_text s' E) = edit_text s E"
  by (simp_all add: edit_text_def markAsDirty_def)

text \<open>The cursor is at \<open>length before\<close>: what is before it stays, the rest is replaced.\<close>

lemma replace_loop_qreplace:
  assumes "finds_exactly F" and "newline \<notin> set sub" and "e_text E = before @ rest"
  shows "\<exists>E'. replace_loop F FindCaseSensitively sub rep (length before) E = Some E' \<and>
    e_text E' = before @ qreplace sub rep rest \<and>
    E' = (if next_occurrence sub (before @ rest) (length before) = None then E else edit_text (e_text E') E)"
  using assms(3)
proof (induction "length rest" arbitrary: before rest E rule: less_induct)
  case less
  have F: "F FindCaseSensitively sub (e_text E) (length before) = next_occurrence sub (before @ rest) (length before)"
    using assms(1,2) less.prems by (simp add: finds_exactly_def)
  show ?case
  proof (cases "next_occurrence sub (before @ rest) (length before)")
    case None
    with F less.prems show ?thesis by (simp add: replace_loop.simps next_occurrence_None)
  next
    case (Some m)
    obtain s e where m: "m = (s, e)" by fastforce
    from Some m obtain pre post where p: "rest = pre @ sub @ post" "s = length before + length pre" "e = s + length sub"
        "qreplace sub rep rest = pre @ rep @ qreplace sub rep post"
      using next_occurrence_Some [of sub before rest s e rep] by metis
    have "sub \<noteq> []" using Some by (auto simp: next_occurrence_def find_Some_iff occurs_at_def)
    let ?before = "before @ pre @ rep"
    have doc: "take s (e_text E) @ rep @ drop e (e_text E) = ?before @ post"
      using p less.prems by simp
    obtain E' where E': "replace_loop F FindCaseSensitively sub rep (length ?before) (edit_text (?before @ post) E) = Some E'"
        "e_text E' = ?before @ qreplace sub rep post"
        "E' = edit_text (?before @ post) E \<or> E' = edit_text (e_text E') E"
      using less.hyps [of post "edit_text (?before @ post) E" ?before] p(1) \<open>sub \<noteq> []\<close>
      by (auto split: if_splits)
    then have "E' = edit_text (e_text E') E" by auto
    moreover have "replace_loop F FindCaseSensitively sub rep (length before) E = Some E'"
      using F Some m E'(1) doc p(2) by (subst replace_loop.simps) (simp add: add.assoc)
    ultimately show ?thesis using E'(2) p(4) Some by auto
  qed
qed


text \<open>
  A search that looks at the text only, whatever the flags, satisfies both assumptions.
\<close>

definition plain_finder :: finder where
  "plain_finder flags sub text pos = next_occurrence sub text pos"

lemma plain_finder_forward: "finds_forward plain_finder"
proof -
  have "pos \<le> s \<and> s < e \<and> e \<le> length t" if "next_occurrence sub t pos = Some (s, e)" for sub t pos s e
  proof -
    from that have e: "e = s + length sub" and "find (occurs_at sub t) [pos..<length t] = Some s"
      by (auto simp: next_occurrence_def)
    then have "s \<in> set [pos..<length t]" and o: "occurs_at sub t s"
      by (auto simp: find_Some_iff)
    moreover from o have "length sub \<le> length (drop s t)" "sub \<noteq> []"
      by (auto simp: occurs_at_def dest: prefix_length_le)
    ultimately show ?thesis using e by (auto simp: le_diff_conv2)
  qed
  then show ?thesis by (simp add: finds_forward_def plain_finder_def)
qed


end
