(* ===== verification/Property_Picking.thy ===== *)
theory Property_Picking
  imports Script_Editor
begin

text \<open>
  From a picked object to a line of the script: the table of its properties
  (\<open>hooq/VariantMapModel.cpp\<close>), the dialog that shows it (\<open>hooq/PropertyDialog.cpp\<close>), the slots that a
  click on a column calls (\<open>uilib/ColumnClickMapper.cpp\<close>) and \<open>ScriptEditor::objectPicked\<close>. The table
  of a backtrace (\<open>hooq/ScriptBacktraceModel.cpp\<close>) is here too. Font metrics are the parameter
  \<open>text_size\<close>; a read past the end of a list is an error.
\<close>

section \<open>Item models\<close>

text \<open>A model index: row and column, \<open>None\<close> when it is not valid.\<close>

type_synonym model_index = "(nat \<times> nat) option"

datatype data_role = DisplayRole | SizeHintRole | PropertyNameRole | PropertyValueRole | OtherRole

datatype 'd cell = InvalidCell | TextCell qtext | NumberCell int | SizeCell int int | ValueCell "'d prop_value"

datatype view_error = RowOutOfRange

definition row_at :: "'a list \<Rightarrow> nat \<Rightarrow> view_error + 'a" where
  "row_at xs r = (if r < length xs then Inr (xs ! r) else Inl RowOutOfRange)"

section \<open>VariantMapModel\<close>

definition vm_columnCount :: nat where "vm_columnCount = 4"

definition vm_rowCount :: "'d prop_value qmap \<Rightarrow> model_index \<Rightarrow> nat" where
  "vm_rowCount m index = (if index \<noteq> None then 0 else length m)"

definition vm_headerData :: "nat \<Rightarrow> data_role \<Rightarrow> 'd cell" where
  "vm_headerData section role =
     (if role \<noteq> DisplayRole then InvalidCell
      else if section = 0 then TextCell ''Name''
      else if section = 1 then TextCell ''Value''
      else if section = 2 then TextCell ''Fetch''
      else if section = 3 then TextCell ''Compare''
      else InvalidCell)"

text \<open>\<open>QVariant::toString\<close>.\<close>

definition prop_text :: "qt \<Rightarrow> 'd double_ops \<Rightarrow> 'd prop_value \<Rightarrow> qtext" where
  "prop_text q f v = (case v of
     PBool b \<Rightarrow> if b then ''true'' else ''false''
   | PInt n \<Rightarrow> qt_number q n
   | PDouble x \<Rightarrow> double_text f x
   | PString s \<Rightarrow> s
   | POther \<Rightarrow> [])"

definition vm_value :: "'d prop_value qmap \<Rightarrow> qtext \<Rightarrow> 'd prop_value" where
  "vm_value m key = (case map_of m key of None \<Rightarrow> POther | Some v \<Rightarrow> v)"

definition vm_cell ::
    "qt \<Rightarrow> 'd double_ops \<Rightarrow> (qtext \<Rightarrow> int \<times> int) \<Rightarrow> 'd prop_value qmap \<Rightarrow> qtext \<Rightarrow> nat \<Rightarrow> data_role \<Rightarrow> 'd cell" where
  "vm_cell q f text_size m key column role = (case role of
     DisplayRole \<Rightarrow>
       if column = 0 then TextCell key
       else if column = 1 then TextCell (prop_text q f (vm_value m key))
       else InvalidCell
   | SizeHintRole \<Rightarrow>
       if column = 0 then (case text_size key of (w, h) \<Rightarrow> SizeCell w h)
       else if column = 1 then (case text_size (prop_text q f (vm_value m key)) of (w, h) \<Rightarrow> SizeCell w h)
       else SizeCell 32 32
   | PropertyNameRole \<Rightarrow> TextCell key
   | PropertyValueRole \<Rightarrow> ValueCell (vm_value m key)
   | OtherRole \<Rightarrow> InvalidCell)"

definition vm_data ::
    "qt \<Rightarrow> 'd double_ops \<Rightarrow> (qtext \<Rightarrow> int \<times> int) \<Rightarrow> 'd prop_value qmap \<Rightarrow> model_index \<Rightarrow> data_role \<Rightarrow>
     view_error + 'd cell" where
  "vm_data q f text_size m index role = (case index of
     None \<Rightarrow> Inr InvalidCell
   | Some (row, column) \<Rightarrow>
       map_sum id (\<lambda>key. vm_cell q f text_size m key column role) (row_at (map fst m) row))"

section \<open>ScriptBacktraceModel\<close>

record context_info =
  ctx_columnNumber :: int
  ctx_fileName :: qtext
  ctx_functionName :: qtext
  ctx_lineNumber :: int

record backtrace_model =
  bt_columns :: "int list"
  bt_fileNames :: "qtext list"
  bt_functions :: "qtext list"
  bt_lineNumbers :: "int list"

text \<open>The constructor follows \<open>parentContext()\<close>; the contexts are given from the inside out.\<close>

fun append_contexts :: "context_info list \<Rightarrow> backtrace_model \<Rightarrow> backtrace_model" where
  "append_contexts [] B = B"
| "append_contexts (info # rest) B =
     append_contexts rest (B\<lparr>bt_columns := bt_columns B @ [ctx_columnNumber info],
       bt_fileNames := bt_fileNames B @ [ctx_fileName info],
       bt_functions := bt_functions B @ [ctx_functionName info],
       bt_lineNumbers := bt_lineNumbers B @ [ctx_lineNumber info]\<rparr>)"

definition new_ScriptBacktraceModel :: "context_info list \<Rightarrow> backtrace_model" where
  "new_ScriptBacktraceModel contexts =
     append_contexts contexts \<lparr>bt_columns = [], bt_fileNames = [], bt_functions = [], bt_lineNumbers = []\<rparr>"

definition bt_rowCount :: "backtrace_model \<Rightarrow> model_index \<Rightarrow> nat" where
  "bt_rowCount B index = (if index \<noteq> None then 0 else length (bt_functions B))"

definition bt_headerData :: "nat \<Rightarrow> data_role \<Rightarrow> 'd cell" where
  "bt_headerData section role =
     (if role \<noteq> DisplayRole then InvalidCell
      else if section = 0 then TextCell ''Function''
      else if section = 1 then TextCell ''Line''
      else if section = 3 then TextCell ''File''
      else if section = 2 then TextCell ''Column''
      else InvalidCell)"

definition bt_data :: "backtrace_model \<Rightarrow> model_index \<Rightarrow> data_role \<Rightarrow> view_error + 'd cell" where
  "bt_data B index role = (case index of
     None \<Rightarrow> Inr InvalidCell
   | Some (row, column) \<Rightarrow>
       if role \<noteq> DisplayRole then Inr InvalidCell
       else if column = 0 then map_sum id TextCell (row_at (bt_functions B) row)
       else if column = 1 then map_sum id NumberCell (row_at (bt_lineNumbers B) row)
       else if column = 2 then map_sum id NumberCell (row_at (bt_columns B) row)
       else if column = 3 then map_sum id TextCell (row_at (bt_fileNames B) row)
       else Inr InvalidCell)"

section \<open>ColumnClickMapper\<close>

text \<open>
  \<open>receiver\<close> is \<open>None\<close> when the object was deleted; \<open>m_map\<close> is a list with the newest mapping first,
  the order in which \<open>QMultiHash::values\<close> gives the targets of a column.
\<close>

record 'r target =
  receiver :: "'r option"
  slot :: qtext
  enabledRole :: int

type_synonym 'r click_map = "(nat \<times> 'r target) list"

definition addMapping :: "nat \<Rightarrow> 'r \<Rightarrow> qtext \<Rightarrow> int \<Rightarrow> 'r click_map \<Rightarrow> 'r click_map" where
  "addMapping column r s role m = (column, \<lparr>receiver = Some r, slot = s, enabledRole = role\<rparr>) # m"

text \<open>
  The name of a slot: without the code in front and the arguments. Without a parenthesis
  \<open>remove(-1, ...)\<close> takes the last character away.
\<close>

definition slot_method :: "qtext \<Rightarrow> qtext" where
  "slot_method s =
     (let method = drop 1 s
      in if CHR ''('' \<in> set method then takeWhile (\<lambda>c. c \<noteq> CHR ''('') method else butlast method)"

definition enabled_targets :: "(model_index \<Rightarrow> int \<Rightarrow> bool) \<Rightarrow> model_index \<Rightarrow> 'r target list \<Rightarrow> 'r target list" where
  "enabled_targets role_enabled index targets =
     filter (\<lambda>t. receiver t \<noteq> None \<and> (enabledRole t = -1 \<or> role_enabled index (enabledRole t))) targets"

text \<open>The methods that a click invokes, in order.\<close>

definition click_map_clicked ::
    "(model_index \<Rightarrow> int \<Rightarrow> bool) \<Rightarrow> 'r click_map \<Rightarrow> model_index \<Rightarrow> ('r \<times> qtext) list" where
  "click_map_clicked role_enabled m index = (case index of
     None \<Rightarrow> []
   | Some (row, column) \<Rightarrow>
       map (\<lambda>t. (the (receiver t), slot_method (slot t)))
         (enabled_targets role_enabled index (map snd (filter (\<lambda>(c, t). c = column) m))))"

section \<open>PropertyDialog\<close>

datatype 'd dialog_signal = FetchRequested qtext qtext | CompareRequested qtext qtext "'d prop_value"

record 'd property_dialog =
  dlg_model :: "'d prop_value qmap"
  dlg_objectLabel :: qtext
  dlg_typeLabel :: qtext
  dlg_path :: qtext
  dlg_mapper :: "unit click_map"
  dlg_deleted :: bool

text \<open>\<open>SLOT(fetch(QModelIndex))\<close> is the text of the slot with the code \<open>1\<close> in front.\<close>

definition new_PropertyDialog :: "'d object_information \<Rightarrow> 'd property_dialog" where
  "new_PropertyDialog info =
     \<lparr>dlg_model = info_properties info, dlg_objectLabel = info_name info, dlg_typeLabel = info_className info,
      dlg_path = info_path info,
      dlg_mapper = addMapping 3 () ''1compare(QModelIndex)'' (-1) (addMapping 2 () ''1fetch(QModelIndex)'' (-1) []),
      dlg_deleted = False\<rparr>"

text \<open>\<open>index.data(role)\<close> at a cell of the dialog's own table, as text and as a value.\<close>

definition index_name :: "'d property_dialog \<Rightarrow> model_index \<Rightarrow> view_error + qtext" where
  "index_name D index = (case index of
     None \<Rightarrow> Inr [] | Some (row, column) \<Rightarrow> row_at (map fst (dlg_model D)) row)"

definition dialog_fetch :: "model_index \<Rightarrow> 'd property_dialog \<Rightarrow> view_error + 'd dialog_signal \<times> 'd property_dialog" where
  "dialog_fetch index D =
     map_sum id (\<lambda>key. (FetchRequested (dlg_path D) key, D\<lparr>dlg_deleted := True\<rparr>)) (index_name D index)"

definition dialog_compare :: "model_index \<Rightarrow> 'd property_dialog \<Rightarrow> view_error + 'd dialog_signal \<times> 'd property_dialog" where
  "dialog_compare index D =
     map_sum id (\<lambda>key. (CompareRequested (dlg_path D) key (vm_value (dlg_model D) key), D\<lparr>dlg_deleted := True\<rparr>))
       (index_name D index)"

section \<open>The editor and the dialog\<close>

text \<open>The connections made by \<open>objectPicked\<close>.\<close>

definition editor_receives :: "qt \<Rightarrow> 'd dialog_signal \<Rightarrow> editor \<Rightarrow> editor" where
  "editor_receives q s E = (case s of
     FetchRequested path property \<Rightarrow> insertPropertyFetch path property E
   | CompareRequested path property v \<Rightarrow> insertPropertyAssert q path property v E)"

text \<open>The methods that a click invokes on the dialog, one after the other.\<close>

fun invoke_methods ::
    "qt \<Rightarrow> model_index \<Rightarrow> qtext list \<Rightarrow> 'd property_dialog \<times> editor \<Rightarrow> view_error + 'd property_dialog \<times> editor" where
  "invoke_methods q index [] S = Inr S"
| "invoke_methods q index (method # ms) (D, E) =
     (let step = (if method = ''fetch'' then map_sum id (\<lambda>(s, D'). (D', editor_receives q s E)) (dialog_fetch index D)
                  else if method = ''compare'' then map_sum id (\<lambda>(s, D'). (D', editor_receives q s E)) (dialog_compare index D)
                  else Inr (D, E))
      in case step of Inl e \<Rightarrow> Inl e | Inr S' \<Rightarrow> invoke_methods q index ms S')"

text \<open>A click into the table; a dialog that was deleted gets no more clicks.\<close>

definition dialog_clicked ::
    "qt \<Rightarrow> model_index \<Rightarrow> 'd property_dialog \<times> editor \<Rightarrow> view_error + 'd property_dialog \<times> editor" where
  "dialog_clicked q index S =
     (if dlg_deleted (fst S) then Inr S
      else invoke_methods q index (map snd (click_map_clicked (\<lambda>i r. False) (dlg_mapper (fst S)) index)) S)"

section \<open>Which slot a click calls\<close>

lemma dialog_slots [simp]:
  "slot_method ''1fetch(QModelIndex)'' = ''fetch''" "slot_method ''1compare(QModelIndex)'' = ''compare''"
  by (simp_all add: slot_method_def)

lemma clicked_column:
  "map snd (click_map_clicked en (dlg_mapper (new_PropertyDialog info)) (Some (row, column))) =
     (if column = 2 then [''fetch''] else if column = 3 then [''compare''] else [])"
  by (simp add: click_map_clicked_def new_PropertyDialog_def addMapping_def enabled_targets_def)

lemma clicked_row:
  assumes "D = new_PropertyDialog info" and "row < length (info_properties info)"
    and "key = fst (info_properties info ! row)"
  shows "dialog_clicked q (Some (row, 2)) (D, E) =
      Inr (D\<lparr>dlg_deleted := True\<rparr>, insertPropertyFetch (info_path info) key E)"
    and "dialog_clicked q (Some (row, 3)) (D, E) =
      Inr (D\<lparr>dlg_deleted := True\<rparr>, insertPropertyAssert q (info_path info) key (vm_value (info_properties info) key) E)"
    and "column \<notin> {2, 3} \<Longrightarrow> dialog_clicked q (Some (row, column)) (D, E) = Inr (D, E)"
proof -
  have alive: "\<not> dlg_deleted D" and model: "dlg_model D = info_properties info" "dlg_path D = info_path info"
    using assms(1) by (simp_all add: new_PropertyDialog_def)
  note defs = dialog_clicked_def clicked_column dialog_fetch_def dialog_compare_def index_name_def row_at_def
    editor_receives_def alive model
  show "dialog_clicked q (Some (row, 2)) (D, E) =
      Inr (D\<lparr>dlg_deleted := True\<rparr>, insertPropertyFetch (info_path info) key E)"
    using assms alive model by (simp add: defs)
  show "dialog_clicked q (Some (row, 3)) (D, E) =
      Inr (D\<lparr>dlg_deleted := True\<rparr>, insertPropertyAssert q (info_path info) key (vm_value (info_properties info) key) E)"
    using assms alive model by (simp add: defs)
  show "dialog_clicked q (Some (row, column)) (D, E) = Inr (D, E)" if "column \<notin> {2, 3}"
    using that assms alive by (simp add: defs)
qed

section \<open>A picked property is compared with its value\<close>

lemma map_of_row:
  assumes "map_of m key = Some v"
  obtains row where "row < length m" and "m ! row = (key, v)"
  using map_of_SomeD [OF assms] by (auto simp: in_set_conv_nth)

text \<open>The properties for which the editor can write a value.\<close>

definition comparable :: "'d meta_property \<Rightarrow> bool" where
  "comparable p \<longleftrightarrow> prop_typeName p \<in> {''bool'', ''int'', ''QString''} \<and> prop_read p \<noteq> POther"

lemma comparable_arrives:
  assumes "number_reads_back q" and "\<forall>p \<in> set ps. well_typed p" and "distinct (map prop_name ps)"
    and "dump q f t x ps = Some ts" and "p \<in> set ps" and "comparable p"
  shows "map_of (info_properties (fromXml q f ts)) (prop_name p) = Some (prop_read p)"
proof -
  from assms(2,5) have "well_typed p" ..
  with dumped_property [OF assms(1-5)] assms(6) show ?thesis
    by (auto simp: property_of_def comparable_def well_typed_def Let_def split: prop_value.splits)
qed

text \<open>
  C35. A property of type \<open>bool\<close>, \<open>int\<close> or \<open>QString\<close> of a picked object has a row of its own in the
  dialog, and a click on \<open>Compare\<close> in that row closes the dialog and inserts a line that compares the
  property of the object at that path with the value it has in the application: the constant
  \<open>true\<close> or \<open>false\<close>, the number, or a string literal that reads back as the text, whatever
  characters it has. The path and the name must not hold a percent sign.
\<close>

theorem picked_property_compared:
  assumes "number_reads_back q" and "\<forall>p \<in> set ps. well_typed p" and "distinct (map prop_name ps)"
    and "dump q f t x ps = Some ts" and "p \<in> set ps" and "comparable p"
    and "objectPath q t x = Some path" and "percent \<notin> set path" and "percent \<notin> set (prop_name p)"
    and "D = new_PropertyDialog (fromXml q f ts)"
  shows "\<exists>row < vm_rowCount (dlg_model D) None.
    vm_data q f text_size (dlg_model D) (Some (row, 0)) DisplayRole = Inr (TextCell (prop_name p)) \<and>
    (\<exists>literal. dialog_clicked q (Some (row, 3)) (D, E) = Inr (D\<lparr>dlg_deleted := True\<rparr>,
        insertLine (compare_path @ path @ compare_name @ prop_name p @ compare_value @ literal @ compare_end) E) \<and>
      (case prop_read p of
         PBool b \<Rightarrow> literal = (if b then ''true'' else ''false'')
       | PInt n \<Rightarrow> literal = qt_number q n
       | PString s \<Rightarrow> \<exists>r. literal @ compare_end = dquote # r \<and> scan_literal r = Some (s, compare_end)
       | _ \<Rightarrow> False))"
proof -
  let ?info = "fromXml q f ts"
  have path: "info_path ?info = path" using fromXml_dump [OF assms(1,2,4,7)] by simp
  have val: "map_of (info_properties ?info) (prop_name p) = Some (prop_read p)"
    using assms(1-6) by (rule comparable_arrives)
  then obtain row where row: "row < length (info_properties ?info)" "info_properties ?info ! row = (prop_name p, prop_read p)"
    by (rule map_of_row)
  have model: "dlg_model D = info_properties ?info" using assms(10) by (simp add: new_PropertyDialog_def)
  have "vm_data q f text_size (dlg_model D) (Some (row, 0)) DisplayRole = Inr (TextCell (prop_name p))"
    using row model by (simp add: vm_data_def row_at_def vm_cell_def)
  moreover have "dialog_clicked q (Some (row, 3)) (D, E) =
      Inr (D\<lparr>dlg_deleted := True\<rparr>, insertPropertyAssert q path (prop_name p) (prop_read p) E)"
    using clicked_row(2) [OF assms(10) row(1) refl] row(2) val path by (simp add: vm_value_def)
  moreover note picked_value_compared [OF assms(8,9), of q "prop_read p" E]
  moreover have "(case prop_read p of PBool b \<Rightarrow> True | PInt n \<Rightarrow> True | PString s \<Rightarrow> True | _ \<Rightarrow> False)"
    using assms(2,5,6) by (auto simp: comparable_def well_typed_def Let_def split: prop_value.splits)
  ultimately show ?thesis
    using row(1) model
    by (intro exI [of _ row] conjI exI [of _ "escapeValue q (prop_read p)"])
       (auto simp: vm_rowCount_def split: prop_value.splits)
qed

theorem picked_property_compared_witness:
  "\<exists>ts row. dump qt_decimal text_doubles sample_tree 0 sample_properties = Some ts \<and>
     dialog_clicked qt_decimal (Some (row, 3)) (new_PropertyDialog (fromXml qt_decimal text_doubles ts), new_ScriptEditor) =
       Inr ((new_PropertyDialog (fromXml qt_decimal text_doubles ts))\<lparr>dlg_deleted := True\<rparr>,
         insertLine (compare_path @ objectName qt_decimal sample_tree 0 @ compare_name @ ''visible'' @ compare_value @
           ''true'' @ compare_end) new_ScriptEditor)"
proof -
  let ?p = "sample_properties ! 0"
  have path: "objectPath qt_decimal sample_tree 0 = Some (objectName qt_decimal sample_tree 0)" by code_simp
  then obtain ts where ts: "dump qt_decimal text_doubles sample_tree 0 sample_properties = Some ts"
    by (auto simp: dump_def)
  have 1: "\<forall>p \<in> set sample_properties. well_typed p" "distinct (map prop_name sample_properties)"
      "?p \<in> set sample_properties" "comparable ?p"
    by (simp_all add: sample_properties_def well_typed_def is_int_def comparable_def)
  have 2: "percent \<notin> set (objectName qt_decimal sample_tree 0)" "percent \<notin> set (prop_name ?p)" by code_simp+
  have v: "prop_read ?p = PBool True" "prop_name ?p = ''visible''" by (simp_all add: sample_properties_def)
  show ?thesis
    using picked_property_compared [OF qt_decimal_reads_back 1(1,2) ts 1(3,4) path 2 refl, of undefined new_ScriptEditor] ts
    unfolding v by auto
qed

end
