(* ===== verification/Hooq_Session.thy ===== *)
theory Hooq_Session
  imports Playback_Loop Test_Files
begin

text \<open>
  How a session begins and ends: the connection that the front end accepts
  (\<open>hooqInjector/RemoteConnection.cpp\<close>, \<open>RemoteLogger.cpp\<close>, \<open>RemotePlayback.cpp\<close>), the commands that
  \<open>Marshall\<close> reads inside the application (\<open>injectedHooq/Marshall.cpp\<close>), the command line front end
  (\<open>hooqcli/main.cpp\<close>) and the handshake with which the interpreter closes the application.
\<close>

section \<open>Marshall\<close>

datatype marshall_mode = Awaiting | Recording | Playing | Quitting | Fatal qtext

record marshall =
  ma_mode :: marshall_mode
  ma_written :: "qtext list"

text \<open>
  \<open>readCommand\<close>: the loop over the lines that can be read ends at the first one; the lines behind
  it are left for the recorder or the player. An unknown command aborts the application.
\<close>

definition readCommand :: "qtext list \<Rightarrow> marshall \<Rightarrow> marshall \<times> qtext list" where
  "readCommand available M = (case available of
     [] \<Rightarrow> (M, [])
   | command # rest \<Rightarrow>
       if command = ''RECORD'' @ [newline] then (M\<lparr>ma_mode := Recording\<rparr>, rest)
       else if command = ''PLAY'' @ [newline] then (M\<lparr>ma_mode := Playing\<rparr>, rest)
       else if command = ''DIE'' @ [newline]
         then (M\<lparr>ma_mode := Quitting, ma_written := ma_written M @ [''ACK'' @ [newline]]\<rparr>, rest)
       else (M\<lparr>ma_mode := Fatal command\<rparr>, rest))"

text \<open>When the player has finished, \<open>Marshall\<close> listens to the socket again.\<close>

definition reconnect :: "qtext list \<Rightarrow> marshall \<Rightarrow> marshall \<times> qtext list" where
  "reconnect available M = readCommand available (M\<lparr>ma_mode := Awaiting\<rparr>)"

section \<open>Connections\<close>

text \<open>A server with the sockets that wait to be accepted, and what was written to each socket.\<close>

record server =
  sv_pending :: "nat list"
  sv_written :: "(nat \<times> qtext) list"

text \<open>Who is connected to the \<open>newConnection\<close> signal of the server, through a \<open>RemoteConnection\<close>.\<close>

datatype receiver = ToLogger | ToPlayback qtext

datatype link_error = NullSocket

definition nextPendingConnection :: "server \<Rightarrow> nat option \<times> server" where
  "nextPendingConnection sv = (case sv_pending sv of
     [] \<Rightarrow> (None, sv) | s # ss \<Rightarrow> (Some s, sv\<lparr>sv_pending := ss\<rparr>))"

definition write_socket :: "nat option \<Rightarrow> qtext list \<Rightarrow> server \<Rightarrow> link_error + server" where
  "write_socket socket texts sv = (case socket of
     None \<Rightarrow> Inl NullSocket
   | Some s \<Rightarrow> Inr (sv\<lparr>sv_written := sv_written sv @ map (Pair s) texts\<rparr>))"

definition startLogging :: "nat option \<Rightarrow> server \<Rightarrow> link_error + server" where
  "startLogging socket sv = write_socket socket [''RECORD'' @ [newline]] sv"

definition startPlayback :: "qtext \<Rightarrow> nat option \<Rightarrow> server \<Rightarrow> link_error + server" where
  "startPlayback log socket sv = write_socket socket [''PLAY'' @ [newline], log] sv"

definition acceptConnection :: "receiver \<Rightarrow> server \<Rightarrow> link_error + server" where
  "acceptConnection r sv =
     (let (socket, sv') = nextPendingConnection sv
      in case r of ToLogger \<Rightarrow> startLogging socket sv' | ToPlayback log \<Rightarrow> startPlayback log socket sv')"

text \<open>The signal reaches its receivers in the order in which they were connected.\<close>

fun newConnection :: "receiver list \<Rightarrow> server \<Rightarrow> link_error + server" where
  "newConnection [] sv = Inr sv"
| "newConnection (r # rs) sv = (case acceptConnection r sv of Inl e \<Rightarrow> Inl e | Inr sv' \<Rightarrow> newConnection rs sv')"

section \<open>hooqcli\<close>

datatype cli_mode = Record | Replay

text \<open>
  \<open>main\<close> up to the event loop: the exit code 1, or the mode, the application and the receivers that
  are connected. \<open>RemoteLogger\<close> and \<open>RemotePlayback\<close> are both created, in either mode.
\<close>

definition cli_log :: "disk \<Rightarrow> (bytes \<Rightarrow> qtext) \<Rightarrow> cli_mode \<Rightarrow> qtext" where
  "cli_log d decode mode = (case mode of
     Record \<Rightarrow> []
   | Replay \<Rightarrow> decode (case read_file d ''eventLog.xml'' of None \<Rightarrow> [] | Some b \<Rightarrow> b))"

definition hooqcli_main ::
    "disk \<Rightarrow> (bytes \<Rightarrow> qtext) \<Rightarrow> (qtext \<Rightarrow> qtext) \<Rightarrow> qtext list \<Rightarrow> int + cli_mode \<times> qtext \<times> receiver list" where
  "hooqcli_main d decode fromNativeSeparators arguments =
     (let start = (\<lambda>mode.
        let application = fromNativeSeparators (last arguments)
        in if \<not> file_exists d application then Inl 1
           else Inr (mode, application, [ToLogger, ToPlayback (cli_log d decode mode)]))
      in if ''--record'' \<in> set arguments then start Record
         else if ''--play'' \<in> set arguments then start Replay
         else Inl 1)"

text \<open>
  C38. The command line front end fails as soon as the application connects: in either mode the
  recorder takes the connection and the playback is started on no socket at all.
\<close>

theorem hooqcli_fails_on_connection:
  assumes "hooqcli_main d decode f arguments = Inr (mode, application, receivers)" and "sv_pending sv = [s]"
  shows "acceptConnection ToLogger sv = Inr (sv\<lparr>sv_pending := [], sv_written := sv_written sv @ [(s, ''RECORD'' @ [newline])]\<rparr>) \<and>
    newConnection receivers sv = Inl NullSocket"
proof -
  have "\<exists>log. receivers = [ToLogger, ToPlayback log]"
    using assms(1) by (auto simp: hooqcli_main_def Let_def split: if_splits)
  with assms(2) show ?thesis
    by (auto simp: acceptConnection_def nextPendingConnection_def startLogging_def startPlayback_def write_socket_def)
qed

theorem hooqcli_fails_on_connection_witness:
  "\<exists>mode application receivers.
     hooqcli_main (empty_disk\<lparr>d_files := [(''editor'', [])]\<rparr>) (\<lambda>b. []) id [''hooqcli'', ''--record'', ''editor''] =
       Inr (mode, application, receivers) \<and>
     newConnection receivers \<lparr>sv_pending = [7], sv_written = []\<rparr> = Inl NullSocket"
proof -
  have "hooqcli_main (empty_disk\<lparr>d_files := [(''editor'', [])]\<rparr>) (\<lambda>b. []) id [''hooqcli'', ''--record'', ''editor''] =
      Inr (Record, ''editor'', [ToLogger, ToPlayback []])"
    by (simp add: hooqcli_main_def file_exists_def qm_contains_def cli_log_def empty_disk_def)
  from hooqcli_fails_on_connection [OF this, of "\<lparr>sv_pending = [7], sv_written = []\<rparr>" 7] this show ?thesis by auto
qed

text \<open>The windows of the graphical front end connect one receiver, which gets the socket.\<close>

lemma one_receiver_gets_socket:
  assumes "sv_pending sv = [s]"
  shows "newConnection [ToLogger] sv = Inr (sv\<lparr>sv_pending := [], sv_written := sv_written sv @ [(s, ''RECORD'' @ [newline])]\<rparr>)"
  using assms by (simp add: acceptConnection_def nextPendingConnection_def startLogging_def write_socket_def)

section \<open>Closing the application\<close>

text \<open>The document ends: the end of the \<open>hooq\<close> element and of the document.\<close>

definition closing_tokens :: xml_stream where
  "closing_tokens = [EndElement ''hooq'', EndDocument]"

lemma player_reads_end:
  assumes "\<not> m_processingEvents P" and "m_eventQueue P = []" and "p_stream P = closing_tokens"
  shows "\<exists>P'. readNext q ops x11 P = Inr P' \<and> p_finished P' \<and> \<not> p_connected P' \<and>
    p_written P' = p_written P @ (if m_ackNext P then [R_ACK] else [])"
  using assms
  by (simp add: readNext.simps [of q ops x11 P] closing_tokens_def)
     (simp add: readNext.simps processEvents_def ack_def send_def)

lemma closeApplication_waits:
  assumes "ready I" and "i_device I"
  shows "i_wait (closeApplication None I) = WaitCloseAck" "m_pendingAcks (closeApplication None I) = 1"
    "i_device (closeApplication None I)"
    "i_written (closeApplication None I) = i_written I @ [O_EndDocument]"
  using assms by (simp_all add: closeApplication_def begin_waitForAck_def setAck_def put_def ready_def i_ack_def)

text \<open>An acknowledgement that arrives at a waiting interpreter.\<close>

lemma processSocketData_ack: "processSocketData [''ACK'' @ [newline]] I = setAck True I"
proof -
  have "read_line (''ACK'' @ [newline]) = GotAck" by (simp add: read_line_def trimmed_def is_space_def)
  then show ?thesis by (simp add: processSocketData_def process_response_def)
qed

text \<open>
  C39. Closing the application completes: the interpreter ends the document, the player
  acknowledges it and finishes, \<open>Marshall\<close> reads \<open>DIE\<close>, acknowledges and quits the application,
  and the interpreter ends up detached, without a device and with nothing pending. The player
  only acknowledges the end when the last event it handled was to be acknowledged: without that
  (a script that sent no event, whose flag was never set) the interpreter goes on waiting.
\<close>

theorem closing_handshake:
  assumes "ready I" and "i_device I" and "\<not> m_processingEvents P" and "m_eventQueue P = []"
    and "p_stream P = closing_tokens"
  shows "\<exists>P'. readNext q ops x11 P = Inr P' \<and> p_finished P' \<and>
    (let replies = drop (length (p_written P)) (p_written P');
         I1 = end_wait q (processSocketData (map reply_line replies) (closeApplication None I));
         (M', rest) = reconnect [''DIE'' @ [newline]] M;
         I2 = end_wait q (processSocketData (drop (length (ma_written M)) (ma_written M')) I1)
     in if m_ackNext P
        then i_written I1 = i_written I @ [O_EndDocument, O_DIE] \<and> ma_mode M' = Quitting \<and>
          m_attachState I2 = NotAttached \<and> \<not> i_device I2 \<and> i_wait I2 = NoWait \<and> m_pendingAcks I2 = 0
        else I1 = closeApplication None I \<and> i_wait I1 = WaitCloseAck)"
proof -
  obtain P' where P': "readNext q ops x11 P = Inr P'" "p_finished P'"
      "p_written P' = p_written P @ (if m_ackNext P then [R_ACK] else [])"
    using player_reads_end [OF assms(3-5), of q ops x11] by blast
  let ?I = "closeApplication None I"
  note waits = closeApplication_waits [OF assms(1,2)]
  show ?thesis
  proof (cases "m_ackNext P")
    case True
    let ?I1 = "close_die ((setAck True ?I)\<lparr>i_wait := NoWait\<rparr>)"
    have I1: "end_wait q (processSocketData [''ACK'' @ [newline]] ?I) = ?I1"
      unfolding processSocketData_ack using waits by (simp add: end_wait_def setAck_def i_ack_def)
    have die: "i_wait ?I1 = WaitDieAck" "m_pendingAcks ?I1 = 1" "i_written ?I1 = i_written I @ [O_EndDocument, O_DIE]"
      using waits by (simp_all add: close_die_def begin_waitForAck_def setAck_def put_def)
    have "end_wait q (processSocketData [''ACK'' @ [newline]] ?I1) = close_done (setAck True ?I1)"
      unfolding processSocketData_ack using die by (simp add: end_wait_def setAck_def i_ack_def)
    moreover have "reply_line R_ACK = ''ACK'' @ [newline]" by (simp add: reply_line_def)
    ultimately show ?thesis
      using P' True I1 die
      by (intro exI [of _ P']) (simp add: reconnect_def readCommand_def Let_def setAck_def close_done_def)
  next
    case False
    with P' waits show ?thesis
      by (intro exI [of _ P']) (simp add: reconnect_def readCommand_def Let_def processSocketData_def end_wait_def i_ack_def)
  qed
qed

theorem closing_handshake_witness:
  "\<exists>P'. readNext qt_decimal sample_ops True ((new_Player True ())\<lparr>p_stream := closing_tokens\<rparr>) = Inr P' \<and> p_finished P'"
proof -
  let ?I = "(setSocket fresh_interpreter)\<lparr>i_wait := NoWait\<rparr>"
  have "ready ?I" "i_device ?I"
    by (simp_all add: ready_def setSocket_def put_def i_ack_def fresh_interpreter_def)
  from closing_handshake [OF this, of "(new_Player True ())\<lparr>p_stream := closing_tokens\<rparr>" qt_decimal sample_ops True "\<lparr>ma_mode = Playing, ma_written = []\<rparr>"]
  show ?thesis by (auto simp: new_Player_def)
qed

end
