(* ===== verification/Script_Highlighter.thy ===== *)
theory Script_Highlighter
  imports Script_Items Qt_Decimal
begin

text \<open>
  The syntax highlighter of the script editor (\<open>qscripthighlighter/qscripthighlighter.cpp\<close>): one
  line at a time, a state machine over the characters decides which ranges of the line get which
  format. The calls of \<open>setFormat\<close> are recorded in order; \<open>painted\<close> is what Qt makes of them.
  The character classes that \<open>qt\<close> does not have are the record \<open>char_classes\<close>. The functions
  called for parentheses are empty.
\<close>

section \<open>States, inputs and formats\<close>

datatype hl_state =
    StateStandard | StateCommentStart1 | StateCCommentStart2 | StateCppCommentStart2 | StateCComment
  | StateCppComment | StateCCommentEnd1 | StateCCommentEnd2 | StateStringStart | StateString
  | StateStringEnd | StateString2Start | StateString2 | StateString2End | StateNumber | StatePreProcessor

datatype hl_input =
    InputAlpha | InputNumber | InputAsterix | InputSlash | InputParen | InputSpace | InputHash
  | InputQuotation | InputApostrophe | InputSep

datatype hl_format =
    EmptyFormat | NumberFormat | StringFormat | TypeFormat | KeywordFormat | PreProcessorFormat
  | LabelFormat | CommentFormat

definition qscriptKeywords :: "qtext list" where
  "qscriptKeywords =
     [''Infinity'', ''NaN'', ''abstract'', ''boolean'', ''break'', ''byte'', ''case'', ''catch'',
      ''char'', ''class'', ''const'', ''constructor'', ''continue'', ''debugger'', ''default'',
      ''delete'', ''do'', ''double'', ''else'', ''enum'', ''export'', ''extends'', ''false'',
      ''final'', ''finally'', ''float'', ''for'', ''function'', ''goto'', ''if'', ''implements'',
      ''import'', ''in'', ''instanceof'', ''int'', ''interface'', ''long'', ''native'', ''new'',
      ''package'', ''private'', ''protected'', ''public'', ''return'', ''short'', ''static'',
      ''super'', ''switch'', ''synchronized'', ''this'', ''throw'', ''throws'', ''transient'',
      ''true'', ''try'', ''typeof'', ''undefined'', ''var'', ''void'', ''volatile'', ''while'',
      ''with'']"

text \<open>The rows of the table, in the order of the inputs.\<close>

definition table_row :: "hl_state \<Rightarrow> hl_state list" where
  "table_row s = (case s of
  StateStandard \<Rightarrow>
      [StateStandard, StateNumber, StateStandard, StateCommentStart1, StateStandard,
       StateStandard, StatePreProcessor, StateStringStart, StateString2Start, StateStandard]
 | StateCommentStart1 \<Rightarrow>
      [StateStandard, StateNumber, StateCCommentStart2, StateCppCommentStart2, StateStandard,
       StateStandard, StatePreProcessor, StateStringStart, StateString2Start, StateStandard]
 | StateCCommentStart2 \<Rightarrow>
      [StateCComment, StateCComment, StateCCommentEnd1, StateCComment, StateCComment,
       StateCComment, StateCComment, StateCComment, StateCComment, StateCComment]
 | StateCppCommentStart2 \<Rightarrow>
      [StateCppComment, StateCppComment, StateCppComment, StateCppComment, StateCppComment,
       StateCppComment, StateCppComment, StateCppComment, StateCppComment, StateCppComment]
 | StateCComment \<Rightarrow>
      [StateCComment, StateCComment, StateCCommentEnd1, StateCComment, StateCComment,
       StateCComment, StateCComment, StateCComment, StateCComment, StateCComment]
 | StateCppComment \<Rightarrow>
      [StateCppComment, StateCppComment, StateCppComment, StateCppComment, StateCppComment,
       StateCppComment, StateCppComment, StateCppComment, StateCppComment, StateCppComment]
 | StateCCommentEnd1 \<Rightarrow>
      [StateCComment, StateCComment, StateCCommentEnd1, StateCCommentEnd2, StateCComment,
       StateCComment, StateCComment, StateCComment, StateCComment, StateCComment]
 | StateCCommentEnd2 \<Rightarrow>
      [StateStandard, StateNumber, StateStandard, StateCommentStart1, StateStandard,
       StateStandard, StatePreProcessor, StateStringStart, StateString2Start, StateStandard]
 | StateStringStart \<Rightarrow>
      [StateString, StateString, StateString, StateString, StateString,
       StateString, StateString, StateStringEnd, StateString, StateString]
 | StateString \<Rightarrow>
      [StateString, StateString, StateString, StateString, StateString,
       StateString, StateString, StateStringEnd, StateString, StateString]
 | StateStringEnd \<Rightarrow>
      [StateStandard, StateStandard, StateStandard, StateCommentStart1, StateStandard,
       StateStandard, StatePreProcessor, StateStringStart, StateString2Start, StateStandard]
 | StateString2Start \<Rightarrow>
      [StateString2, StateString2, StateString2, StateString2, StateString2,
       StateString2, StateString2, StateString2, StateString2End, StateString2]
 | StateString2 \<Rightarrow>
      [StateString2, StateString2, StateString2, StateString2, StateString2,
       StateString2, StateString2, StateString2, StateString2End, StateString2]
 | StateString2End \<Rightarrow>
      [StateStandard, StateStandard, StateStandard, StateCommentStart1, StateStandard,
       StateStandard, StatePreProcessor, StateStringStart, StateString2Start, StateStandard]
 | StateNumber \<Rightarrow>
      [StateNumber, StateNumber, StateStandard, StateCommentStart1, StateStandard,
       StateStandard, StatePreProcessor, StateStringStart, StateString2Start, StateStandard]
 | StatePreProcessor \<Rightarrow>
      [StatePreProcessor, StateStandard, StateStandard, StateCommentStart1, StateStandard,
       StateStandard, StatePreProcessor, StateStringStart, StateString2Start, StateStandard])"

definition input_index :: "hl_input \<Rightarrow> nat" where
  "input_index x = (case x of InputAlpha \<Rightarrow> 0 | InputNumber \<Rightarrow> 1 | InputAsterix \<Rightarrow> 2 | InputSlash \<Rightarrow> 3
     | InputParen \<Rightarrow> 4 | InputSpace \<Rightarrow> 5 | InputHash \<Rightarrow> 6 | InputQuotation \<Rightarrow> 7 | InputApostrophe \<Rightarrow> 8
     | InputSep \<Rightarrow> 9)"

definition table :: "hl_state \<Rightarrow> hl_input \<Rightarrow> hl_state" where
  "table s x = table_row s ! input_index x"

record char_classes =
  ch_isSpace :: "char \<Rightarrow> bool"
  ch_isLetter :: "char \<Rightarrow> bool"

section \<open>The variables of highlightBlock\<close>

text \<open>A call of \<open>setFormat\<close>: start, count and format.\<close>

type_synonym format_call = "int \<times> int \<times> hl_format"

text \<open>
  \<open>h_input\<close>: \<open>None\<close> stands for \<open>-1\<close>; \<open>h_lastChar\<close> starts as the null character.
\<close>

record highlighter =
  h_state :: hl_state
  h_input :: "hl_input option"
  h_buffer :: qtext
  h_lastWasBackSlash :: bool
  h_makeLastStandard :: bool
  h_questionMark :: bool
  h_lastChar :: char
  h_firstNonSpace :: int
  h_lastNonSpace :: int
  h_calls :: "format_call list"

definition setFormat :: "int \<Rightarrow> int \<Rightarrow> hl_format \<Rightarrow> highlighter \<Rightarrow> highlighter" where
  "setFormat start count format H = H\<lparr>h_calls := h_calls H @ [(start, count, format)]\<rparr>"

definition highlightKeyword :: "qt \<Rightarrow> bool \<Rightarrow> int \<Rightarrow> qtext \<Rightarrow> highlighter \<Rightarrow> highlighter" where
  "highlightKeyword q dui currentPos buffer H =
     (if buffer = [] then H
      else if (dui \<and> qt_isUpper q (hd buffer)) \<or> (\<not> dui \<and> hd buffer = CHR ''Q'')
      then setFormat (currentPos - int (length buffer)) (int (length buffer)) TypeFormat H
      else if buffer \<in> set qscriptKeywords
      then setFormat (currentPos - int (length buffer)) (int (length buffer)) KeywordFormat H
      else H)"

definition alphabeth :: qtext where
  "alphabeth = ''abcdefghijklmnopqrstuvwxyzABCDEFGHIJKLMNOPQRSTUVWXYZ''"

definition mathChars :: qtext where "mathChars = ''xXeE''"

definition numbers :: qtext where "numbers = ''0123456789''"

section \<open>Classifying a character\<close>

definition digit_input :: "qtext \<Rightarrow> nat \<Rightarrow> highlighter \<Rightarrow> hl_input" where
  "digit_input text i H =
     (if h_lastChar H \<in> set alphabeth \<and> (h_lastChar H \<notin> set mathChars \<or> text ! (i - 1) \<notin> set numbers)
      then InputAlpha
      else if h_input H = Some InputAlpha \<and> h_lastChar H \<in> set numbers then InputAlpha
      else InputNumber)"

text \<open>
  The loops that go back from a colon: the argument is the position behind the character that is
  looked at next, \<open>start + 1\<close> in the code.
\<close>

fun skip_back :: "(char \<Rightarrow> bool) \<Rightarrow> qtext \<Rightarrow> nat \<Rightarrow> nat" where
  "skip_back P text 0 = 0"
| "skip_back P text (Suc n) = (if P (text ! n) then skip_back P text n else Suc n)"

definition label_char :: "qt \<Rightarrow> char \<Rightarrow> bool" where
  "label_char q c \<longleftrightarrow> qt_isLetterOrNumber q c \<or> c = CHR ''_'' \<or> c = CHR ''.''"

definition is_binding :: "qtext \<Rightarrow> nat \<Rightarrow> highlighter \<Rightarrow> bool" where
  "is_binding text i H \<longleftrightarrow>
     (let nextChar = (if int i < int (length text) - 1 then text ! (i + 1) else CHR '' '')
      in h_state H = StateStandard \<and> \<not> h_questionMark H \<and> h_lastChar H \<noteq> CHR '':'' \<and> nextChar \<noteq> CHR '':'')"

definition format_binding :: "qt \<Rightarrow> char_classes \<Rightarrow> bool \<Rightarrow> qtext \<Rightarrow> nat \<Rightarrow> highlighter \<Rightarrow> highlighter" where
  "format_binding q k dui text i H =
     (let lastNonSpace = skip_back (ch_isSpace k) text i;
          start = skip_back (label_char q) text lastNonSpace
      in setFormat (int start) (int i - int start)
           (if dui \<and> take (lastNonSpace - start) (drop start text) = ''id'' then KeywordFormat else LabelFormat) H)"

text \<open>
  The first part of the loop body: the input of the character, whether a binding was formatted,
  and the variables.
\<close>

definition classify ::
    "qt \<Rightarrow> char_classes \<Rightarrow> bool \<Rightarrow> qtext \<Rightarrow> nat \<Rightarrow> highlighter \<Rightarrow> hl_input \<times> bool \<times> highlighter" where
  "classify q k dui text i H =
     (let c = text ! i in
      if h_lastWasBackSlash H then (InputSep, False, H)
      else if c = CHR ''*'' then (InputAsterix, False, H)
      else if c = CHR ''/'' then (InputSlash, False, H)
      else if c \<in> set ''([{'' then (InputParen, False, H)
      else if c \<in> set '')]}'' then (InputParen, False, H)
      else if c = CHR ''#'' then (InputHash, False, H)
      else if c = dquote then (InputQuotation, False, H)
      else if c = CHR 0x27 then (InputApostrophe, False, H)
      else if c = CHR '' '' then (InputSpace, False, H)
      else if c \<in> set numbers then (digit_input text i H, False, H)
      else if c = CHR '':'' then
        (if is_binding text i H then (InputSep, True, format_binding q k dui text i H)
         else (InputSep, False, H))
      else
        (if ch_isLetter k c \<or> c = CHR ''_'' then InputAlpha else InputSep, False,
         if \<not> h_questionMark H \<and> c = CHR ''?'' then H\<lparr>h_questionMark := True\<rparr> else H))"

section \<open>The switch over the new state\<close>

definition standardize_last :: "nat \<Rightarrow> highlighter \<Rightarrow> highlighter" where
  "standardize_last i H =
     (if h_makeLastStandard H then setFormat (int i - 1) 1 EmptyFormat H else H)"

definition state_format :: "hl_state \<Rightarrow> hl_format" where
  "state_format s = (case s of
     StateCComment \<Rightarrow> CommentFormat | StateCppComment \<Rightarrow> CommentFormat
   | StateCCommentEnd1 \<Rightarrow> CommentFormat | StateCCommentEnd2 \<Rightarrow> CommentFormat
   | StateString \<Rightarrow> StringFormat | StateString2 \<Rightarrow> StringFormat
   | StateNumber \<Rightarrow> NumberFormat | StatePreProcessor \<Rightarrow> PreProcessorFormat
   | _ \<Rightarrow> EmptyFormat)"

definition format_state :: "qt \<Rightarrow> bool \<Rightarrow> nat \<Rightarrow> hl_input \<Rightarrow> bool \<Rightarrow> highlighter \<Rightarrow> highlighter" where
  "format_state q dui i input lookAtBinding H = (case h_state H of
     StateStandard \<Rightarrow>
       (let H1 = (standardize_last i (setFormat (int i) 1 EmptyFormat H))\<lparr>h_makeLastStandard := False\<rparr>
        in if h_buffer H1 \<noteq> [] \<and> input \<noteq> InputAlpha
           then (if lookAtBinding then H1 else highlightKeyword q dui (int i) (h_buffer H1) H1)\<lparr>h_buffer := []\<rparr>
           else H1)
   | StateCommentStart1 \<Rightarrow> (standardize_last i H)\<lparr>h_makeLastStandard := True, h_buffer := []\<rparr>
   | StateCCommentStart2 \<Rightarrow>
       (setFormat (int i - 1) 2 CommentFormat H)\<lparr>h_makeLastStandard := False, h_buffer := []\<rparr>
   | StateCppCommentStart2 \<Rightarrow>
       (setFormat (int i - 1) 2 CommentFormat H)\<lparr>h_makeLastStandard := False, h_buffer := []\<rparr>
   | s \<Rightarrow>
       (setFormat (int i) 1 (state_format s) ((standardize_last i H)\<lparr>h_makeLastStandard := False\<rparr>))\<lparr>h_buffer := []\<rparr>)"

section \<open>highlightBlock\<close>

text \<open>The middle of the loop body: the variables after the character has been classified.\<close>

definition advance :: "nat \<Rightarrow> char \<Rightarrow> hl_input \<Rightarrow> highlighter \<Rightarrow> highlighter" where
  "advance i c input H =
     H\<lparr>h_firstNonSpace := (if input \<noteq> InputSpace \<and> h_firstNonSpace H < 0 then int i else h_firstNonSpace H),
       h_lastNonSpace := (if input \<noteq> InputSpace then int i else h_lastNonSpace H),
       h_input := Some input,
       h_lastWasBackSlash := \<not> h_lastWasBackSlash H \<and> c = backslash,
       h_buffer := (if input = InputAlpha then h_buffer H @ [c] else h_buffer H),
       h_state := table (h_state H) input\<rparr>"

text \<open>One round of the loop, for the character at \<open>i\<close>.\<close>

definition highlight_step :: "qt \<Rightarrow> char_classes \<Rightarrow> bool \<Rightarrow> qtext \<Rightarrow> nat \<Rightarrow> highlighter \<Rightarrow> highlighter" where
  "highlight_step q k dui text i H =
     (let (input, lookAtBinding, H1) = classify q k dui text i H
      in (format_state q dui i input lookAtBinding (advance i (text ! i) input H1))\<lparr>h_lastChar := text ! i\<rparr>)"

definition onBlockStart :: "hl_state option \<Rightarrow> hl_state" where
  "onBlockStart previousState = (case previousState of None \<Rightarrow> StateStandard | Some s \<Rightarrow> s)"

definition block_start :: "hl_state option \<Rightarrow> highlighter" where
  "block_start previousState =
     \<lparr>h_state = onBlockStart previousState, h_input = None, h_buffer = [], h_lastWasBackSlash = False,
      h_makeLastStandard = False, h_questionMark = False, h_lastChar = CHR 0x00, h_firstNonSpace = -1,
      h_lastNonSpace = -1, h_calls = []\<rparr>"

text \<open>The state that is kept for the next line.\<close>

definition block_end_state :: "hl_state \<Rightarrow> hl_state" where
  "block_end_state s =
     (if s = StateCComment \<or> s = StateCCommentEnd1 \<or> s = StateCCommentStart2 then StateCComment else StateStandard)"

text \<open>The state of the block afterwards, the calls of \<open>setFormat\<close> and the first character that is no space.\<close>

definition highlightBlock ::
    "qt \<Rightarrow> char_classes \<Rightarrow> bool \<Rightarrow> hl_state option \<Rightarrow> qtext \<Rightarrow> hl_state \<times> format_call list \<times> int" where
  "highlightBlock q k dui previousState text =
     (if text = [] then (onBlockStart previousState, [], 0)
      else
        let H = fold (highlight_step q k dui text) [0..<length text] (block_start previousState);
            H' = highlightKeyword q dui (int (length text)) (h_buffer H) H
        in (block_end_state (h_state H'), h_calls H', h_firstNonSpace H'))"

text \<open>The lines of a document, each with the state the line before it left.\<close>

fun highlight_lines ::
    "qt \<Rightarrow> char_classes \<Rightarrow> bool \<Rightarrow> hl_state option \<Rightarrow> qtext list \<Rightarrow> format_call list list" where
  "highlight_lines q k dui s [] = []"
| "highlight_lines q k dui s (l # ls) =
     (let (s', calls, n) = highlightBlock q k dui s l in calls # highlight_lines q k dui (Some s') ls)"

section \<open>What Qt makes of the calls\<close>

text \<open>
  \<open>QSyntaxHighlighter::setFormat\<close>: a start outside the line is ignored, a range that is too long
  is cut.
\<close>

definition paint :: "format_call \<Rightarrow> hl_format list \<Rightarrow> hl_format list" where
  "paint r fs = (case r of (start, count, f) \<Rightarrow>
     if start < 0 \<or> int (length fs) \<le> start then fs
     else map (\<lambda>j. if start \<le> int j \<and> int j < start + count then f else fs ! j) [0..<length fs])"

definition painted :: "nat \<Rightarrow> format_call list \<Rightarrow> hl_format list" where
  "painted n calls = fold paint calls (replicate n EmptyFormat)"

section \<open>The ranges that are formatted\<close>

text \<open>
  A good call formats a range that begins at or behind \<open>L\<close> and ends within the line; what it marks
  as a keyword is one.
\<close>

definition good_call :: "bool \<Rightarrow> qtext \<Rightarrow> nat \<Rightarrow> format_call \<Rightarrow> bool" where
  "good_call dui t L r = (case r of (start, count, f) \<Rightarrow>
     int L \<le> start \<and> 0 \<le> count \<and> start + count \<le> int (length t) \<and>
     (f = KeywordFormat \<and> \<not> dui \<longrightarrow> take (nat count) (drop (nat start) t) \<in> set qscriptKeywords))"

definition adds :: "(format_call \<Rightarrow> bool) \<Rightarrow> highlighter \<Rightarrow> highlighter \<Rightarrow> bool" where
  "adds G H H' \<longleftrightarrow> (\<exists>cs. h_calls H' = h_calls H @ cs \<and> (\<forall>r \<in> set cs. G r))"

lemma adds_same: "h_calls H' = h_calls H \<Longrightarrow> adds G H H'"
  by (simp add: adds_def)

lemma adds_trans [trans]: "adds G H H1 \<Longrightarrow> adds G H1 H2 \<Longrightarrow> adds G H H2"
  by (force simp: adds_def)

lemma adds_setFormat: "G (s, n, f) \<Longrightarrow> adds G H (setFormat s n f H)"
  by (simp add: adds_def setFormat_def)

lemma adds_cong: "h_calls H1 = h_calls H1' \<Longrightarrow> h_calls H2 = h_calls H2' \<Longrightarrow> adds G H1 H2 = adds G H1' H2'"
  by (simp add: adds_def)

lemma setFormat_frame [simp]:
  "h_state (setFormat s n f H) = h_state H" "h_buffer (setFormat s n f H) = h_buffer H"
  "h_input (setFormat s n f H) = h_input H" "h_lastWasBackSlash (setFormat s n f H) = h_lastWasBackSlash H"
  "h_makeLastStandard (setFormat s n f H) = h_makeLastStandard H"
  "h_questionMark (setFormat s n f H) = h_questionMark H" "h_lastChar (setFormat s n f H) = h_lastChar H"
  by (simp_all add: setFormat_def)

lemma table_comment_start:
  "table s x = StateCCommentStart2 \<or> table s x = StateCppCommentStart2 \<Longrightarrow> s = StateCommentStart1"
  by (cases s; cases x) (simp_all add: table_def table_row_def input_index_def)

lemma skip_back_le: "skip_back P t n \<le> n"
  by (induction P t n rule: skip_back.induct) auto

lemma skip_back_ge:
  "L \<le> n \<Longrightarrow> L = 0 \<or> \<not> P (t ! (L - 1)) \<Longrightarrow> L \<le> skip_back P t n"
proof (induction P t n rule: skip_back.induct)
  case (2 P t n)
  then show ?case by (cases "L = Suc n") auto
qed simp

text \<open>A position that a label does not reach across.\<close>

definition barrier :: "qt \<Rightarrow> char_classes \<Rightarrow> qtext \<Rightarrow> nat \<Rightarrow> bool" where
  "barrier q k t L \<longleftrightarrow> L = 0 \<or> \<not> ch_isSpace k (t ! (L - 1)) \<and> \<not> label_char q (t ! (L - 1))"

lemma adds_binding:
  assumes "barrier q k t L" and "L \<le> i" and "i < length t"
  shows "adds (good_call dui t L) H (format_binding q k dui t i H)"
proof -
  let ?last = "skip_back (ch_isSpace k) t i"
  let ?start = "skip_back (label_char q) t ?last"
  have last: "L \<le> ?last" by (rule skip_back_ge) (use assms(1,2) in \<open>auto simp: barrier_def\<close>)
  have "L \<le> ?start" by (rule skip_back_ge) (use last assms(1) in \<open>auto simp: barrier_def\<close>)
  moreover have "?start \<le> i" using skip_back_le le_trans by blast
  ultimately show ?thesis
    unfolding format_binding_def Let_def using assms(3) by (intro adds_setFormat) (auto simp: good_call_def)
qed

lemma adds_classify:
  assumes "barrier q k t L" and "L \<le> i" and "i < length t" and "classify q k dui t i H = (x, b, H1)"
  shows "adds (good_call dui t L) H H1"
proof -
  have "h_calls H1 = h_calls H \<or> H1 = format_binding q k dui t i H"
    using assms(4) by (auto simp: classify_def Let_def split: if_splits)
  with adds_binding [OF assms(1-3)] show ?thesis by (auto intro: adds_same)
qed

lemma adds_keyword:
  assumes "suffix buffer (drop L (take i t))" and "L \<le> i" and "i \<le> length t"
  shows "adds (good_call dui t L) H (highlightKeyword q dui (int i) buffer H)"
proof -
  from assms(1) obtain zs where zs: "drop L (take i t) = zs @ buffer" by (auto simp: suffix_def)
  have "length (drop L (take i t)) = i - L" using assms(3) by simp
  then have i: "i = L + length zs + length buffer" using assms(2) unfolding zs by simp
  have "t = take L t @ drop L (take i t) @ drop i t"
    by (metis append.assoc append_take_drop_id assms(2) min.absorb1 take_take)
  then have t: "t = (take L t @ zs) @ buffer @ drop i t" by (simp add: zs)
  have "length (take L t @ zs) = L + length zs" using assms(2,3) by simp
  then have "take (length buffer) (drop (L + length zs) t) = buffer"
    by (subst t) (simp del: append_assoc)
  then have "good_call dui t L (int i - int (length buffer), int (length buffer), f)"
    if "f = KeywordFormat \<longrightarrow> buffer \<in> set qscriptKeywords" for f
    using that i assms(3) by (simp add: good_call_def nat_add_distrib)
  then show ?thesis
    by (auto simp: highlightKeyword_def intro!: adds_setFormat intro: adds_same)
qed

lemma adds_last:
  "h_makeLastStandard H \<longrightarrow> L < i \<Longrightarrow> i < length t \<Longrightarrow> adds (good_call dui t L) H (standardize_last i H)"
  by (auto simp: standardize_last_def good_call_def intro!: adds_setFormat intro: adds_same)

lemma standardize_last_frame [simp]:
  "h_state (standardize_last i H) = h_state H" "h_buffer (standardize_last i H) = h_buffer H"
  "h_lastWasBackSlash (standardize_last i H) = h_lastWasBackSlash H"
  by (simp_all add: standardize_last_def)

lemma highlightKeyword_frame [simp]:
  "h_state (highlightKeyword q dui n b H) = h_state H" "h_lastWasBackSlash (highlightKeyword q dui n b H) = h_lastWasBackSlash H"
  "h_makeLastStandard (highlightKeyword q dui n b H) = h_makeLastStandard H"
  by (simp_all add: highlightKeyword_def)

lemma format_state_adds:
  assumes "i < length t" and "L \<le> i" and "h_makeLastStandard H \<longrightarrow> L < i"
    and "h_state H \<in> {StateCCommentStart2, StateCppCommentStart2} \<longrightarrow> L < i"
    and "x \<noteq> InputAlpha \<longrightarrow> suffix (h_buffer H) (drop L (take i t))"
  shows "adds (good_call dui t L) H (format_state q dui i x b H)"
proof -
  let ?adds = "adds (good_call dui t L)"
  have here: "?adds H' (setFormat (int i) 1 f H')" if "f \<noteq> KeywordFormat" for f H'
    using assms(1,2) that by (intro adds_setFormat) (simp add: good_call_def)
  have last: "?adds H' (standardize_last i H')" if "h_makeLastStandard H' = h_makeLastStandard H" for H'
    using that assms(1,3) by (intro adds_last) auto
  have other: "?adds H ((setFormat (int i) 1 (state_format s) ((standardize_last i H)\<lparr>h_makeLastStandard := False\<rparr>))\<lparr>h_buffer := []\<rparr>)" for s
  proof -
    have "state_format s \<noteq> KeywordFormat" by (simp add: state_format_def split: hl_state.split)
    with adds_trans [OF last [OF refl] here] show ?thesis by (simp add: adds_def setFormat_def)
  qed
  show ?thesis
  proof (cases "h_state H")
    case StateStandard
    define H1 where "H1 = (standardize_last i (setFormat (int i) 1 EmptyFormat H))\<lparr>h_makeLastStandard := False\<rparr>"
    have "?adds H (standardize_last i (setFormat (int i) 1 EmptyFormat H))"
      by (rule adds_trans [OF here last]) simp_all
    then have H1: "?adds H H1" "h_buffer H1 = h_buffer H" by (simp_all add: H1_def adds_def)
    have "?adds H1 (highlightKeyword q dui (int i) (h_buffer H1) H1)" if "x \<noteq> InputAlpha"
      using that assms(1,2,5) H1(2) by (intro adds_keyword) auto
    then have kw: "?adds H (highlightKeyword q dui (int i) (h_buffer H1) H1)" if "x \<noteq> InputAlpha"
      using that H1(1) adds_trans by blast
    have fs: "format_state q dui i x b H =
        (if h_buffer H1 \<noteq> [] \<and> x \<noteq> InputAlpha
         then (if b then H1 else highlightKeyword q dui (int i) (h_buffer H1) H1)\<lparr>h_buffer := []\<rparr> else H1)"
      unfolding format_state_def StateStandard H1_def by (simp add: Let_def)
    have "?adds H (H'\<lparr>h_buffer := []\<rparr>)" if "?adds H H'" for H'
      using that by (simp add: adds_def)
    with H1(1) kw show ?thesis unfolding fs by simp
  next
    case StateCommentStart1
    with last [OF refl] show ?thesis by (simp add: format_state_def adds_def)
  next
    case StateCCommentStart2
    with assms(1,4) show ?thesis by (simp add: format_state_def adds_def setFormat_def good_call_def)
  next
    case StateCppCommentStart2
    with assms(1,4) show ?thesis by (simp add: format_state_def adds_def setFormat_def good_call_def)
  qed (simp_all only: format_state_def hl_state.case other)
qed

lemma format_state_frame [simp]: "h_state (format_state q dui i x b H) = h_state H"
  by (simp add: format_state_def Let_def split: hl_state.split)

lemma format_state_buffer:
  "h_buffer (format_state q dui i x b H) = [] \<or>
     x = InputAlpha \<and> h_buffer (format_state q dui i x b H) = h_buffer H \<or>
     h_buffer H = [] \<and> h_buffer (format_state q dui i x b H) = []"
  by (cases "h_state H") (simp_all add: format_state_def Let_def)

text \<open>What holds before the character at \<open>i\<close>: \<open>base\<close> are the calls made up to position \<open>L\<close>.\<close>

definition hl_inv :: "bool \<Rightarrow> qtext \<Rightarrow> nat \<Rightarrow> highlighter \<Rightarrow> nat \<Rightarrow> highlighter \<Rightarrow> bool" where
  "hl_inv dui t L H0 i H \<longleftrightarrow>
     adds (good_call dui t L) H0 H \<and> suffix (h_buffer H) (drop L (take i t)) \<and>
     (h_makeLastStandard H \<longrightarrow> L < i) \<and> (h_state H = StateCommentStart1 \<longrightarrow> L < i)"

lemma classify_frame:
  assumes "classify q k dui t i H = (x, b, H1)"
  shows "h_state H1 = h_state H" "h_buffer H1 = h_buffer H" "h_makeLastStandard H1 = h_makeLastStandard H"
    "h_lastWasBackSlash H1 = h_lastWasBackSlash H"
  using assms by (auto simp: classify_def Let_def format_binding_def split: if_splits)

lemma highlight_step_inv:
  assumes "barrier q k t L" and "L \<le> i" and "i < length t" and "hl_inv dui t L H0 i H"
  shows "hl_inv dui t L H0 (Suc i) (highlight_step q k dui t i H)"
proof -
  obtain x b H1 where c: "classify q k dui t i H = (x, b, H1)" by (metis prod_cases3)
  note f = classify_frame [OF c]
  let ?H = "advance i (t ! i) x H1"
  have step: "highlight_step q k dui t i H = (format_state q dui i x b ?H)\<lparr>h_lastChar := t ! i\<rparr>"
    by (simp add: highlight_step_def c)
  have adv: "h_calls ?H = h_calls H1" "h_makeLastStandard ?H = h_makeLastStandard H"
      "h_state ?H = table (h_state H) x" "h_buffer ?H = (if x = InputAlpha then h_buffer H @ [t ! i] else h_buffer H)"
    using f by (simp_all add: advance_def)
  have "adds (good_call dui t L) ?H (format_state q dui i x b ?H)"
    using assms(2-4) table_comment_start [of "h_state H" x]
    by (intro format_state_adds) (auto simp: hl_inv_def adv)
  moreover have "adds (good_call dui t L) H0 H1"
    using adds_classify [OF assms(1-3) c] assms(4) adds_trans by (auto simp: hl_inv_def)
  ultimately have "adds (good_call dui t L) H0 (highlight_step q k dui t i H)"
    unfolding step by (force simp: adds_def adv)
  moreover have "drop L (take (Suc i) t) = drop L (take i t) @ [t ! i]"
    using assms(2,3) by (simp add: take_Suc_conv_app_nth)
  then have "suffix (h_buffer (highlight_step q k dui t i H)) (drop L (take (Suc i) t))"
    using format_state_buffer [of q dui i x b ?H] assms(4) unfolding step adv
    by (auto simp: hl_inv_def)
  ultimately show ?thesis using assms(2) by (simp add: hl_inv_def less_Suc_eq_le)
qed

lemma highlight_steps_inv:
  assumes "barrier q k t L" and "hl_inv dui t L H0 L H" and "L \<le> m" and "m \<le> length t"
  shows "hl_inv dui t L H0 m (fold (highlight_step q k dui t) [L..<m] H)"
  using assms(3,4)
proof (induction m rule: dec_induct)
  case base
  with assms(2) show ?case by simp
next
  case (step m)
  then show ?case using highlight_step_inv [OF assms(1)] by simp
qed

lemma highlightBlock_good:
  assumes "onBlockStart s \<in> {StateStandard, StateCComment}" and "highlightBlock q k dui s t = (s', calls, n)"
  shows "s' \<in> {StateStandard, StateCComment} \<and> (\<forall>r \<in> set calls. good_call dui t 0 r)"
proof (cases "t = []")
  case False
  define H where "H = fold (highlight_step q k dui t) [0..<length t] (block_start s)"
  define H' where "H' = highlightKeyword q dui (int (length t)) (h_buffer H) H"
  have "hl_inv dui t 0 (block_start s) 0 (block_start s)"
    using assms(1) by (auto simp: hl_inv_def block_start_def adds_def)
  then have inv: "hl_inv dui t 0 (block_start s) (length t) H"
    unfolding H_def by (intro highlight_steps_inv) (simp_all add: barrier_def)
  then have "suffix (h_buffer H) (drop 0 (take (length t) t))" by (simp add: hl_inv_def)
  then have "adds (good_call dui t 0) H H'" unfolding H'_def by (rule adds_keyword) simp_all
  with inv have "adds (good_call dui t 0) (block_start s) H'" unfolding hl_inv_def by (blast intro: adds_trans)
  moreover have "s' = block_end_state (h_state H')" and "calls = h_calls H'"
    using assms(2) False by (simp_all add: highlightBlock_def Let_def H_def H'_def)
  ultimately show ?thesis
    by (simp add: adds_def block_start_def block_end_state_def)
qed (use assms in \<open>auto simp: highlightBlock_def\<close>)

lemma highlight_lines_good:
  "onBlockStart s \<in> {StateStandard, StateCComment} \<Longrightarrow>
    list_all2 (\<lambda>l calls. \<forall>r \<in> set calls. good_call dui l 0 r) ls (highlight_lines q k dui s ls)"
proof (induction ls arbitrary: s)
  case (Cons l ls)
  obtain s' calls n where b: "highlightBlock q k dui s l = (s', calls, n)" by (metis prod_cases3)
  from highlightBlock_good [OF Cons.prems b] Cons.IH [of "Some s'"] b show ?case
    by (auto simp: onBlockStart_def)
qed simp

text \<open>
  C32. Highlighting stays inside the line: whatever the lines of a script are, every range that is
  formatted begins and ends within its line, also where the code goes back before the current
  character (the start of a comment, a label, the last word); and what is marked as a keyword
  is one of the keywords.
\<close>

theorem formats_in_bounds:
  "length (highlight_lines q k dui None ls) = length ls \<and>
   (\<forall>j < length ls. \<forall>(start, count, f) \<in> set (highlight_lines q k dui None ls ! j).
      0 \<le> start \<and> 0 \<le> count \<and> start + count \<le> int (length (ls ! j)) \<and>
      (f = KeywordFormat \<and> \<not> dui \<longrightarrow> take (nat count) (drop (nat start) (ls ! j)) \<in> set qscriptKeywords))"
proof -
  have "list_all2 (\<lambda>l calls. \<forall>r \<in> set calls. good_call dui l 0 r) ls (highlight_lines q k dui None ls)"
    by (rule highlight_lines_good) (simp add: onBlockStart_def)
  then show ?thesis by (fastforce simp: list_all2_conv_all_nth good_call_def)
qed

definition ascii_classes :: char_classes where
  "ascii_classes = \<lparr>ch_isSpace = (\<lambda>c. c = CHR '' ''), ch_isLetter = (\<lambda>c. c \<in> set alphabeth)\<rparr>"

theorem formats_in_bounds_witness:
  "list_all (\<lambda>(start, count, f). 0 \<le> start \<and> start + count \<le> 8)
     (highlight_lines qt_decimal ascii_classes False None [''if (x) y: 1'', ''/* a'', ''b */ var''] ! 2)"
proof -
  let ?ls = "[''if (x) y: 1'', ''/* a'', ''b */ var'']"
  have "2 < length ?ls" by simp
  with formats_in_bounds [of qt_decimal ascii_classes False ?ls]
  have "\<forall>(start, count, f) \<in> set (highlight_lines qt_decimal ascii_classes False None ?ls ! 2).
      0 \<le> start \<and> start + count \<le> int (length (?ls ! 2))"
    by fast
  then show ?thesis by (simp add: split_beta list_all_iff)
qed

section \<open>String literals\<close>

text \<open>The states of a script in which a quotation mark begins a string.\<close>

definition in_code :: "highlighter \<Rightarrow> bool" where
  "in_code H \<longleftrightarrow> table (h_state H) InputQuotation = StateStringStart \<and> \<not> h_lastWasBackSlash H"

definition in_string :: "highlighter \<Rightarrow> bool" where
  "in_string H \<longleftrightarrow> h_state H \<in> {StateStringStart, StateString} \<and> \<not> h_makeLastStandard H \<and> \<not> h_lastWasBackSlash H"

lemma classify_quotation:
  assumes "classify q k dui t i H = (x, b, H1)"
  shows "x = InputQuotation \<longleftrightarrow> \<not> h_lastWasBackSlash H \<and> t ! i = dquote"
  using assms by (auto simp: classify_def Let_def digit_input_def split: if_splits)

lemma classify_quiet:
  assumes "classify q k dui t i H = (x, b, H1)" and "h_state H \<noteq> StateStandard \<or> x = InputQuotation"
  shows "h_calls H1 = h_calls H"
  using assms by (auto simp: classify_def Let_def is_binding_def digit_input_def split: if_splits)

lemma table_string: "s \<in> {StateStringStart, StateString} \<Longrightarrow> table s x = (if x = InputQuotation then StateStringEnd else StateString)"
  by (cases x) (auto simp: table_def table_row_def input_index_def)

lemma highlight_step_other:
  assumes "classify q k dui t i H = (x, b, H1)" and "table (h_state H) x = s"
    and "s \<notin> {StateStandard, StateCommentStart1, StateCCommentStart2, StateCppCommentStart2}"
  shows "h_state (highlight_step q k dui t i H) = s" "h_buffer (highlight_step q k dui t i H) = []"
    "\<not> h_makeLastStandard (highlight_step q k dui t i H)"
    "h_lastWasBackSlash (highlight_step q k dui t i H) \<longleftrightarrow> \<not> h_lastWasBackSlash H \<and> t ! i = backslash"
    "h_calls (highlight_step q k dui t i H) = h_calls H1 @
       (if h_makeLastStandard H then [(int i - 1, 1, EmptyFormat)] else []) @ [(int i, 1, state_format s)]"
  using assms(2,3) classify_frame [OF assms(1)]
  by (cases s; simp add: highlight_step_def assms(1) format_state_def advance_def standardize_last_def setFormat_def)+

lemma step_in_string:
  assumes "h_state H \<in> {StateStringStart, StateString}" and "\<not> h_makeLastStandard H"
    and "h_lastWasBackSlash H \<or> t ! i \<noteq> dquote"
  shows "h_state (highlight_step q k dui t i H) = StateString" "\<not> h_makeLastStandard (highlight_step q k dui t i H)"
    "h_lastWasBackSlash (highlight_step q k dui t i H) \<longleftrightarrow> \<not> h_lastWasBackSlash H \<and> t ! i = backslash"
    "h_calls (highlight_step q k dui t i H) = h_calls H @ [(int i, 1, StringFormat)]"
proof -
  obtain x b H1 where c: "classify q k dui t i H = (x, b, H1)" by (metis prod_cases3)
  have "table (h_state H) x = StateString"
    using assms(1,3) classify_quotation [OF c] by (auto simp: table_string)
  moreover have "h_calls H1 = h_calls H" by (rule classify_quiet [OF c]) (use assms(1) in auto)
  ultimately show "h_state (highlight_step q k dui t i H) = StateString"
      "\<not> h_makeLastStandard (highlight_step q k dui t i H)"
      "h_lastWasBackSlash (highlight_step q k dui t i H) \<longleftrightarrow> \<not> h_lastWasBackSlash H \<and> t ! i = backslash"
      "h_calls (highlight_step q k dui t i H) = h_calls H @ [(int i, 1, StringFormat)]"
    using highlight_step_other [OF c] assms(2) by (simp_all add: state_format_def)
qed

lemma step_quotation:
  assumes "t ! i = dquote" and "\<not> h_lastWasBackSlash H" and "table (h_state H) InputQuotation = s"
    and "s = StateStringStart \<or> s = StateStringEnd"
  shows "h_state (highlight_step q k dui t i H) = s" "h_buffer (highlight_step q k dui t i H) = []"
    "\<not> h_makeLastStandard (highlight_step q k dui t i H)" "\<not> h_lastWasBackSlash (highlight_step q k dui t i H)"
    "\<exists>cs. h_calls (highlight_step q k dui t i H) = h_calls H @ cs @ [(int i, 1, EmptyFormat)]"
proof -
  obtain x b H1 where c: "classify q k dui t i H = (x, b, H1)" by (metis prod_cases3)
  have x: "x = InputQuotation" using classify_quotation [OF c] assms(1,2) by simp
  note other = highlight_step_other [OF c, unfolded x, OF assms(3)]
  show "h_state (highlight_step q k dui t i H) = s" "h_buffer (highlight_step q k dui t i H) = []"
    "\<not> h_makeLastStandard (highlight_step q k dui t i H)" "\<not> h_lastWasBackSlash (highlight_step q k dui t i H)"
    using other(1-4) assms by auto
  have "h_calls H1 = h_calls H" by (rule classify_quiet [OF c]) (simp add: x)
  then show "\<exists>cs. h_calls (highlight_step q k dui t i H) = h_calls H @ cs @ [(int i, 1, EmptyFormat)]"
    using other(5) assms(4) by (auto simp: state_format_def)
qed

text \<open>The calls that format the positions from \<open>i\<close> up to \<open>j\<close> as a string.\<close>

abbreviation string_calls :: "nat \<Rightarrow> nat \<Rightarrow> format_call list" where
  "string_calls i j \<equiv> map (\<lambda>n. (int n, 1, StringFormat)) [i..<j]"

lemma escaped_char_in_string:
  assumes "in_string H" and "drop i t = escape_char c @ rest"
  shows "in_string (fold (highlight_step q k dui t) [i..<i + length (escape_char c)] H) \<and>
    h_calls (fold (highlight_step q k dui t) [i..<i + length (escape_char c)] H) =
      h_calls H @ string_calls i (i + length (escape_char c))"
proof -
  have "escape_char c \<noteq> []" by (simp add: escape_char_def)
  then have "i \<le> length t" using assms(2) by (metis append_is_Nil_conv drop_all linear)
  then have at: "t ! (i + n) = (escape_char c @ rest) ! n" for n
    using nth_drop [of i t n] assms(2) by simp
  consider (single) "escape_char c = [c]" "c \<noteq> dquote" "c \<noteq> backslash" | (double) x where "escape_char c = [backslash, x]"
    unfolding escape_char_def by metis
  then show ?thesis
  proof cases
    case single
    with at [of 0] have "t ! i \<noteq> dquote" "t ! i \<noteq> backslash" by simp_all
    with single assms(1) step_in_string [of H t i q k dui] show ?thesis by (simp add: in_string_def)
  next
    case double
    let ?H1 = "highlight_step q k dui t i H"
    have "t ! i = backslash" using at [of 0] double by simp
    then have 1: "h_state ?H1 = StateString" "\<not> h_makeLastStandard ?H1" "h_lastWasBackSlash ?H1"
        "h_calls ?H1 = h_calls H @ [(int i, 1, StringFormat)]"
      using assms(1) step_in_string [of H t i q k dui] by (simp_all add: in_string_def)
    have up: "[i..<i + length (escape_char c)] = [i, Suc i]" by (simp add: double upt_rec)
    from 1 step_in_string [of ?H1 t "Suc i" q k dui] show ?thesis
      unfolding up by (simp add: in_string_def)
  qed
qed

lemma escaped_text_in_string:
  "in_string H \<Longrightarrow> drop i t = concat (map escape_char s) @ rest \<Longrightarrow>
    in_string (fold (highlight_step q k dui t) [i..<i + length (concat (map escape_char s))] H) \<and>
    h_calls (fold (highlight_step q k dui t) [i..<i + length (concat (map escape_char s))] H) =
      h_calls H @ string_calls i (i + length (concat (map escape_char s)))"
proof (induction s arbitrary: i H)
  case (Cons c s)
  let ?m = "i + length (escape_char c)"
  let ?n = "?m + length (concat (map escape_char s))"
  let ?H = "fold (highlight_step q k dui t) [i..<?m] H"
  have one: "in_string ?H" "h_calls ?H = h_calls H @ string_calls i ?m"
    using escaped_char_in_string [OF Cons.prems(1), of i t c "concat (map escape_char s) @ rest" q k dui] Cons.prems(2) by simp_all
  have "drop ?m t = drop (length (escape_char c)) (drop i t)" by (simp add: add.commute)
  also have "\<dots> = concat (map escape_char s) @ rest" using Cons.prems(2) by simp
  finally have rest: "in_string (fold (highlight_step q k dui t) [?m..<?n] ?H) \<and>
      h_calls (fold (highlight_step q k dui t) [?m..<?n] ?H) = h_calls ?H @ string_calls ?m ?n"
    using one(1) by (intro Cons.IH)
  have up: "[i..<?n] = [i..<?m] @ [?m..<?n]" using upt_add_eq_append [of i ?m] by simp
  have len: "i + length (concat (map escape_char (c # s))) = ?n" by simp
  show ?case using rest unfolding len up one(2) by simp
qed simp

lemma length_paint [simp]: "length (paint r fs) = length fs"
  by (simp add: paint_def split: prod.split)

lemma nth_paint:
  "j < length fs \<Longrightarrow> paint (start, count, f) fs ! j = (if 0 \<le> start \<and> start \<le> int j \<and> int j < start + count then f else fs ! j)"
  by (auto simp: paint_def)

lemma length_fold_paint [simp]: "length (fold paint cs fs) = length fs"
  by (induction cs arbitrary: fs) simp_all

lemma paint_later:
  "j < length fs \<Longrightarrow> (\<And>r. r \<in> set cs \<Longrightarrow> int j < fst r) \<Longrightarrow> fold paint cs fs ! j = fs ! j"
proof (induction cs arbitrary: fs)
  case (Cons r cs)
  obtain a n f where r: "r = (a, n, f)" by (metis prod_cases3)
  have "int j < a" using Cons.prems(2) [of r] r by simp
  then show ?case using Cons r by (simp add: nth_paint)
qed simp

lemma paint_string_calls:
  "j < length fs \<Longrightarrow> fold paint (string_calls a b) fs ! j = (if a \<le> j \<and> j < b then StringFormat else fs ! j)"
proof (induction b)
  case (Suc b)
  then show ?case by (cases "a \<le> b") (auto simp: nth_paint)
qed simp

text \<open>The calls for a literal from \<open>p\<close> up to its closing quote at \<open>e\<close>, and what comes before and after.\<close>

lemma paint_literal:
  assumes "p < e" and "e < n" and "\<And>r. r \<in> set after \<Longrightarrow> int e < fst r"
    and fs_def: "fs = painted n (before @ [(int p, 1, EmptyFormat)] @ string_calls (Suc p) e @ [(int e, 1, EmptyFormat)] @ after)"
  shows "fs ! p = EmptyFormat" "p < j \<Longrightarrow> j < e \<Longrightarrow> fs ! j = StringFormat" "fs ! e = EmptyFormat"
proof -
  let ?m = "painted n before"
  have len: "length ?m = n" by (simp add: painted_def)
  have fs: "fs ! j = paint (int e, 1, EmptyFormat)
      (fold paint (string_calls (Suc p) e) (paint (int p, 1, EmptyFormat) ?m)) ! j" if "j \<le> e" for j
    using that assms(2) assms(3) len unfolding fs_def painted_def fold_append comp_apply
    by (subst paint_later) (force simp: painted_def)+
  show "fs ! p = EmptyFormat" "p < j \<Longrightarrow> j < e \<Longrightarrow> fs ! j = StringFormat" "fs ! e = EmptyFormat"
    using assms(1,2) len by (auto simp: fs nth_paint paint_string_calls)
qed

text \<open>What the loop does from the opening quote of a literal to the end of the line.\<close>

lemma literal_calls:
  assumes "signs_not_letters q" and "\<not> ch_isSpace k dquote"
    and "t = pre @ dquote # escapeString s @ dquote # rest" and "in_code H" and "p = length pre"
    and "e = p + length (escapeString s) + 1"
  obtains before after where
    "h_calls (fold (highlight_step q k dui t) [p..<length t] H) =
       before @ [(int p, 1, EmptyFormat)] @ string_calls (Suc p) e @ [(int e, 1, EmptyFormat)] @ after"
    and "\<And>r. r \<in> set after \<Longrightarrow> good_call dui t (Suc e) r"
    and "suffix (h_buffer (fold (highlight_step q k dui t) [p..<length t] H)) (drop (Suc e) t)"
proof -
  let ?step = "highlight_step q k dui t"
  define H1 where "H1 = ?step p H"
  define H2 where "H2 = fold ?step [Suc p..<e] H1"
  define H3 where "H3 = ?step e H2"
  define H4 where "H4 = fold ?step [Suc e..<length t] H3"
  have at: "t ! p = dquote" "t ! e = dquote" "e < length t" "p < e" using assms(3,5,6) by (simp_all add: nth_append)
  obtain cs where 1: "h_calls H1 = h_calls H @ cs @ [(int p, 1, EmptyFormat)]" "in_string H1"
    using step_quotation [of t p H StateStringStart q k dui] at assms(4)
    by (auto simp: H1_def in_code_def in_string_def)
  have "drop (Suc p) t = concat (map escape_char s) @ dquote # rest"
    using assms(3,5) by (simp add: escapeString_chars)
  from escaped_text_in_string [OF 1(2) this, of q k dui]
  have 2: "in_string H2" "h_calls H2 = h_calls H1 @ string_calls (Suc p) e"
    using assms(6) by (simp_all add: H2_def escapeString_chars)
  then have "table (h_state H2) InputQuotation = StateStringEnd" "\<not> h_makeLastStandard H2" "\<not> h_lastWasBackSlash H2"
    by (auto simp: in_string_def table_string)
  moreover obtain x b H' where c: "classify q k dui t e H2 = (x, b, H')" by (metis prod_cases3)
  moreover from this have "x = InputQuotation" using classify_quotation [OF c] at \<open>\<not> h_lastWasBackSlash H2\<close> by simp
  moreover from this have "h_calls H' = h_calls H2" using classify_quiet [OF c] by simp
  ultimately have 3: "h_calls H3 = h_calls H2 @ [(int e, 1, EmptyFormat)]" "h_state H3 = StateStringEnd"
      "h_buffer H3 = []" "\<not> h_makeLastStandard H3"
    using highlight_step_other [OF c, of StateStringEnd] by (simp_all add: H3_def state_format_def)
  have "barrier q k t (Suc e)"
    using assms(1,2) at by (simp add: barrier_def label_char_def signs_not_letters_def)
  moreover have "hl_inv dui t (Suc e) H3 (Suc e) H3" using 3 by (simp add: hl_inv_def adds_same)
  ultimately have inv: "hl_inv dui t (Suc e) H3 (length t) H4"
    unfolding H4_def using at by (intro highlight_steps_inv) simp_all
  then obtain after where 4: "h_calls H4 = h_calls H3 @ after" "\<forall>r \<in> set after. good_call dui t (Suc e) r"
    by (auto simp: hl_inv_def adds_def)
  have "[p..<length t] = p # [Suc p..<e] @ e # [Suc e..<length t]"
    using at upt_conv_Cons [of p "length t"] upt_conv_Cons [of e "length t"]
      upt_add_eq_append [of "Suc p" e "length t - e"] by simp
  then have "fold ?step [p..<length t] H = H4" by (simp add: H1_def H2_def H3_def H4_def)
  with 1(1) 2(2) 3(1) 4 inv show thesis by (intro that [of "h_calls H @ cs" after]) (auto simp: hl_inv_def)
qed

text \<open>
  C33. The highlighter shows the string literals that Hooq writes as strings: wherever code may
  stand before it, the literal that \<open>parametersString\<close> prints for a text, with whatever quotation
  marks, backslashes and line breaks the text has, is painted as one string from behind the
  opening quote to the closing quote, whatever follows on the line.
\<close>

theorem literal_painted_as_string:
  assumes "signs_not_letters q" and "\<not> ch_isSpace k dquote"
    and "t = pre @ parametersString q' (VString s) @ rest" and "p = length pre"
    and "in_code (fold (highlight_step q k dui t) [0..<p] (block_start previous))"
    and "e = p + length (parametersString q' (VString s)) - 1"
    and "fs = painted (length t) (fst (snd (highlightBlock q k dui previous t)))"
  shows "fs ! p = EmptyFormat \<and> (\<forall>j. p < j \<and> j < e \<longrightarrow> fs ! j = StringFormat) \<and> fs ! e = EmptyFormat"
proof -
  let ?step = "highlight_step q k dui t"
  let ?H = "fold ?step [0..<p] (block_start previous)"
  define H where "H = fold ?step [p..<length t] ?H"
  have t: "t = pre @ dquote # escapeString (qs_text s) @ dquote # rest" using assms(3) by simp
  have e: "e = p + length (escapeString (qs_text s)) + 1" using assms(6) by simp
  obtain before after where lit: "h_calls H =
        before @ [(int p, 1, EmptyFormat)] @ string_calls (Suc p) e @ [(int e, 1, EmptyFormat)] @ after"
      "\<And>r. r \<in> set after \<Longrightarrow> good_call dui t (Suc e) r" "suffix (h_buffer H) (drop (Suc e) t)"
    unfolding H_def by (rule literal_calls [OF assms(1,2) t assms(5,4) e, of dui]) blast
  have len: "p < e" "e < length t" using t e assms(4) by simp_all
  have "adds (good_call dui t (Suc e)) H (highlightKeyword q dui (int (length t)) (h_buffer H) H)"
    by (rule adds_keyword) (use lit(3) len in simp_all)
  then obtain more where more: "h_calls (highlightKeyword q dui (int (length t)) (h_buffer H) H) = h_calls H @ more"
      "\<forall>r \<in> set more. good_call dui t (Suc e) r"
    by (auto simp: adds_def)
  have "fold ?step [0..<length t] (block_start previous) = H"
    using len upt_add_eq_append [of 0 p "length t - p"] by (simp add: H_def)
  then have "fst (snd (highlightBlock q k dui previous t)) =
      before @ [(int p, 1, EmptyFormat)] @ string_calls (Suc p) e @ [(int e, 1, EmptyFormat)] @ after @ more"
    using more(1) lit(1) len by (auto simp: highlightBlock_def Let_def)
  moreover have "int e < fst r" if "r \<in> set (after @ more)" for r
    using that lit(2) more(2) by (fastforce simp: good_call_def)
  ultimately show ?thesis using paint_literal [OF len, of "after @ more" fs before] assms(7) by simp
qed

theorem literal_painted_as_string_witness:
  "painted 8 (fst (snd (highlightBlock qt_decimal ascii_classes False None
     (''f('' @ parametersString qt_decimal (VString (Some [dquote, CHR ''a''])) @ '')'')))) ! 4 = StringFormat"
proof -
  let ?lit = "parametersString qt_decimal (VString (Some [dquote, CHR ''a'']))"
  let ?t = "''f('' @ ?lit @ '')''"
  have lit: "?lit = [dquote, backslash, dquote, CHR ''a'', dquote]"
    by (simp add: escapeString_chars escape_char_def)
  have code: "in_code (fold (highlight_step qt_decimal ascii_classes False ?t) [0..<length ''f('']
      (block_start None))"
    unfolding lit by code_simp
  have "\<not> ch_isSpace ascii_classes dquote" by (simp add: ascii_classes_def)
  note painted = literal_painted_as_string [OF qt_decimal_signs this refl refl code refl refl]
  have len: "length ?t = 8" "length ''f('' = 2" "length ?lit = 5" unfolding lit by simp_all
  show ?thesis
    using painted [THEN conjunct2, THEN conjunct1, rule_format, of 4] unfolding len by simp
qed

text \<open>
  A backslash hides the end of a comment: the highlighter goes on with the comment where the
  script engine has left it.
\<close>

lemma backslash_hides_comment_end:
  "fst (highlightBlock qt_decimal ascii_classes False None (''/* '' @ [backslash] @ ''*/'')) = StateCComment"
  by code_simp

end
