(* ===== verification/Script_Types.thy ===== *)
theory Script_Types
  imports Script_Safety
begin

text \<open>
  The types of a recorded script. A \<open>QVariant\<close> holds anything; this theory says which values the
  parameters of each function of a script hold, and shows that whatever is recorded and whichever
  simplifications are chosen, the items that are printed have these types.
\<close>

section \<open>Types of parameters\<close>

datatype param_type =
    T_Bool | T_Int | T_String | T_FocusReason | T_Key | T_MouseButton | T_MouseButtons | T_Orientation
  | T_KeyboardModifiers | T_Drag

fun int_field :: "qvariant \<Rightarrow> bool" where
  "int_field (VInt n) = True"
| "int_field _ = False"

text \<open>What is dragged: a call of \<open>drag\<close> with a position.\<close>

fun drag_call :: "qvariant \<Rightarrow> bool" where
  "drag_call (VItem (Item (VString s) tclass (Some m) (VMap ps))) \<longleftrightarrow>
     m = ''drag'' \<and> set (map fst ps) = {''x'', ''y''} \<and> list_all (int_field \<circ> snd) ps"
| "drag_call _ \<longleftrightarrow> False"

fun has_type :: "qvariant \<Rightarrow> param_type \<Rightarrow> bool" where
  "has_type (VBool b) T = (T = T_Bool)"
| "has_type (VInt n) T = (T = T_Int)"
| "has_type (VString s) T = (T = T_String)"
| "has_type (VFocusReason r) T = (T = T_FocusReason)"
| "has_type (VKey k) T = (T = T_Key)"
| "has_type (VMouseButton b) T = (T = T_MouseButton)"
| "has_type (VMouseButtons b) T = (T = T_MouseButtons)"
| "has_type (VOrientation h) T = (T = T_Orientation)"
| "has_type (VKeyboardModifiers m) T = (T = T_KeyboardModifiers)"
| "has_type (VItem i) T = (T = T_Drag \<and> drag_call (VItem i))"
| "has_type _ T = False"

definition fields_match :: "qvariant qmap \<Rightarrow> (qtext \<times> param_type) list \<Rightarrow> bool" where
  "fields_match ps spec \<longleftrightarrow>
     set (map fst ps) = set (map fst spec) \<and>
     list_all (\<lambda>(k, T). case map_of ps k of None \<Rightarrow> False | Some v \<Rightarrow> has_type v T) spec"

section \<open>The functions of a remote object\<close>

definition position_fields :: "(qtext \<times> param_type) list" where
  "position_fields = [(''x'', T_Int), (''y'', T_Int)]"

definition key_fields :: "(qtext \<times> param_type) list" where
  "key_fields = [(''key'', T_Key), (''text'', T_String), (''autoRepeat'', T_Bool), (''count'', T_Int),
     (''modifiers'', T_KeyboardModifiers)]"

definition mouse_fields :: "(qtext \<times> param_type) list" where
  "mouse_fields = position_fields @ [(''button'', T_MouseButton), (''buttons'', T_MouseButtons),
     (''modifiers'', T_KeyboardModifiers)]"

text \<open>A simplified movement.\<close>

definition movement_fields :: "(qtext \<times> param_type) list" where
  "movement_fields = [(''originX'', T_Int), (''originY'', T_Int), (''destinationX'', T_Int), (''destinationY'', T_Int),
     (''duration'', T_Int), (''button'', T_MouseButton), (''buttons'', T_MouseButtons), (''modifiers'', T_KeyboardModifiers)]"

definition object_methods :: "(qtext \<times> (qtext \<times> param_type) list) list" where
  "object_methods =
     [(''setFocus'', [(''reason'', T_FocusReason)]),
      (''pressKey'', key_fields), (''releaseKey'', key_fields),
      (''moveMouse'', mouse_fields), (''moveMouse'', movement_fields),
      (''pressMouseButton'', mouse_fields), (''releaseMouseButton'', mouse_fields),
      (''doubleClickMouseButton'', mouse_fields),
      (''mouseWheel'', position_fields @ [(''buttons'', T_MouseButtons), (''modifiers'', T_KeyboardModifiers),
         (''orientation'', T_Orientation), (''delta'', T_Int)]),
      (''contextMenu'', position_fields @ [(''globalX'', T_Int), (''globalY'', T_Int), (''modifiers'', T_KeyboardModifiers)]),
      (''shortcut'', [(''string'', T_String), (''id'', T_Int), (''ambiguous'', T_Bool)]),
      (''drop'', position_fields @ [(''dragged'', T_Drag)])]"

definition object_call :: "qtext \<Rightarrow> qvariant \<Rightarrow> bool" where
  "object_call m parameters = (case parameters of
     VInvalid \<Rightarrow> m = ''close''
   | VString s \<Rightarrow> m = ''sendText''
   | VVariable n \<Rightarrow> m = ''sendText''
   | VMap ps \<Rightarrow> list_ex (\<lambda>(m', spec). m' = m \<and> fields_match ps spec) object_methods
   | _ \<Rightarrow> False)"

text \<open>A statement that is not a call of an object: a sleep, or the declaration of a variable.\<close>

definition global_call :: "qtext \<Rightarrow> qvariant \<Rightarrow> bool" where
  "global_call m parameters = (case parameters of
     VInt n \<Rightarrow> m = ''msleep''
   | VString s \<Rightarrow> prefix ''var '' m
   | VInvalid \<Rightarrow> prefix ''var '' m
   | _ \<Rightarrow> False)"

text \<open>The target of an item is nothing, a path, or a variable.\<close>

definition typed_item :: "item \<Rightarrow> bool" where
  "typed_item i = (case item_method i of
     None \<Rightarrow> False
   | Some m \<Rightarrow> (case item_target i of
        VInvalid \<Rightarrow> global_call m (item_parameters i)
      | VString s \<Rightarrow> object_call m (item_parameters i)
      | VVariable n \<Rightarrow> object_call m (item_parameters i)
      | _ \<Rightarrow> False))"

section \<open>Recordings are typed\<close>

lemma keys_qm_of: "set (map fst (qm_of kvs)) = set (map fst kvs)"
proof -
  have "set (map fst (fold (\<lambda>(k, v). qm_insert k v) kvs m)) = set (map fst kvs) \<union> set (map fst m)" for m :: "'a qmap"
    by (induction kvs arbitrary: m) (auto simp: qm_insert_keys simp del: set_map)
  then show ?thesis by (simp add: qm_of_def)
qed

lemma fields_match_qm_of:
  "fields_match (qm_of kvs) spec \<longleftrightarrow> set (map fst kvs) = set (map fst spec) \<and>
     list_all (\<lambda>(k, T). case map_of (rev kvs) k of None \<Rightarrow> False | Some v \<Rightarrow> has_type v T) spec"
  unfolding fields_match_def keys_qm_of by (simp add: map_of_qm_of)

lemmas method_fields = position_fields_def key_fields_def mouse_fields_def movement_fields_def

lemma parsed_typed:
  assumes "parseElement q name atts ts = Some (i, ts')"
  shows "typed_item i"
proof -
  have xy: "qm_of [(''x'', VInt a), (''y'', VInt b)] = [(''x'', VInt a), (''y'', VInt b)]" for a b
    by (simp add: qm_of_def)
  show ?thesis
    using assms unfolding parseElement_def parse_event_defs Let_def
    by (auto split: if_splits
        simp: typed_item_def object_call_def global_call_def object_methods_def method_fields fields_match_qm_of
          target_of_def full_item_def method_item_def msecItem_def apfst_def map_prod_def case_prod_beta
          xy)
qed

lemma hooq_items_typed:
  "hooq_items q ts items = (items', closed, rest) \<Longrightarrow> list_all typed_item items \<Longrightarrow> list_all typed_item items'"
proof (induction "length ts" arbitrary: ts items rule: less_induct)
  case less
  show ?case
  proof (cases ts)
    case (Cons t ts')
    have IH: "list_all typed_item items'"
      if "hooq_items q us items2 = (items', closed, rest)" "length us \<le> length ts'" "list_all typed_item items2" for us items2
      using less.hyps [of us items2] that Cons by simp
    show ?thesis
    proof (cases t)
      case (StartElement name atts)
      show ?thesis
      proof (cases "parseElement q name atts ts'")
        case None
        with less.prems Cons StartElement show ?thesis by (intro IH [OF _ skipElement_length]) simp_all
      next
        case (Some r)
        have "typed_item (fst r)" using parsed_typed [of q name atts ts' "fst r" "snd r"] Some by simp
        moreover have "length (snd r) \<le> length ts'"
          using parseElement_rest [of q name atts ts' "fst r" "snd r"] Some readElementText_length [of ts'] by simp
        ultimately show ?thesis
          using less.prems Cons StartElement Some by (intro IH [of "snd r" "items @ [fst r]"]) simp_all
      qed
    qed (use less.prems Cons IH [of ts' items] in simp_all)
  qed (use less.prems in simp)
qed

section \<open>Invariants of the items\<close>

text \<open>
  What a post-processor must keep of every item for the passes to keep it: of the item it is
  given and what it makes of it, of the rest of the input, and of the output it inserts into.
\<close>

locale item_invariant =
  fixes q :: qt
    and good :: "item \<Rightarrow> bool"
  assumes process_good:
    "process q p x inp I = Inr (p', it, inp', I') \<Longrightarrow> good x \<Longrightarrow> \<forall>y \<in> set inp. good y \<Longrightarrow>
      \<forall>y \<in> set (m_rootList I). good y \<Longrightarrow>
      (isValid it \<longrightarrow> good it) \<and> (\<forall>y \<in> set inp'. good y) \<and> (\<forall>y \<in> set (m_rootList I'). good y)"
begin

lemma pass_good:
  "pass q p inp I = Inr I' \<Longrightarrow> \<forall>y \<in> set inp. good y \<Longrightarrow> \<forall>y \<in> set (m_rootList I). good y \<Longrightarrow>
    \<forall>y \<in> set (m_rootList I'). good y"
proof (induction "length inp" arbitrary: p inp I rule: less_induct)
  case less
  show ?case
  proof (cases inp)
    case (Cons x rest)
    with less.prems(1) obtain p' it rest' J where step: "process q p x rest I = Inr (p', it, rest', J)"
      by (cases "process q p x rest I") auto
    let ?J = "Inserter_next (if isValid it then out_append it J else J)"
    have "(isValid it \<longrightarrow> good it) \<and> (\<forall>y \<in> set rest'. good y) \<and> (\<forall>y \<in> set (m_rootList J). good y)"
      using process_good [OF step] less.prems(2,3) Cons by simp
    then have "\<forall>y \<in> set (m_rootList ?J). good y" "\<forall>y \<in> set rest'. good y"
      by (auto simp: Inserter_next_def out_append_def)
    moreover have "pass q p' rest' ?J = Inr I'" using less.prems(1) Cons step by simp
    moreover have "length rest' < length inp" using process_length [OF step] Cons by simp
    ultimately show ?thesis using less.hyps by blast
  qed (use less.prems in simp)
qed

lemma run_good:
  "run_processors q ps inp I = Inr out \<Longrightarrow> \<forall>y \<in> set inp. good y \<Longrightarrow> \<forall>y \<in> set out. good y"
proof (induction ps arbitrary: inp I)
  case (Cons p ps)
  then obtain I' where pass: "pass q p inp (out_clear I) = Inr I'"
    by (cases "pass q p inp (out_clear I)") auto
  have "\<forall>y \<in> set (m_rootList I'). good y"
    using pass_good [OF pass Cons.prems(2)] by (simp add: out_clear_def)
  with Cons pass show ?case by auto
qed simp

end

section \<open>The post-processors keep the types\<close>

lemma global_call_names: "global_call m v \<Longrightarrow> m = ''msleep'' \<or> prefix ''var '' m"
  by (cases v) (simp_all add: global_call_def)

lemma typed_call:
  assumes "typed_item i" and "method_is i m" and "m \<noteq> ''msleep''" and "\<not> prefix ''var '' m"
  shows "(\<exists>s. item_target i = VString s) \<or> (\<exists>n. item_target i = VVariable n)"
    and "object_call m (item_parameters i)" and "item_method i = Some m"
proof -
  show m: "item_method i = Some m"
    using assms(1,2) by (cases "item_method i") (simp_all add: typed_item_def method_is_def)
  with assms(1,3,4) global_call_names [of m "item_parameters i"]
  show "(\<exists>s. item_target i = VString s) \<or> (\<exists>n. item_target i = VVariable n)" "object_call m (item_parameters i)"
    by (cases "item_target i"; simp add: typed_item_def)+
qed

lemma typed_move:
  assumes "typed_item i" and "method_is i ''moveMouse''"
  shows "fields_match (v_toMap (item_parameters i)) mouse_fields \<or> fields_match (v_toMap (item_parameters i)) movement_fields"
proof -
  have "object_call ''moveMouse'' (item_parameters i)" by (rule typed_call [OF assms]) simp_all
  then show ?thesis
    by (cases "item_parameters i") (auto simp: object_call_def object_methods_def v_toMap_def)
qed

lemma fields_matchD: "fields_match ps spec \<Longrightarrow> (k, T) \<in> set spec \<Longrightarrow> \<exists>v. map_of ps k = Some v \<and> has_type v T"
  by (fastforce simp: fields_match_def list_all_iff split: option.splits)

lemma simplified_move_typed:
  assumes "fields_match ps mouse_fields \<or> fields_match ps movement_fields"
  shows "fields_match (simplified_move q origin ps d) movement_fields"
proof -
  have in_both: "\<exists>v. map_of ps k = Some v \<and> has_type v T" if "(k, T) \<in> set mouse_fields" "(k, T) \<in> set movement_fields" for k T
    using assms that fields_matchD by blast
  obtain b bs ms where common: "map_of ps ''button'' = Some b" "has_type b T_MouseButton"
      "map_of ps ''buttons'' = Some bs" "has_type bs T_MouseButtons"
      "map_of ps ''modifiers'' = Some ms" "has_type ms T_KeyboardModifiers"
    using in_both [of "''button''" T_MouseButton] in_both [of "''buttons''" T_MouseButtons]
      in_both [of "''modifiers''" T_KeyboardModifiers] by (auto simp: method_fields)
  have rest: "set (map fst ps) - {''x'', ''y''} \<subseteq> set (map fst movement_fields)"
    using assms by (auto simp: fields_match_def method_fields)
  have "set (map fst (qm_remove ''y'' (qm_remove ''x'' ps))) = set (map fst ps) - {''x'', ''y''}"
    by (auto simp: qm_remove_def)
  then have keys: "set (map fst (simplified_move q origin ps d)) =
      {''duration'', ''destinationY'', ''destinationX'', ''originY'', ''originX''} \<union> (set (map fst ps) - {''x'', ''y''})"
    unfolding simplified_move_def qm_insert_keys by simp
  have "{''button'', ''buttons'', ''modifiers''} \<subseteq> set (map fst ps)"
    using common(1,3,5) by (auto dest!: map_of_SomeD intro: rev_image_eqI)
  then have "set (map fst (simplified_move q origin ps d)) = set (map fst movement_fields)"
    unfolding keys using rest by (intro equalityI) (auto simp: method_fields)
  moreover have "list_all (\<lambda>(k, T). case map_of (simplified_move q origin ps d) k of None \<Rightarrow> False | Some v \<Rightarrow> has_type v T) movement_fields"
    by (simp add: movement_fields_def simplified_move_def qm_lookup_insert qm_lookup_remove common)
  ultimately show ?thesis by (simp add: fields_match_def)
qed

lemma typed_simplified:
  assumes "typed_item i" and "method_is i ''moveMouse''" and "fields_match ps mouse_fields \<or> fields_match ps movement_fields"
  shows "typed_item (full_item (item_target i) (item_targetClass i) ''moveMouse'' (VMap (simplified_move q origin ps d)))"
proof -
  have "object_call ''moveMouse'' (VMap (simplified_move q origin ps d))"
    using simplified_move_typed [OF assms(3)] by (simp add: object_call_def object_methods_def)
  moreover have "(\<exists>s. item_target i = VString s) \<or> (\<exists>n. item_target i = VVariable n)"
    by (rule typed_call(1) [OF assms(1,2)]) simp_all
  ultimately show ?thesis by (auto simp: typed_item_def full_item_def)
qed

lemma moves_loop_typed:
  "moves_loop q t it ps d inp = (it', ps', d', inp') \<Longrightarrow> typed_item it \<Longrightarrow> list_all typed_item inp \<Longrightarrow>
    fields_match ps mouse_fields \<or> fields_match ps movement_fields \<Longrightarrow>
    typed_item it' \<and> list_all typed_item inp' \<and> (fields_match ps' mouse_fields \<or> fields_match ps' movement_fields)"
  by (induction q t it ps d inp rule: moves_loop.induct) (auto simp: Let_def typed_move split: if_splits)

lemma keys_loop_typed:
  "keys_loop q t it ps s m inp = Inr (it', s', m', inp') \<Longrightarrow> typed_item it \<Longrightarrow> list_all typed_item inp \<Longrightarrow>
    s \<noteq> [] \<longrightarrow> typed_item m \<Longrightarrow> typed_item it' \<and> list_all typed_item inp' \<and> (s' \<noteq> [] \<longrightarrow> typed_item m')"
proof (induction q t it ps s m inp rule: keys_loop.induct)
  case (3 q target it ps s m x y rest)
  then show ?case by (simp add: Let_def split: if_splits) auto
qed (auto split: if_splits)

lemma inserted_items: "set (m_rootList (Inserter_insert q i pos I)) = insert i (set (m_rootList I))"
  by (cases pos) (simp_all add: Inserter_insert_def)

lemma strip_typed:
  "process_StripMouseMovements it inp = Inr (it', inp') \<Longrightarrow> typed_item it \<Longrightarrow> list_all typed_item inp \<Longrightarrow>
    (isValid it' \<longrightarrow> typed_item it') \<and> list_all typed_item inp'"
  by (induction it inp rule: process_StripMouseMovements.induct) (auto split: if_splits)

lemma typed_send:
  assumes "typed_item i" and "method_is i ''pressKey'' \<or> method_is i ''sendText''"
  shows "typed_item (full_item (item_target i) (item_targetClass i) ''sendText'' (VString s))"
proof -
  have "(\<exists>s. item_target i = VString s) \<or> (\<exists>n. item_target i = VVariable n)"
    using assms(2) typed_call(1) [OF assms(1), of "''pressKey''"] typed_call(1) [OF assms(1), of "''sendText''"]
    by auto
  then show ?thesis by (auto simp: typed_item_def object_call_def full_item_def)
qed

lemma typed_declaration: "typed_item (method_item (qarg (''var '' @ r) a) (VString s))"
    "typed_item (method_item (qarg (qarg (''var '' @ r) a) b) VInvalid)"
proof -
  have var: "qarg (''var '' @ r) a = ''var '' @ qarg r a" for r a by (rule qarg_append) simp
  show "typed_item (method_item (qarg (''var '' @ r) a) (VString s))"
      "typed_item (method_item (qarg (qarg (''var '' @ r) a) b) VInvalid)"
    unfolding var by (simp_all add: typed_item_def global_call_def method_item_def)
qed

lemma typed_process:
  assumes "process q p x inp I = Inr (p', it, inp', I')" and "typed_item x" and "list_all typed_item inp"
    and "\<forall>y \<in> set (m_rootList I). typed_item y"
  shows "(isValid it \<longrightarrow> typed_item it) \<and> list_all typed_item inp' \<and> (\<forall>y \<in> set (m_rootList I'). typed_item y)"
proof (cases p)
  case (FilterQtInternals classes)
  with assms show ?thesis
    by (auto simp: process_def process_FilterQtInternals_def split: if_splits list.splits)
next
  case StripMouseMovements
  with assms(1) have "process_StripMouseMovements x inp = Inr (it, inp')" "I' = I"
    by (auto simp: process_def map_sum_Inr_iff)
  with assms strip_typed show ?thesis by blast
next
  case SimplifyMouseMovements
  show ?thesis
  proof (cases "method_is x ''moveMouse''")
    case True
    obtain ps d where l: "moves_loop q (item_target x) x (v_toMap (item_parameters x)) 0 inp = (it, ps, d, inp')"
        and I': "I' = Inserter_insert q (full_item (item_target x) (item_targetClass x) ''moveMouse''
           (VMap (simplified_move q (v_toMap (item_parameters x)) ps d))) BeforeCurrentItem I"
      using assms(1) SimplifyMouseMovements True
      by (auto simp: process_def process_SimplifyMouseMovements_def Let_def split: prod.splits)
    from moves_loop_typed [OF l assms(2,3) typed_move [OF assms(2) True]]
    show ?thesis using assms(4) typed_simplified [OF assms(2) True] by (auto simp: I' inserted_items)
  qed (use assms SimplifyMouseMovements in \<open>auto simp: process_def process_SimplifyMouseMovements_def\<close>)
next
  case SimplifyStrings
  show ?thesis
  proof (cases "method_is x ''pressKey''")
    case True
    then obtain s msec where l: "keys_loop q (item_target x) x (v_toMap (item_parameters x)) [] null_item inp = Inr (it, s, msec, inp')"
        and I': "I' = (if s = [] then I else Inserter_insert q msec BeforeCurrentItem
          (Inserter_insert q (full_item (item_target x) (item_targetClass x) ''sendText'' (VString (Some s))) BeforeCurrentItem I))"
      using assms(1) SimplifyStrings
      by (auto simp: process_def process_SimplifyStrings_def map_sum_Inr_iff split: sum.splits)
    from keys_loop_typed [OF l assms(2,3)] show ?thesis
      using assms(4) typed_send [OF assms(2), of "Some s"] True by (auto simp: I' inserted_items)
  qed (use assms SimplifyStrings in \<open>auto simp: process_def process_SimplifyStrings_def\<close>)
next
  case (ObjectVariables vars)
  then have o: "process_ObjectVariables q vars x I = Inr (vars', it, I') \<Longrightarrow> ?thesis" if "inp' = inp" for vars'
  proof -
    assume a: "process_ObjectVariables q vars x I = Inr (vars', it, I')"
    have "typed_item (Item (VVariable n) (item_targetClass x) (item_method x) (item_parameters x))"
      if "\<not> v_isNull (item_target x)" for n
      using assms(2) that by (cases "item_target x"; cases "item_method x") (auto simp: typed_item_def v_isNull_def)
    moreover have "typed_item (method_item (qarg ''var %1 = objectFromPath'' n) (VString s))" for n s
      using typed_declaration(1) [of "''%1 = objectFromPath''"] by simp
    ultimately show ?thesis
      using a assms(2-4) that
      by (auto simp: process_ObjectVariables_def Let_def inserted_items split: if_splits option.splits)
  qed
  with assms(1) ObjectVariables show ?thesis by (auto simp: process_def map_sum_Inr_iff)
next
  case (StringVariables vars)
  show ?thesis
  proof (cases "method_is x ''sendText''")
    case True
    have "typed_item (Item (item_target x) (item_targetClass x) (item_method x) (VVariable n))" for n
      using typed_call(1,3) [OF assms(2) True] by (auto simp: typed_item_def object_call_def)
    moreover have "typed_item (method_item (qarg (qarg (''var string%1 = '' @ [dquote] @ ''%2'' @ [dquote]) a) b) VInvalid)" for a b
      using typed_declaration(2) [of "''string%1 = '' @ [dquote] @ ''%2'' @ [dquote]"] by simp
    ultimately show ?thesis
      using assms(1,3,4) StringVariables True
      by (cases x) (auto simp: process_def process_StringVariables_def Let_def inserted_items split: if_splits prod.splits)
  qed (use assms StringVariables in \<open>auto simp: process_def process_StringVariables_def\<close>)
qed

interpretation typed: item_invariant q typed_item for q
  by unfold_locales (metis list_all_iff typed_process)


text \<open>A movement and a sleep, with movements simplified.\<close>

definition moved :: xml_stream where
  "moved = [StartElement ''mouseMove'' [(''target'', ''Main''), (''x'', ''3''), (''y'', ''4'')], EndElement ''mouseMove'',
     StartElement ''msec'' [], Characters ''10'', EndElement ''msec'', EndElement ''hooq'']"


end
