(* ===== verification/Injection.thy ===== *)
theory Injection
  imports Test_Files
begin

text \<open>
  How the library gets into the tested application: the commands that
  \<open>hooqInjector/GdbInjector.cpp\<close> writes to gdb, the timer and the call of
  \<open>hooqInjector/WindowsInjector.cpp\<close>, and the port of \<open>common/Communication.cpp\<close>. Processes are
  given by the signals they send; the Windows functions are parameters.
\<close>

section \<open>Communication\<close>

text \<open>The two characters of the literal read as one number, in the byte order of the machine.\<close>

definition serverPort :: "bool \<Rightarrow> 16 word" where
  "serverPort littleEndian =
     (let h = of_char (CHR ''H''); q = of_char (CHR ''q'')
      in if littleEndian then of_nat (h + 256 * q) else of_nat (256 * h + q))"

section \<open>GdbInjector\<close>

record gdb_injector =
  g_applicationArguments :: "qtext list"
  g_gdb :: "qtext list option"
  g_written :: qtext

definition new_GdbInjector :: gdb_injector where
  "new_GdbInjector = \<lparr>g_applicationArguments = [], g_gdb = None, g_written = []\<rparr>"

text \<open>\<open>g_gdb\<close> are the arguments that gdb was started with.\<close>

definition startAndAttach :: "bool \<Rightarrow> qtext \<Rightarrow> qtext list \<Rightarrow> gdb_injector \<Rightarrow> gdb_injector" where
  "startAndAttach mac application applicationArguments G =
     G\<lparr>g_applicationArguments := applicationArguments,
       g_gdb := Some ((if mac then [] else [''-return-child-result'']) @ [''-interpreter'', ''mi'', application]),
       g_written := []\<rparr>"

text \<open>The loop over the arguments.\<close>

fun argumentsString :: "qtext list \<Rightarrow> qtext" where
  "argumentsString [] = []"
| "argumentsString (argument # rest) =
     qarg ('' '' @ [dquote] @ ''%1'' @ [dquote]) (qreplace [dquote] [backslash, dquote] argument) @ argumentsString rest"

definition libraryPath :: "disk \<Rightarrow> qtext \<Rightarrow> qstring" where
  "libraryPath d applicationDirPath =
     (let possibilities = [applicationDirPath @ ''/../injectedHooq/libinjectedHooq.so.1.0.0'',
                           applicationDirPath @ ''/../lib/libinjectedHooq.so.1.0.0'',
                           applicationDirPath @ ''/../lib64/libinjectedHooq.so.1.0.0'']
      in find (file_exists d) possibilities)"

definition dlopen_call :: "qtext \<Rightarrow> qtext \<Rightarrow> qtext \<Rightarrow> qtext" where
  "dlopen_call function path now =
     qarg (qarg (''call '' @ function @ ''('' @ [dquote] @ ''%1'' @ [dquote] @ '', %2)'') path) now"

text \<open>The commands in order; \<open>now\<close> is the text of \<open>RTLD_NOW\<close>.\<close>

definition gdb_commands :: "qtext list \<Rightarrow> qtext \<Rightarrow> qtext \<Rightarrow> qtext list" where
  "gdb_commands arguments library now =
     [''set auto-solib-add off'', ''break _start'', ''set args'' @ argumentsString arguments, ''run'',
      ''sharedlibrary libdl'', ''sharedlibrary libc'', ''sharedlibrary libQtCore'',
      ''break QCoreApplication::exec()'', ''continue'',
      dlopen_call ''dlopen'' library now, dlopen_call ''__dlopen'' library now,
      ''sharedlibrary injectedHooq'', ''call startHooq()'', ''continue'', ''backtrace'', ''quit'']"

definition startProcess :: "disk \<Rightarrow> qtext \<Rightarrow> qtext \<Rightarrow> gdb_injector \<Rightarrow> gdb_injector" where
  "startProcess d applicationDirPath now G =
     G\<lparr>g_written := g_written G @
       concat (map (\<lambda>l. l @ [newline])
         (gdb_commands (g_applicationArguments G) (qs_text (libraryPath d applicationDirPath)) now))\<rparr>"

section \<open>WindowsInjector\<close>

datatype process_state = NotRunning | Starting | Running

datatype injection_error = PathTooLong | NoLibrary

record win_injector =
  win_process :: "process_state option"
  win_currentDirectory :: qtext
  win_attachTimer :: bool
  win_attached :: "qtext list"

definition win_startAndAttach :: "(qtext \<Rightarrow> qtext) \<Rightarrow> qtext \<Rightarrow> win_injector \<Rightarrow> win_injector" where
  "win_startAndAttach canonicalPath application W =
     W\<lparr>win_currentDirectory := canonicalPath application, win_process := Some Starting, win_attachTimer := False\<rparr>"

text \<open>\<open>started()\<close> starts the timer; it fires once.\<close>

definition win_started :: "win_injector \<Rightarrow> win_injector" where
  "win_started W = W\<lparr>win_process := Some Running, win_attachTimer := True\<rparr>"

text \<open>
  \<open>attach\<close> copies the path into an array of \<open>_MAX_PATH\<close> characters and puts a zero behind it, then
  calls the function of the library it loads (\<open>load\<close>: whether \<open>LoadLibraryW\<close> succeeds).
\<close>

definition MAX_PATH :: nat where "MAX_PATH = 260"

definition win_attach :: "(qtext \<Rightarrow> bool) \<Rightarrow> qtext \<Rightarrow> win_injector \<Rightarrow> injection_error + win_injector" where
  "win_attach load library W =
     (if MAX_PATH \<le> length library then Inl PathTooLong
      else if \<not> load library then Inl NoLibrary
      else Inr (W\<lparr>win_attached := win_attached W @ [library]\<rparr>))"

definition attachToSpawnedProcess :: "(qtext \<Rightarrow> bool) \<Rightarrow> qtext \<Rightarrow> win_injector \<Rightarrow> injection_error + win_injector" where
  "attachToSpawnedProcess load library W =
     (let W1 = W\<lparr>win_attachTimer := False\<rparr>
      in if win_process W1 = Some NotRunning then Inr W1 else win_attach load library W1)"

section \<open>What gdb and the shell make of the arguments\<close>

text \<open>
  The specification of the other side: gdb reads its input by lines and gives the text behind
  \<open>set args\<close> to a shell. A shell separates words at spaces; between double quotes a backslash
  stands for the character behind it if that is a dollar sign, a backquote, a quote, a backslash or
  a line break, and for itself otherwise. \<open>None\<close>: an expansion, or a quote that is not closed.
\<close>

fun shell_quoted :: "qtext \<Rightarrow> (qtext \<times> qtext) option" where
  "shell_quoted [] = None"
| "shell_quoted (c # s) =
     (if c = dquote then Some ([], s)
      else if c = CHR ''$'' \<or> c = CHR 0x60 then None
      else if c = backslash then
        (case s of
           [] \<Rightarrow> None
         | e # s' \<Rightarrow>
             if e \<in> {CHR ''$'', CHR 0x60, dquote, backslash} then map_option (apfst ((#) e)) (shell_quoted s')
             else if e = newline then shell_quoted s'
             else map_option (apfst (\<lambda>w. backslash # e # w)) (shell_quoted s'))
      else map_option (apfst ((#) c)) (shell_quoted s))"

lemma shell_quoted_length: "shell_quoted s = Some (w, r) \<Longrightarrow> length r < length s"
  by (induction s arbitrary: w r rule: shell_quoted.induct)
     (auto split: if_splits list.splits intro!: less_SucI)

text \<open>Words that are quoted as a whole, each behind one space.\<close>

function shell_words :: "qtext \<Rightarrow> qtext list option" where
  "shell_words s =
     (if s = [] then Some []
      else if prefix [CHR '' '', dquote] s then
        (case shell_quoted (drop 2 s) of
           None \<Rightarrow> None
         | Some (w, r) \<Rightarrow> map_option ((#) w) (shell_words r))
      else None)"
  by pat_completeness auto
termination
  by (relation "measure length") (auto dest!: shell_quoted_length)

declare shell_words.simps [simp del]

text \<open>The characters that mean something to the shell between quotes, or to gdb.\<close>

definition plain_argument :: "qtext \<Rightarrow> bool" where
  "plain_argument s \<longleftrightarrow> set s \<inter> {backslash, CHR ''$'', CHR 0x60, newline} = {}"

lemma shell_quoted_escaped:
  "plain_argument s \<Longrightarrow> shell_quoted (qreplace [dquote] [backslash, dquote] s @ dquote # r) = Some (s, r)"
  unfolding qreplace_char plain_argument_def
proof (induction s)
  case (Cons c s)
  then show ?case by (cases "c = dquote") auto
qed simp

lemma argumentsString_Cons:
  "argumentsString (s # ss) = CHR '' '' # dquote # qreplace [dquote] [backslash, dquote] s @ dquote # argumentsString ss"
  by (simp add: qt_text)

lemma shell_words_arguments:
  "\<forall>s \<in> set ss. plain_argument s \<Longrightarrow> shell_words (argumentsString ss) = Some ss"
proof (induction ss)
  case (Cons s ss)
  then show ?case
    by (subst shell_words.simps) (simp add: argumentsString_Cons shell_quoted_escaped del: argumentsString.simps)
qed (simp add: shell_words.simps)

lemma qsplit_lines:
  "\<forall>l \<in> set ls. newline \<notin> set l \<Longrightarrow> qsplit [newline] (concat (map (\<lambda>l. l @ [newline]) ls)) = ls @ [[]]"
proof (induction ls)
  case (Cons l ls)
  then show ?case using qsplit_fresh_append [of "[newline]" l] by simp
qed simp

lemma set_fill_marker: "set (fill_marker n a s) \<subseteq> set a \<union> set s"
proof (induction s rule: length_induct)
  case (1 s)
  show ?case
  proof (cases s)
    case (Cons c s')
    have rest: "set (fill_marker n a (drop k s')) \<subseteq> set a \<union> set s'" for k
    proof -
      have "length (drop k s') < length s" using Cons by simp
      then have "set (fill_marker n a (drop k s')) \<subseteq> set a \<union> set (drop k s')" using 1 by blast
      then show ?thesis using set_drop_subset [of k s'] by blast
    qed
    show ?thesis
      using rest [of 0] rest Cons by (auto simp del: place_marker.simps split: option.splits)
  qed simp
qed

lemma set_qarg: "set (qarg s a) \<subseteq> set s \<union> set a"
  using set_fill_marker [of _ a s] by (cases "lowest_marker s") (auto simp: qarg_def)

lemma dlopen_one_line:
  assumes "newline \<notin> set library" and "newline \<notin> set now" and "newline \<notin> set function"
  shows "newline \<notin> set (dlopen_call function library now)"
proof -
  let ?t = "''call '' @ function @ ''('' @ [dquote] @ ''%1'' @ [dquote] @ '', %2)''"
  have "set (dlopen_call function library now) \<subseteq> set (qarg ?t library) \<union> set now"
    unfolding dlopen_call_def by (rule set_qarg)
  also have "\<dots> \<subseteq> set ?t \<union> set library \<union> set now" using set_qarg [of ?t library] by blast
  finally show ?thesis using assms by auto
qed

lemma arguments_one_line: "\<forall>s \<in> set ss. plain_argument s \<Longrightarrow> newline \<notin> set (argumentsString ss)"
proof (induction ss)
  case (Cons s ss)
  then show ?case
    by (auto simp: argumentsString_Cons qreplace_char plain_argument_def simp del: argumentsString.simps split: if_splits)
qed simp

lemma shell_quoted_backslash:
  "plain_argument s \<Longrightarrow> shell_quoted (qreplace [dquote] [backslash, dquote] (s @ [backslash]) @ [dquote]) = None"
  unfolding qreplace_char plain_argument_def
proof (induction s)
  case (Cons c s)
  then show ?case by (cases "c = dquote") auto
qed simp

text \<open>
  The application gets the arguments of its test set: gdb reads what \<open>startProcess\<close> writes
  as its sixteen commands, \<open>dlopen\<close> before \<open>startHooq\<close>, and the shell that gdb gives the text
  behind \<open>set args\<close> to splits it into exactly the arguments, with the spaces and quotation marks
  they have. Backslashes, dollar signs, backquotes and line breaks are not taken care of: with a
  backslash at the end of the last argument the shell does not find the closing quote.
\<close>

lemma application_gets_arguments:
  assumes "\<forall>s \<in> set args. plain_argument s"
    and "libraryPath d dir = Some library" and "newline \<notin> set library" and "newline \<notin> set now"
  shows "qsplit [newline] (g_written (startProcess d dir now (startAndAttach mac application args G))) =
      gdb_commands args library now @ [[]] \<and>
    gdb_commands args library now ! 2 = ''set args'' @ argumentsString args \<and>
    shell_words (argumentsString args) = Some args \<and>
    (\<forall>s. plain_argument s \<longrightarrow> shell_words (argumentsString [s @ [backslash]]) = None)"
proof -
  have "\<forall>l \<in> set (gdb_commands args library now). newline \<notin> set l"
    using dlopen_one_line [OF assms(3,4)] arguments_one_line [OF assms(1)] by (simp add: gdb_commands_def)
  then have "qsplit [newline] (g_written (startProcess d dir now (startAndAttach mac application args G))) =
      gdb_commands args library now @ [[]]"
    using assms(2) by (simp add: startProcess_def startAndAttach_def qsplit_lines)
  moreover have "shell_words (argumentsString [s @ [backslash]]) = None" if "plain_argument s" for s
    using shell_quoted_backslash [OF that]
    by (subst shell_words.simps) (simp add: argumentsString_Cons del: argumentsString.simps(2))
  moreover have "gdb_commands args library now ! 2 = ''set args'' @ argumentsString args"
    by (simp add: gdb_commands_def)
  ultimately show ?thesis using shell_words_arguments [OF assms(1)] by blast
qed

definition library_disk :: disk where
  "library_disk = \<lparr>d_files = [(''/opt/bin/../lib/libinjectedHooq.so.1.0.0'', [])], d_dirs = [], d_locked = []\<rparr>"

text \<open>
  The path of the library must be shorter than the array it is copied into.
\<close>

lemma attach_bounds:
  "win_process W \<noteq> Some NotRunning \<Longrightarrow>
   attachToSpawnedProcess load library W = Inl PathTooLong \<longleftrightarrow> 260 \<le> length library"
  by (auto simp: attachToSpawnedProcess_def win_attach_def MAX_PATH_def Let_def)

end
