(* ===== verification/Window_Widgets.thy ===== *)
theory Window_Widgets
  imports Main_Window Property_Picking Injection "HOL-Library.AList"
begin

text \<open>
  The widgets around the editor and the main window: the margin with line numbers and
  breakpoints (\<open>uilib/CodeEditor_Margin.cpp\<close>), the buttons inside tables
  (\<open>uilib/PushButtonDelegate.cpp\<close>), the key observer (\<open>uilib/ModelIndexKeyEventObserver.cpp\<close>), the dialog
  of a test set (\<open>hooq/TestSetDialog.cpp\<close>), the information about a failed test
  (\<open>hooq/TestResultsDialog.cpp\<close>, \<open>hooq/TestFailureDialog.cpp\<close>) and what is left of the main window.
  Painting is given by what is painted where.
\<close>

section \<open>CodeEditor::Margin\<close>

text \<open>
  The text blocks from the first visible one on: whether a block is visible, and its height.
  \<open>n\<close> is the number of the block, \<open>upper\<close> the position of its upper edge.
\<close>

type_synonym block_list = "(bool \<times> int) list"

fun clicked_line :: "block_list \<Rightarrow> int \<Rightarrow> int \<Rightarrow> int \<Rightarrow> int option" where
  "clicked_line [] n upper y = None"
| "clicked_line ((visible, height) # bs) n upper y =
     (if visible \<and> upper + height > y then Some (n + 1) else clicked_line bs (n + 1) (upper + height) y)"

definition margin_mouseReleaseEvent :: "block_list \<Rightarrow> int \<Rightarrow> int \<Rightarrow> int \<Rightarrow> editor \<Rightarrow> editor" where
  "margin_mouseReleaseEvent blocks n upper y E = (case clicked_line blocks n upper y of
     None \<Rightarrow> E | Some line \<Rightarrow> toggleBreakpoint line E)"

text \<open>What \<open>paintEvent\<close> draws: number, upper edge, and whether there is a breakpoint.\<close>

fun margin_paint :: "int list \<Rightarrow> int \<Rightarrow> int \<Rightarrow> block_list \<Rightarrow> int \<Rightarrow> int \<Rightarrow> (int \<times> int \<times> bool) list" where
  "margin_paint breakpoints rectTop rectBottom [] n upper = []"
| "margin_paint breakpoints rectTop rectBottom ((visible, height) # bs) n upper =
     (if \<not> upper \<le> rectBottom then []
      else (if visible \<and> rectTop \<le> upper + height then [(n + 1, upper, n + 1 \<in> set breakpoints)] else []) @
        margin_paint breakpoints rectTop rectBottom bs (n + 1) (upper + height))"

definition margin_paintEvent :: "int \<Rightarrow> int \<Rightarrow> block_list \<Rightarrow> int \<Rightarrow> int \<Rightarrow> editor \<Rightarrow> (int \<times> int \<times> bool) list" where
  "margin_paintEvent rectTop rectBottom blocks n upper E =
     margin_paint (e_breakpoints E) rectTop rectBottom blocks n upper"

section \<open>PushButtonDelegate\<close>

record push_button_delegate =
  pd_enabledRole :: int
  pd_buttons :: "(nat \<times> qtext) list"
  pd_pressed :: model_index
  pd_hover :: model_index

definition new_PushButtonDelegate :: push_button_delegate where
  "new_PushButtonDelegate = \<lparr>pd_enabledRole = -1, pd_buttons = [], pd_pressed = None, pd_hover = None\<rparr>"

definition addButton :: "nat \<Rightarrow> qtext \<Rightarrow> push_button_delegate \<Rightarrow> push_button_delegate" where
  "addButton column label D = D\<lparr>pd_buttons := AList.update column label (pd_buttons D)\<rparr>"

definition pd_release :: "push_button_delegate \<Rightarrow> push_button_delegate" where
  "pd_release D = D\<lparr>pd_pressed := None\<rparr>"

definition depressIndex :: "model_index \<Rightarrow> push_button_delegate \<Rightarrow> push_button_delegate" where
  "depressIndex index D = D\<lparr>pd_pressed := index\<rparr>"

definition hoverIndex :: "model_index \<Rightarrow> push_button_delegate \<Rightarrow> push_button_delegate" where
  "hoverIndex index D = (pd_release D)\<lparr>pd_hover := index\<rparr>"

definition setEnabledRole :: "int \<Rightarrow> push_button_delegate \<Rightarrow> push_button_delegate" where
  "setEnabledRole role D = D\<lparr>pd_enabledRole := role\<rparr>"

record button_style =
  bs_text :: qtext
  bs_enabled :: bool
  bs_greyed :: bool
  bs_sunken :: bool
  bs_mouseOver :: bool

text \<open>\<open>stateEnabled\<close> and \<open>stateMouseOver\<close> are the flags of the option; \<open>roleData\<close> is the data of the index.\<close>

definition initStyleOptionButton ::
    "bool \<Rightarrow> bool \<Rightarrow> (model_index \<Rightarrow> int \<Rightarrow> bool) \<Rightarrow> nat \<times> nat \<Rightarrow> push_button_delegate \<Rightarrow> button_style" where
  "initStyleOptionButton stateEnabled stateMouseOver roleData cell D =
     (let index = Some cell;
          enabled = (pd_enabledRole D = -1 \<or> roleData index (pd_enabledRole D))
      in \<lparr>bs_text = (case map_of (pd_buttons D) (snd cell) of None \<Rightarrow> [] | Some s \<Rightarrow> s),
          bs_enabled = (enabled \<and> stateEnabled),
          bs_greyed = (\<not> enabled),
          bs_sunken = (enabled \<and> index = pd_pressed D \<and> stateMouseOver),
          bs_mouseOver = (index = pd_hover D \<and> stateMouseOver)\<rparr>)"

text \<open>\<open>paint\<close> draws a button in the columns that have one.\<close>

definition pd_paint ::
    "bool \<Rightarrow> bool \<Rightarrow> (model_index \<Rightarrow> int \<Rightarrow> bool) \<Rightarrow> model_index \<Rightarrow> push_button_delegate \<Rightarrow> button_style option" where
  "pd_paint stateEnabled stateMouseOver roleData index D = (case index of
     None \<Rightarrow> None
   | Some cell \<Rightarrow>
       if snd cell \<in> fst ` set (pd_buttons D)
       then Some (initStyleOptionButton stateEnabled stateMouseOver roleData cell D) else None)"

section \<open>ModelIndexKeyEventObserver\<close>

datatype key_event_kind = KeyPress | KeyRelease | OtherEvent

datatype observed = Pressed "nat \<times> nat" | Released "nat \<times> nat"

text \<open>The event is never swallowed; these are the signals.\<close>

definition observe_key :: "bool \<Rightarrow> model_index \<Rightarrow> key_event_kind \<Rightarrow> observed list" where
  "observe_key matches currentIndex kind = (case currentIndex of
     None \<Rightarrow> []
   | Some i \<Rightarrow>
       if \<not> matches then []
       else case kind of KeyPress \<Rightarrow> [Pressed i] | KeyRelease \<Rightarrow> [Released i] | OtherEvent \<Rightarrow> [])"

section \<open>TestSetDialog\<close>

record native_separators =
  toNative :: "qtext \<Rightarrow> qtext"
  fromNative :: "qtext \<Rightarrow> qtext"

record test_set_dialog =
  td_name :: qtext
  td_nameEnabled :: bool
  td_application :: qtext
  td_arguments :: "qtext list"
  td_newArgument :: qtext

definition new_TestSetDialog :: test_set_dialog where
  "new_TestSetDialog = \<lparr>td_name = [], td_nameEnabled = True, td_application = [], td_arguments = [], td_newArgument = []\<rparr>"

definition td_setName :: "qtext \<Rightarrow> test_set_dialog \<Rightarrow> test_set_dialog" where
  "td_setName name D = D\<lparr>td_name := name, td_nameEnabled := False\<rparr>"

definition td_getApplication :: "native_separators \<Rightarrow> test_set_dialog \<Rightarrow> qtext" where
  "td_getApplication sep D = fromNative sep (td_application D)"

definition td_setApplication :: "native_separators \<Rightarrow> qtext \<Rightarrow> test_set_dialog \<Rightarrow> test_set_dialog" where
  "td_setApplication sep application D = D\<lparr>td_application := toNative sep application\<rparr>"

definition td_setArguments :: "qtext list \<Rightarrow> test_set_dialog \<Rightarrow> test_set_dialog" where
  "td_setArguments arguments D = D\<lparr>td_arguments := arguments\<rparr>"

definition addArgument :: "test_set_dialog \<Rightarrow> test_set_dialog" where
  "addArgument D = D\<lparr>td_arguments := td_arguments D @ [td_newArgument D], td_newArgument := []\<rparr>"

text \<open>\<open>removeRow\<close> does nothing when there is no such row.\<close>

definition removeArgument :: "nat \<Rightarrow> test_set_dialog \<Rightarrow> test_set_dialog" where
  "removeArgument row D =
     (if row < length (td_arguments D) then D\<lparr>td_arguments := take row (td_arguments D) @ drop (Suc row) (td_arguments D)\<rparr>
      else D)"

definition browseForApplication :: "native_separators \<Rightarrow> qtext \<Rightarrow> test_set_dialog \<Rightarrow> test_set_dialog" where
  "browseForApplication sep fileName D =
     (if fileName \<noteq> [] then D\<lparr>td_application := toNative sep fileName\<rparr> else D)"

text \<open>The key \<open>Delete\<close> in the list of arguments.\<close>

definition td_keyEvent :: "bool \<Rightarrow> model_index \<Rightarrow> key_event_kind \<Rightarrow> test_set_dialog \<Rightarrow> test_set_dialog" where
  "td_keyEvent isDelete index kind D =
     fold (\<lambda>s D. case s of Released (row, column) \<Rightarrow> removeArgument row D | _ \<Rightarrow> D) (observe_key isDelete index kind) D"

section \<open>Information about a failed test\<close>

record failure_dialog =
  fd_name :: qtext
  fd_error :: qtext
  fd_backtrace :: "qtext list"

definition failure_show :: "qtext \<Rightarrow> qtext \<Rightarrow> qtext list \<Rightarrow> failure_dialog" where
  "failure_show name err backtrace =
     \<lparr>fd_name = qarg (''Test '' @ [CHR 0x27] @ ''%1'' @ [CHR 0x27] @ '' failed:'') name, fd_error = err, fd_backtrace = backtrace\<rparr>"

definition cell_text :: "result_cell \<Rightarrow> qtext" where
  "cell_text c = (case c of RText s \<Rightarrow> s | _ \<Rightarrow> [])"

definition cell_texts :: "result_cell \<Rightarrow> qtext list" where
  "cell_texts c = (case c of RTexts ss \<Rightarrow> ss | _ \<Rightarrow> [])"

definition showInformation :: "test_result list \<Rightarrow> model_index \<Rightarrow> failure_dialog option" where
  "showInformation results index = (case index of
     None \<Rightarrow> None
   | Some (row, column) \<Rightarrow>
       if column \<noteq> 2 then None
       else Some (failure_show (cell_text (results_data results row column RTestName))
         (cell_text (results_data results row column RError)) (cell_texts (results_data results row column RBacktrace))))"

text \<open>The mapper of the results: the column with the information, enabled by the role of the button.\<close>

definition ButtonEnabledRole :: int where "ButtonEnabledRole = 33"

definition results_mapper :: "unit click_map" where
  "results_mapper = addMapping 2 () ''1showInformation(QModelIndex)'' ButtonEnabledRole []"

definition results_role :: "test_result list \<Rightarrow> model_index \<Rightarrow> int \<Rightarrow> bool" where
  "results_role results index role = (case index of
     None \<Rightarrow> False
   | Some (row, column) \<Rightarrow> role = ButtonEnabledRole \<and> results_data results row column RButtonEnabled = RBool True)"

definition results_clicked :: "test_result list \<Rightarrow> model_index \<Rightarrow> failure_dialog option" where
  "results_clicked results index =
     (if click_map_clicked (results_role results) results_mapper index = [((), ''showInformation'')]
      then showInformation results index else None)"

section \<open>The rest of the main window\<close>

text \<open>\<open>populateTestSets\<close>: the names of the directories in the directory of test sets, by name without regard to case.\<close>

definition directories :: "disk \<Rightarrow> qtext \<Rightarrow> qtext list" where
  "directories d dir = filter (\<lambda>n. slash \<notin> set n \<and> n \<noteq> [] \<and> hd n \<noteq> CHR ''.'')
     (map (\<lambda>p. drop (length dir + 1) p) (filter (prefix (dir @ [slash])) (d_dirs d)))"

text \<open>Adding to an empty box makes the entry the current one; the window is not connected to the box yet.\<close>

definition addItem :: "qtext \<Rightarrow> main_window \<Rightarrow> main_window" where
  "addItem entry M = M\<lparr>mw_sets := mw_sets M @ [entry], mw_index := (if mw_sets M = [] then 0 else mw_index M)\<rparr>"

definition populateTestSets :: "platform \<Rightarrow> main_window \<Rightarrow> main_window" where
  "populateTestSets w M =
     fold addItem (sort_key (map ascii_lower) (remdups (directories (mw_disk M) (testSetsLocation w)))) M"

text \<open>\<open>showTestContextMenu\<close>: whether the menu is shown for the index at the position.\<close>

definition showTestContextMenu :: "model_index \<Rightarrow> bool" where
  "showTestContextMenu index = (case index of None \<Rightarrow> False | Some (row, column) \<Rightarrow> column = 0)"

text \<open>\<open>updateActionStates\<close>: whether a test can be added, and the test set edited and removed.\<close>

definition updateActionStates :: "main_window \<Rightarrow> bool \<times> bool \<times> bool" where
  "updateActionStates M =
     (addTestEnabled M, tm_testSet (mw_model M) \<noteq> [], tm_testSet (mw_model M) \<noteq> [])"

text \<open>The columns of the list of tests that run and edit a test.\<close>

definition tests_mapper :: "unit click_map" where
  "tests_mapper = addMapping 2 () ''1editTestScript(QModelIndex)'' (-1)
     (addMapping 1 () ''1runTestScript(QModelIndex)'' (-1) [])"

definition tests_clicked ::
    "platform \<Rightarrow> (editor_mode \<Rightarrow> bytes \<Rightarrow> (qtext \<times> qtext list) list) \<Rightarrow> answer \<Rightarrow> model_index \<Rightarrow> main_window \<Rightarrow> main_window" where
  "tests_clicked w outcome a index M = (case index of
     None \<Rightarrow> M
   | Some (row, column) \<Rightarrow>
       fold (\<lambda>(u, method) M.
           if method = ''runTestScript'' then runTestScript w outcome a row M
           else if method = ''editTestScript'' then snd (editTestScript w a row M) else M)
         (click_map_clicked (\<lambda>i r. False) tests_mapper index) M)"

text \<open>The key \<open>Delete\<close> in the list of tests, for the current index.\<close>

definition tests_keyEvent :: "platform \<Rightarrow> bool \<Rightarrow> bool \<Rightarrow> model_index \<Rightarrow> key_event_kind \<Rightarrow> main_window \<Rightarrow> main_window" where
  "tests_keyEvent w isDelete confirmed index kind M =
     fold (\<lambda>s M. case s of Released (row, column) \<Rightarrow> deleteCurrentTest w confirmed row M | _ \<Rightarrow> M)
       (observe_key isDelete index kind) M"

text \<open>The window when Hooq starts, with what is on disk and in the settings.\<close>

definition new_MainWindow :: "platform \<Rightarrow> disk \<Rightarrow> settings \<Rightarrow> qtext list qmap \<Rightarrow> main_window" where
  "new_MainWindow w d stored arrays =
     (let M = populateTestSets w
        \<lparr>mw_editor = new_ScriptEditor, mw_model = new_TestModel, mw_disk = d, mw_settings = stored,
         mw_arrays = arrays, mw_applicationPath = [], mw_arguments = [], mw_sets = [], mw_index = -1,
         mw_testName = [], mw_testRunning = False, mw_testResult = passed_result [], mw_testResults = [],
         mw_dialog = setResults []\<rparr>
      in mw_setTestSet w (currentText M) M)"

text \<open>What the window reads from the dialog when it is accepted.\<close>

definition td_answer :: "native_separators \<Rightarrow> test_set_dialog \<Rightarrow> set_answer" where
  "td_answer sep D = Some (td_name D, td_getApplication sep D, td_arguments D)"

text \<open>\<open>startApplication\<close>, through \<open>RemoteConnection::start\<close>.\<close>

definition mw_startApplication :: "bool \<Rightarrow> main_window \<Rightarrow> gdb_injector \<Rightarrow> gdb_injector" where
  "mw_startApplication mac M G = startAndAttach mac (mw_applicationPath M) (mw_arguments M) G"

text \<open>
  \<open>Interpreter::setScriptPath\<close>, which \<open>runTestScript\<close> calls: the path that errors and backtraces show,
  and the script; \<open>None\<close> when the assertion fails that the file was opened.
\<close>

definition setScriptPath :: "platform \<Rightarrow> disk \<Rightarrow> qtext \<Rightarrow> (qtext \<times> qtext) option" where
  "setScriptPath w d path = (case read_file d path of
     None \<Rightarrow> None
   | Some b \<Rightarrow>
       Some (qarg (qarg ''%1/%2'' (last (qsplit [slash] (file_dir path)))) (last (qsplit [slash] path)),
         fromUtf8 w b))"

section \<open>A click on the margin\<close>

lemma toggled_breakpoints: "m \<in> set (e_breakpoints (toggleBreakpoint l E)) \<longleftrightarrow> (if m = l then l \<notin> set (e_breakpoints E) else m \<in> set (e_breakpoints E))"
  by (simp add: toggleBreakpoint_def)

lemma margin_paint_toggled:
  "margin_paint (e_breakpoints (toggleBreakpoint l E)) rt rb blocks n upper =
     map (\<lambda>(m, t, b). (m, t, if m = l then \<not> b else b)) (margin_paint (e_breakpoints E) rt rb blocks n upper)"
  by (induction "e_breakpoints E" rt rb blocks n upper rule: margin_paint.induct) (auto simp: toggled_breakpoints)

text \<open>The geometry of the blocks: an invisible one has no height.\<close>

definition block_heights :: "block_list \<Rightarrow> bool" where
  "block_heights blocks \<longleftrightarrow> list_all (\<lambda>(visible, height). 0 \<le> height \<and> (\<not> visible \<longrightarrow> height = 0)) blocks"

lemma clicked_line_painted:
  "block_heights blocks \<Longrightarrow> upper \<le> y \<Longrightarrow> clicked_line blocks n upper y = Some l \<Longrightarrow> rt \<le> y \<Longrightarrow> y \<le> rb \<Longrightarrow>
    \<exists>t h. (l, t, l \<in> set bps) \<in> set (margin_paint bps rt rb blocks n upper) \<and> n < l \<and>
      nat (l - n - 1) < length blocks \<and> blocks ! nat (l - n - 1) = (True, h) \<and> t \<le> y \<and> y < t + h"
proof (induction blocks n upper y rule: clicked_line.induct)
  case (2 visible height bs n upper y)
  show ?case
  proof (cases "visible \<and> upper + height > y")
    case True
    with 2(3-6) show ?thesis by (intro exI [of _ upper] exI [of _ height]) auto
  next
    case False
    then have "upper + height \<le> y" "block_heights bs" "clicked_line bs (n + 1) (upper + height) y = Some l"
      using 2(2-4) by (auto simp: block_heights_def)
    with 2(1) [OF False] 2(5,6) obtain t h where
        r: "(l, t, l \<in> set bps) \<in> set (margin_paint bps rt rb bs (n + 1) (upper + height))" "n + 1 < l"
          "nat (l - (n + 1) - 1) < length bs" "bs ! nat (l - (n + 1) - 1) = (True, h)" "t \<le> y" "y < t + h"
      by blast
    moreover have "nat (l - n - 1) = Suc (nat (l - (n + 1) - 1))" using r(2) by linarith
    moreover have "upper \<le> rb" using 2(3,6) by simp
    ultimately show ?thesis by (intro exI [of _ t] exI [of _ h]) auto
  qed
qed simp

text \<open>
  C34. A click on the margin sets or removes the breakpoint of the line it hits: if the click is
  inside the area that was painted, the number of that line was painted beside the click, and
  painting again gives the same numbers, with the mark of that line changed and all others as
  they were. A second click undoes the first.
\<close>

theorem margin_click_toggles_line:
  assumes "block_heights blocks" and "upper \<le> y" and "clicked_line blocks n upper y = Some l"
    and "rectTop \<le> y" and "y \<le> rectBottom"
    and E'_def: "E' = margin_mouseReleaseEvent blocks n upper y E"
  shows "(\<exists>t h. (l, t, l \<in> set (e_breakpoints E)) \<in> set (margin_paintEvent rectTop rectBottom blocks n upper E) \<and>
      blocks ! nat (l - n - 1) = (True, h) \<and> t \<le> y \<and> y < t + h) \<and>
    margin_paintEvent rectTop rectBottom blocks n upper E' =
      map (\<lambda>(m, t, b). (m, t, if m = l then \<not> b else b)) (margin_paintEvent rectTop rectBottom blocks n upper E) \<and>
    set (e_breakpoints (margin_mouseReleaseEvent blocks n upper y E')) = set (e_breakpoints E)"
proof -
  have E': "E' = toggleBreakpoint l E" using assms(3) by (simp add: E'_def margin_mouseReleaseEvent_def)
  have "margin_mouseReleaseEvent blocks n upper y E' = toggleBreakpoint l E'"
    using assms(3) by (simp add: margin_mouseReleaseEvent_def)
  then have "set (e_breakpoints (margin_mouseReleaseEvent blocks n upper y E')) = set (e_breakpoints E)"
    by (auto simp: E' toggled_breakpoints split: if_splits)
  with clicked_line_painted [OF assms(1-5), of "e_breakpoints E"] show ?thesis
    unfolding margin_paintEvent_def E' margin_paint_toggled by blast
qed

theorem margin_click_toggles_line_witness:
  "e_breakpoints (margin_mouseReleaseEvent [(True, 10), (False, 0), (True, 12)] 4 0 15 new_ScriptEditor) = [7] \<and>
   margin_paintEvent 0 100 [(True, 10), (False, 0), (True, 12)] 4 0
     (margin_mouseReleaseEvent [(True, 10), (False, 0), (True, 12)] 4 0 15 new_ScriptEditor) = [(5, 0, False), (7, 10, True)]"
proof -
  let ?blocks = "[(True, 10), (False, 0), (True, 12)]"
  have line: "clicked_line ?blocks 4 0 15 = Some 7" by simp
  have "block_heights ?blocks" by (simp add: block_heights_def)
  from margin_click_toggles_line [OF this _ line _ _ refl, of 0 100 new_ScriptEditor] line show ?thesis
    by (simp add: margin_mouseReleaseEvent_def toggleBreakpoint_def new_ScriptEditor_def margin_paintEvent_def)
qed

section \<open>The other widgets\<close>

text \<open>Only a failed test has information: its name, its error and its backtrace.\<close>

lemma information_about_failure:
  assumes "row < length results"
  shows "results_clicked results (Some (row, column)) =
    (if column = 2 \<and> \<not> tr_passed (results ! row)
     then Some (failure_show (tr_name (results ! row)) (tr_error (results ! row)) (tr_backtrace (results ! row)))
     else None)"
  using assms
  by (auto simp: results_clicked_def click_map_clicked_def results_mapper_def addMapping_def enabled_targets_def
      results_role_def results_data_def ButtonEnabledRole_def slot_method_def showInformation_def cell_text_def cell_texts_def)

text \<open>A click in the list of tests runs or edits the test of its row.\<close>

lemma tests_clicked_column:
  "tests_clicked w outcome a (Some (row, column)) M =
     (if column = 1 then runTestScript w outcome a row M
      else if column = 2 then snd (editTestScript w a row M) else M)"
  by (simp add: tests_clicked_def click_map_clicked_def tests_mapper_def addMapping_def enabled_targets_def slot_method_def)

text \<open>The assertions of the dialog hold, and \<open>Delete\<close> takes away the argument that was added last.\<close>

lemma test_set_dialog_keeps:
  assumes "\<And>s. fromNative sep (toNative sep s) = s"
  shows "td_getApplication sep (td_setApplication sep application D) = application"
    and "removeArgument (length (td_arguments D)) (addArgument D) = D\<lparr>td_newArgument := []\<rparr>"
  using assms by (simp_all add: td_getApplication_def td_setApplication_def removeArgument_def addArgument_def)

text \<open>Moving the mouse to another button releases the one that was pressed; a disabled one never looks pressed.\<close>

lemma button_pressed:
  "bs_sunken (initStyleOptionButton en over roleData cell (hoverIndex i D)) = False"
  "bs_sunken (initStyleOptionButton en over roleData cell D) \<Longrightarrow> \<not> bs_greyed (initStyleOptionButton en over roleData cell D)"
  by (auto simp: initStyleOptionButton_def hoverIndex_def pd_release_def Let_def)

text \<open>A script is shown under the name of its test set and the name of its file.\<close>

lemma setScriptPath_shows:
  assumes "slash \<notin> set testSet" and "slash \<notin> set name" and "percent \<notin> set testSet"
  shows "setScriptPath w d (dir @ slash # testSet @ slash # name) =
    map_option (\<lambda>b. (testSet @ slash # name, fromUtf8 w b)) (read_file d (dir @ slash # testSet @ slash # name))"
proof -
  let ?p = "dir @ slash # testSet @ slash # name"
  have "file_dir ?p = dir @ slash # testSet"
    using file_dir_append [OF assms(2), of "dir @ slash # testSet"] by simp
  moreover have "last (qsplit [slash] (dir @ slash # testSet)) = testSet" using assms(1) by (simp add: qsplit_snoc)
  moreover have "last (qsplit [slash] ?p) = name"
    using qsplit_snoc [OF assms(2), of "dir @ slash # testSet"] by simp
  moreover have "qarg (qarg ''%1/%2'' testSet) name = testSet @ slash # name"
  proof -
    have "qarg ''%1/%2'' testSet = testSet @ ''/%2''" by (simp add: qt_text)
    then show ?thesis using assms(3) by (simp add: qarg_append) (simp add: qt_text)
  qed
  ultimately show ?thesis by (simp add: setScriptPath_def split: option.split)
qed

section \<open>Starting Hooq again\<close>

lemma fold_addItem:
  "mw_sets (fold addItem xs M) = mw_sets M @ xs" "mw_disk (fold addItem xs M) = mw_disk M"
  "mw_settings (fold addItem xs M) = mw_settings M" "mw_arrays (fold addItem xs M) = mw_arrays M"
  by (induction xs arbitrary: M) (simp_all add: addItem_def)

lemma mw_setTestSet_frame [simp]:
  "mw_sets (mw_setTestSet w n M) = mw_sets M" "mw_settings (mw_setTestSet w n M) = mw_settings M"
  "mw_arrays (mw_setTestSet w n M) = mw_arrays M"
  by (simp_all add: mw_setTestSet_def Let_def split: prod.splits)

lemma new_MainWindow_frame [simp]:
  "mw_sets (new_MainWindow w d stored arrays) = sort_key (map ascii_lower) (remdups (directories d (testSetsLocation w)))"
  "mw_settings (new_MainWindow w d stored arrays) = stored" "mw_arrays (new_MainWindow w d stored arrays) = arrays"
  by (simp_all add: new_MainWindow_def populateTestSets_def fold_addItem Let_def)

lemma mkpath_makes: "p \<noteq> [] \<Longrightarrow> last p \<noteq> slash \<Longrightarrow> p \<in> set (d_dirs (mkpath p d))"
proof -
  assume p: "p \<noteq> []" "last p \<noteq> slash"
  let ?parts = "qsplit [slash] p"
  have "qjoin [slash] (take (length ?parts) ?parts) = p" by (simp add: qjoin_qsplit)
  moreover have "length ?parts \<in> set [1..<Suc (length ?parts)]" by (cases ?parts) auto
  ultimately have "p \<in> set (map (\<lambda>k. qjoin [slash] (take k ?parts)) [1..<Suc (length ?parts)])"
    by (metis (mono_tags, lifting) image_eqI set_map)
  with p show ?thesis by (simp add: mkpath_def strip_slash_def Let_def)
qed

lemma test_set_directory:
  assumes "platform_documented w" and "part_name n" and "hd n \<noteq> CHR ''.''" and "testSetLocation w n \<in> set (d_dirs d)"
  shows "n \<in> set (directories d (testSetsLocation w))"
proof -
  have "clean (storageLocation w @ slash # ''tests'')"
    using assms(1) by (intro clean_snoc) (simp_all add: platform_documented_def part_name_def)
  then have "testSetsLocation w = storageLocation w @ ''/tests''"
    using assms(1) by (simp add: testSetsLocation_def platform_documented_def)
  then have "testSetLocation w n = testSetsLocation w @ [slash] @ n"
    using testSetLocation_plain(1) [OF assms(1,2)] by simp
  with assms(4) have "n \<in> (\<lambda>p. drop (length (testSetsLocation w) + 1) p) ` {p \<in> set (d_dirs d). prefix (testSetsLocation w @ [slash]) p}"
    by (intro rev_image_eqI [of "testSetLocation w n"]) simp_all
  with assms(2,3) show ?thesis by (simp add: directories_def part_name_def)
qed

lemma setTestSet_directory:
  assumes "platform_documented w" and "part_name n"
  shows "testSetLocation w n \<in> set (d_dirs (mw_disk (mw_setTestSet w n M)))"
proof -
  have "testSetLocation w n = storageLocation w @ ''/tests/'' @ n" "n \<noteq> []" "slash \<notin> set n"
    using testSetLocation_plain(1) [OF assms] assms(2) by (simp_all add: part_name_def)
  then have "testSetLocation w n \<noteq> []" "last (testSetLocation w n) \<noteq> slash" using last_in_set by fastforce+
  then show ?thesis using \<open>n \<noteq> []\<close> mkpath_makes by (auto simp: mw_setTestSet_def setTestSet_def Let_def)
qed

text \<open>A test set that was added is listed, with its application and arguments, when Hooq starts again.\<close>

lemma test_set_after_restart:
  assumes "platform_documented w" and "part_name n" and "hd n \<noteq> CHR ''.''"
    and M1: "M1 = addTestSet w (Some (n, application, arguments)) M"
    and M2: "M2 = new_MainWindow w (mw_disk M1) (mw_settings M1) (mw_arrays M1)"
  shows "n \<in> set (mw_sets M2)"
    and "mw_applicationPath (mw_setTestSet w n M2) = application"
    and "mw_arguments (mw_setTestSet w n M2) = arguments"
proof -
  have n: "n \<noteq> []" using assms(2) by (simp add: part_name_def)
  have "tm_testSet (mw_model (mw_setTestSet w n X)) = n" for X
    using n by (simp add: mw_setTestSet_def setTestSet_def Let_def)
  with n have stored: "map_of (mw_settings M1) (application_key n) = Some application"
      "map_of (mw_arrays M1) (arguments_key n) = Some arguments"
    by (simp_all add: M1 addTestSet_def saveApplicationArguments_def mw_setApplicationPath_def setApplicationPath_def
        qvmap.insert_same Let_def)
  have "testSetLocation w n \<in> set (d_dirs (mw_disk M1))"
    using n setTestSet_directory [OF assms(1,2)]
    by (simp add: M1 addTestSet_def saveApplicationArguments_def mw_setApplicationPath_def Let_def)
  then show "n \<in> set (mw_sets M2)" using test_set_directory [OF assms(1-3)] by (simp add: M2)
  from stored show "mw_applicationPath (mw_setTestSet w n M2) = application"
      "mw_arguments (mw_setTestSet w n M2) = arguments"
    by (simp_all add: M2 mw_setTestSet_def applicationPath_def applicationArguments_def Let_def split: prod.split)
qed

end
