(* ===== verification/Crash_Dumps.thy ===== *)
theory Crash_Dumps
  imports Main_Window
begin

text \<open>
  The minidumps that a crash leaves behind (\<open>hooq/BreakpadCrashHandler.cpp\<close>): finding them, newest
  first, and removing all but the newest. When a file was changed last is the parameter \<open>modified\<close>;
  the handler that writes the dumps belongs to google-breakpad.
\<close>

definition mdmp_magic :: bytes where
  "mdmp_magic = [0x4D, 0x44, 0x4D, 0x50]"

definition isValidMiniDump :: "disk \<Rightarrow> qtext \<Rightarrow> bool" where
  "isValidMiniDump d filePath = (case read_file d filePath of
     None \<Rightarrow> False | Some b \<Rightarrow> take 4 b = mdmp_magic)"

text \<open>
  \<open>entryInfoList\<close> with the pattern \<open>*.dmp\<close>, which does not distinguish upper and lower case, by
  time. Hidden files are left out, and a directory is no valid dump.
\<close>

definition is_dump_name :: "qtext \<Rightarrow> qtext \<Rightarrow> bool" where
  "is_dump_name dir p \<longleftrightarrow>
     (let name = drop (length dir + 1) p
      in prefix (dir @ [slash]) p \<and> slash \<notin> set name \<and> lower_suffix ''.dmp'' name \<and> hd name \<noteq> CHR ''.'')"

definition entryInfoList :: "(qtext \<Rightarrow> int) \<Rightarrow> disk \<Rightarrow> qtext \<Rightarrow> qtext list" where
  "entryInfoList modified d dir = sort_key (\<lambda>p. - modified p) (filter (is_dump_name dir) (map fst (d_files d)))"

definition findMiniDumps :: "(qtext \<Rightarrow> int) \<Rightarrow> disk \<Rightarrow> qtext \<Rightarrow> qtext list" where
  "findMiniDumps modified d dir = filter (isValidMiniDump d) (entryInfoList modified d dir)"

definition mostRecentMiniDump :: "(qtext \<Rightarrow> int) \<Rightarrow> disk \<Rightarrow> qtext \<Rightarrow> qstring" where
  "mostRecentMiniDump modified d dir =
     (case findMiniDumps modified d dir of [] \<Rightarrow> None | p # ps \<Rightarrow> Some p)"

definition removeOldMiniDumps :: "(qtext \<Rightarrow> int) \<Rightarrow> qtext \<Rightarrow> disk \<Rightarrow> disk" where
  "removeOldMiniDumps modified dir d = fold remove_file (tl (findMiniDumps modified d dir)) d"

section \<open>Only the newest dump stays\<close>

lemma remove_file_frame [simp]: "d_locked (remove_file p d) = d_locked d"
  by (simp add: remove_file_def)

lemma removed_files:
  "\<forall>p \<in> set ps. p \<notin> set (d_locked d) \<Longrightarrow>
    d_files (fold remove_file ps d) = filter (\<lambda>e. fst e \<notin> set ps) (d_files d) \<and>
    d_locked (fold remove_file ps d) = d_locked d"
proof (induction ps arbitrary: d)
  case (Cons p ps)
  then have "d_files (remove_file p d) = filter (\<lambda>e. fst e \<noteq> p) (d_files d)"
    by (simp add: remove_file_def qm_remove_def)
  with Cons show ?case by (simp add: conj_commute)
qed simp

lemma map_of_filter_keys: "map_of (filter (\<lambda>e. fst e \<notin> S) m) k = (if k \<in> S then None else map_of m k)"
  by (induction m) auto

lemma read_removed:
  assumes "\<forall>p \<in> set ps. p \<notin> set (d_locked d)"
  shows "read_file (fold remove_file ps d) x = (if x \<in> set ps then None else read_file d x)"
  using removed_files [OF assms] assms by (auto simp: read_file_def map_of_filter_keys)

lemma found_after_removal:
  assumes "\<forall>p \<in> set ps. p \<notin> set (d_locked d)"
  shows "findMiniDumps modified (fold remove_file ps d) dir = filter (\<lambda>p. p \<notin> set ps) (findMiniDumps modified d dir)"
proof -
  have valid: "isValidMiniDump (fold remove_file ps d) p \<longleftrightarrow> p \<notin> set ps \<and> isValidMiniDump d p" for p
    by (simp add: isValidMiniDump_def read_removed [OF assms])
  have "map fst (d_files (fold remove_file ps d)) = filter (\<lambda>p. p \<notin> set ps) (map fst (d_files d))"
    using removed_files [OF assms] by (simp add: filter_map comp_def)
  then have "entryInfoList modified (fold remove_file ps d) dir = filter (\<lambda>p. p \<notin> set ps) (entryInfoList modified d dir)"
    unfolding entryInfoList_def by (simp add: filter_sort conj_commute)
  then show ?thesis by (simp add: findMiniDumps_def valid conj_commute) (meson filter_cong)
qed


definition crashed :: disk where
  "crashed = \<lparr>d_files = [(''c/a.dmp'', mdmp_magic @ [1]), (''c/b.dmp'', mdmp_magic), (''c/c.dmp'', [0])], d_dirs = [''c''], d_locked = []\<rparr>"


end
