(* ===== verification/Spec2Isabelle.thy ===== *)
theory Spec2Isabelle
  imports Hooq_Prelude Qt_Decimal Object_Paths Script_Items Xml_Parse Script_Processors Script_Safety Script_Variables Script_Inserts Hooq_Player Player_Protocol Hooq_Logger Logger_Protocol Remote_Objects Replay Hooq_Interpreter Playback_Loop User_Sessions Loop_Commands Record_And_Replay Test_Files Test_Backup Object_Info Script_Editor Main_Window Script_Search Property_Picking Hooq_Session Script_Highlighter Script_Types Injection Window_Widgets Crash_Dumps
begin

text \<open>
  A verification library for Hooq, a toolkit that records what a user does in a Qt application,
  turns the recording into a script, and plays the script back against the application as a test.

  \<^bold>\<open>The program and its parts.\<close>
  Hooq runs in two processes. A library (\<open>injectedHooq/\<close>) is loaded into the tested application; the
  front end (\<open>hooq/\<close>, or \<open>hooqcli/\<close>) listens for its connection. \<open>Marshall.cpp\<close> reads the first
  command and starts either a \<open>Logger\<close> or a \<open>Player\<close> inside the application.

  Recording: the logger filters the events of the application and writes each one as an XML element
  with the path of its receiver (\<open>common/ObjectHookName.cpp\<close>). \<open>XmlToQtScript.cpp\<close> reads the
  elements into a list of items, six post-processors simplify the list in passes, and the items are
  printed as script text. Playback: the script engine calls remote objects, which ask the
  \<open>Interpreter\<close> to write one element per call; the player finds the object of the path, posts the
  event and acknowledges it; the interpreter waits for the acknowledgement in a nested event loop.
  Around this are the properties a script can pick from an object, the test sets on disk and their
  backups (\<open>TestSetBackup.cpp\<close>, \<open>hooqbackup/\<close>), the script editor and the main window.

  \<^bold>\<open>The theories.\<close>
  Paths are those under \<open>src/\<close>; definitions have the names of the functions they translate, with a
  prefix or suffix where a name is taken twice.

  \<^item> \<open>Hooq_Prelude\<close>: the vocabulary. \<open>QString\<close> is a list of characters, or an option of one where
    the null string differs from the empty one; flags (modifiers, mouse buttons, editor features) are
    a \<open>32 word\<close>, coordinates and counters integers; \<open>QMap\<close> is a sorted association list (\<open>qm_insert\<close>, \<open>qm_remove\<close>, \<open>map_of\<close>);
    splitting, joining, replacing and \<open>QString::arg\<close> are functions with their laws. A sum type
    has an error for the C++ statements whose behaviour is undefined (\<open>first()\<close> of an empty list).
    The record \<open>qt\<close> holds what comes from Qt: numbers to text and back, character classes, key
    sequences. \<open>Qt_Decimal\<close> gives a concrete value of it and proves what the theorems assume.
  \<^item> \<open>Object_Paths\<close>: \<open>common/ObjectHookName.cpp\<close> and \<open>Player::findObject\<close>, over an explicit tree of
    objects. \<open>objectPath\<close> follows parents and is a \<open>partial_function\<close>; it is shown to return for every
    object below a top-level widget. Locale \<open>path_syntax\<close>: splitting undoes joining for names without the separator.
  \<^item> \<open>Script_Items\<close>, \<open>Xml_Parse\<close>: items and their printing, the enum names, and the reader of
    recordings in \<open>hooq/XmlToQtScript.cpp\<close>. Locales \<open>keyed_store\<close> (the \<open>QMap\<close> of parameters) and
    \<open>flag_names\<close> (an expression of named flags evaluates to the flags), the latter interpreted for
    modifiers and for mouse buttons.
  \<^item> \<open>Script_Processors\<close>: \<open>Item::Inserter\<close>, the six post-processors and the passes.
    \<open>Script_Safety\<close> (locale \<open>pass_contract\<close>) shows on which recordings every pass returns,
    \<open>Script_Variables\<close> that moving paths and texts into variables keeps the meaning of the script
    (the specification resolves the declarations), \<open>Script_Inserts\<close> (locale \<open>local_inserts\<close>) where an
    insertion ends up and what a run of movements or keys becomes.
  \<^item> \<open>Hooq_Logger\<close>, \<open>Logger_Protocol\<close>: \<open>injectedHooq/Logger.cpp\<close>, and the invariant that a recording
    holds what every event wrote, whatever passes through the drag and drop buffer.
  \<^item> \<open>Hooq_Player\<close>, \<open>Player_Protocol\<close>: \<open>injectedHooq/Player.cpp\<close> and \<open>Event.cpp\<close>. The steps of a
    session are the slots Qt calls; the invariant says that the replies answer the commands in order.
    The tested application is the record \<open>app_ops\<close>, its state a type variable.
  \<^item> \<open>Remote_Objects\<close>, \<open>Hooq_Interpreter\<close>: what a script calls and \<open>hooq/Interpreter.cpp\<close>.
    \<open>Replay\<close> composes logger, reader, remote object, interpreter and player for each kind of event
    and states what arrives (\<open>posts\<close>). \<open>Playback_Loop\<close> closes the loop of interpreter and player.
  \<^item> \<open>User_Sessions\<close>, \<open>Loop_Commands\<close>, \<open>Record_And_Replay\<close>: the way from the user to the application.
    The logger runs over what a user does, drag and drop included; a script is played command by
    command in an executable schedule (\<open>play_signals\<close>), shown to be a run of \<open>loop\<close>; a predicate \<open>worth\<close>
    says which actions recorded elements are worth, is shown for one input and composed over the session.
  \<^item> \<open>Object_Info\<close>: \<open>XmlPropertyDumper.cpp\<close> and \<open>ObjectInformation.cpp\<close>, as XML tokens.
  \<^item> \<open>Test_Files\<close>, \<open>Test_Backup\<close>: \<open>Locations.cpp\<close>, \<open>TestModel.cpp\<close>, \<open>TestSetBackup.cpp\<close> and
    \<open>hooqbackup/main.cpp\<close>, over a record \<open>disk\<close> of files, directories and paths that cannot be opened.
    Locale \<open>file_store\<close>: what was written to a file that can be written is read back, other files
    stay. Backups and the script editor rest on its interpretation.
  \<^item> \<open>Script_Editor\<close>, \<open>Main_Window\<close>: \<open>ScriptEditor.cpp\<close>, \<open>CodeEditor.cpp\<close>, \<open>MainWindow.cpp\<close> and the
    results of a run. Answers to dialogs are arguments. \<open>Script_Search\<close>: searching and replacing, with
    \<open>QTextDocument::find\<close> as a parameter. \<open>Property_Picking\<close>: the dialog for the properties of a picked
    object (\<open>PropertyDialog.cpp\<close>, \<open>VariantMapModel.cpp\<close>, \<open>uilib/ColumnClickMapper.cpp\<close>) and the table of
    a backtrace.
  \<^item> \<open>Script_Types\<close>: the functions of remote objects with the parameters they read (an abstract
    specification), and that every item a recording or a post-processor produces is a call of one
    of them. Locale \<open>item_invariant\<close>: what each post-processor keeps holds after all passes.
  \<^item> \<open>Script_Highlighter\<close>: the state machine of \<open>qscripthighlighter.cpp\<close>, as the list of ranges it
    formats, and what Qt paints then.
  \<^item> \<open>Window_Widgets\<close>: the margin of the editor, buttons in tables and the key observer of \<open>uilib/\<close>,
    \<open>TestSetDialog.cpp\<close>, the information about a failed test, and what starting Hooq, clicks and
    keys do in the main window, and \<open>Interpreter::setScriptPath\<close>.
  \<^item> \<open>Injection\<close>: \<open>hooqInjector/GdbInjector.cpp\<close> and \<open>WindowsInjector.cpp\<close>, as the commands written to
    gdb and the calls made; the specification is what gdb and the shell make of them.
    \<open>Crash_Dumps\<close>: the minidumps of \<open>BreakpadCrashHandler.cpp\<close>.
  \<^item> \<open>Hooq_Session\<close>: \<open>Marshall.cpp\<close>, \<open>hooqInjector/Remote*.cpp\<close>, \<open>hooqcli/main.cpp\<close>: who gets a
    connection, and how a session is closed.
  \<^item> This theory: what is entered for a test set reaches the application, through the dialog, the
    settings, a new start of Hooq and gdb.

  \<^bold>\<open>How effects are modelled.\<close>
  Every object with state is a record and every slot a function from record to record. A nested
  event loop (\<open>while(m_pendingAcks) processEvents()\<close>, a paused editor) ends the function in a state
  that says what it waits for; the rest of the slot is a second function that runs when the condition
  holds. Interleavings are then the runs of an inductive relation: \<open>session\<close>, \<open>log_session\<close>,
  \<open>loop\<close>, \<open>editing\<close>. Errors are values: a null string, \<open>False\<close>, an exit code, the left side of a sum.

  \<^bold>\<open>What comes from outside.\<close>
  The parameters are \<open>qt\<close>, \<open>app_ops\<close>, \<open>platform\<close> (codecs, paths, application data), \<open>archive_ops\<close>
  (\<open>QDataStream\<close>, \<open>qCompress\<close>), \<open>finder\<close>, \<open>char_classes\<close>, \<open>native_separators\<close>, the times of files, and the script engine's evaluator. Theorems
  name what they need of them as hypotheses, each a documented property of Qt (for example
  \<open>stream_reads_back\<close>: a string shorter than \<open>2 ^ 30\<close> and an array shorter than \<open>2 ^ 31\<close>, the sizes Qt
  4 can hold, are read back from a stream). A concrete value that satisfies the hypotheses stands in
  the witness of each such theorem.

  \<^bold>\<open>Termination and bounds.\<close>
  Loops over lists, tokens and streams are recursive functions with a measure. \<open>free_count\<close>, which
  looks for an unused variable name, is given one round more than there are names, which is enough
  because the names it tries differ. \<open>path_components\<close>, \<open>read_tests\<close> and \<open>replace_loop\<close> are partial functions, and the
  theorems about them show that they return. Flags are kept at 32 bits; the round trips of numbers
  are stated for the range of a 32-bit \<open>int\<close>.

  \<^bold>\<open>What the theorems show.\<close>
  A whole session, from the user through recording, script and playback to the application: C1. Names
  and paths: C2 to C4. Scripts: C5 to C7 for text and recordings, C8 for the types of all
  items, C9 to C17 for the post-processors. Recording and playback: C18 to C24. Tests and backups: C25 to C28,
  properties: C29 and C35, editor: C30 to C34, main window: C36 and C37. Sessions: C38 and C39; minidumps: C40.
  Several theorems state where the code does not do what it means to: a name with three colons (C4),
  recordings that end early (C10), the first pass of the inserter (C16), wheel and key repetition
  (C20 and C21), backups of new tests (C27), \<open>hooqcli\<close> (C38) and the flag that is not initialised (C39); lemmas
  show it for discarding changes, for comparing a \<open>double\<close>, for a second mouse button, for the reason of
  a context menu, for arguments that end in a backslash, for a comment whose end is hidden by a backslash
  and for a path of the library that is too long.

  \<^bold>\<open>Not modelled.\<close>
  \<open>google-breakpad/\<close> is third-party code, and the constructor of \<open>BreakpadCrashHandler\<close> only hands over to it.
  Left out of Hooq's own code: the hook of \<open>WinDll.cpp\<close> and the entry point of the library, which are calls
  of the operating system and the linker; the layout of dialogs, views and menus, the about box,
  colours and icons; debug output. Processes are given by the signals they send. Timing is not modelled: a timer may fire at
  any moment. Characters are those of HOL's type \<open>char\<close> instead of UTF-16 units.
\<close>

section \<open>From the dialog of a test set to the arguments of the application\<close>

text \<open>
  C37. What is entered for a test set reaches the application, also after Hooq was started anew: when
  the dialog with a name, an application and arguments is accepted and Hooq starts again with the same
  files and settings, the test set is in the list, and choosing it and starting its application
  starts gdb on the application that was entered and writes a command \<open>set args\<close> that the shell
  splits into the arguments that were entered. The name must be one part of a path and not hidden,
  the arguments free of backslashes, dollar signs, backquotes and line breaks.
\<close>

theorem entered_test_set_is_started:
  assumes "platform_documented w" and "part_name (td_name D)" and "hd (td_name D) \<noteq> CHR ''.''"
    and "\<forall>s \<in> set (td_arguments D). plain_argument s"
    and "libraryPath d dir = Some library" and "newline \<notin> set library" and "newline \<notin> set now"
    and M1: "M1 = addTestSet w (td_answer sep D) M"
    and M2: "M2 = new_MainWindow w (mw_disk M1) (mw_settings M1) (mw_arrays M1)"
    and G: "G = startProcess d dir now (mw_startApplication mac (mw_setTestSet w (td_name D) M2) new_GdbInjector)"
  shows "td_name D \<in> set (mw_sets M2) \<and>
    (\<exists>options. g_gdb G = Some (options @ [td_getApplication sep D])) \<and>
    (\<exists>line. qsplit [newline] (g_written G) ! 2 = ''set args'' @ line \<and> shell_words line = Some (td_arguments D))"
proof -
  note restart = test_set_after_restart [OF assms(1-3) M1 [unfolded td_answer_def] M2]
  have start: "G = startProcess d dir now (startAndAttach mac (td_getApplication sep D) (td_arguments D) new_GdbInjector)"
    using restart(2,3) by (simp add: G mw_startApplication_def)
  note commands = application_gets_arguments [OF assms(4-7), of mac "td_getApplication sep D" new_GdbInjector]
  then have "qsplit [newline] (g_written G) ! 2 = gdb_commands (td_arguments D) library now ! 2"
    unfolding start by (simp add: nth_append gdb_commands_def)
  with commands have "\<exists>line. qsplit [newline] (g_written G) ! 2 = ''set args'' @ line \<and> shell_words line = Some (td_arguments D)"
    by metis
  moreover have "\<exists>options. g_gdb G = Some (options @ [td_getApplication sep D])"
    unfolding start startProcess_def startAndAttach_def by simp
  ultimately show ?thesis using restart(1) by blast
qed

definition entered :: test_set_dialog where
  "entered = addArgument (new_TestSetDialog\<lparr>td_name := ''set'', td_application := ''/bin/app'', td_newArgument := ''a b''\<rparr>)"

definition same_separators :: native_separators where
  "same_separators = \<lparr>toNative = (\<lambda>s. s), fromNative = (\<lambda>s. s)\<rparr>"

theorem entered_test_set_is_started_witness:
  "let M1 = addTestSet sample_platform (td_answer same_separators entered) sample_window;
       M2 = new_MainWindow sample_platform (mw_disk M1) (mw_settings M1) (mw_arrays M1);
       G = startProcess library_disk ''/opt/bin'' ''2''
         (mw_startApplication False (mw_setTestSet sample_platform (td_name entered) M2) new_GdbInjector)
   in \<exists>options line. g_gdb G = Some (options @ [''/bin/app'']) \<and>
     qsplit [newline] (g_written G) ! 2 = ''set args'' @ line \<and> shell_words line = Some [''a b'']"
proof -
  define M1 where "M1 = addTestSet sample_platform (td_answer same_separators entered) sample_window"
  define M2 where "M2 = new_MainWindow sample_platform (mw_disk M1) (mw_settings M1) (mw_arrays M1)"
  define G where "G = startProcess library_disk ''/opt/bin'' ''2''
    (mw_startApplication False (mw_setTestSet sample_platform (td_name entered) M2) new_GdbInjector)"
  have name: "part_name (td_name entered)" "hd (td_name entered) \<noteq> CHR ''.''"
    by (simp_all add: entered_def addArgument_def new_TestSetDialog_def part_name_def)
  have "\<forall>s \<in> set (td_arguments entered). plain_argument s"
    by (simp add: entered_def addArgument_def new_TestSetDialog_def plain_argument_def)
  moreover have "libraryPath library_disk ''/opt/bin'' = Some ''/opt/bin/../lib/libinjectedHooq.so.1.0.0''" by code_simp
  moreover have "newline \<notin> set ''/opt/bin/../lib/libinjectedHooq.so.1.0.0''" "newline \<notin> set ''2''" by simp_all
  ultimately obtain options line where "g_gdb G = Some (options @ [td_getApplication same_separators entered])"
      "qsplit [newline] (g_written G) ! 2 = ''set args'' @ line" "shell_words line = Some (td_arguments entered)"
    using entered_test_set_is_started [OF sample_platform_documented name _ _ _ _ M1_def M2_def G_def] by blast
  moreover have "td_getApplication same_separators entered = ''/bin/app''" "td_arguments entered = [''a b'']"
    by (simp_all add: entered_def addArgument_def new_TestSetDialog_def td_getApplication_def same_separators_def)
  ultimately show ?thesis unfolding Let_def G_def M2_def M1_def by auto
qed

end
